(* ===== verification/Prelude.thy ===== *)
theory Prelude
  imports Main "HOL-Library.Word" "HOL-Library.List_Lexorder" "HOL-Library.Char_ord"
    "HOL-Library.Sublist"
begin

text \<open>
  What every other theory shares: Go's \<open>int64\<close> and PostgreSQL's \<open>bigint\<close> as 64-bit words
  read as two's complement, Go's decimal rendering and reading of integers, instants of
  time, and the generic facts on lists that the table proofs use.
\<close>

named_theorems ledger_simps \<open>characteristic equations of the model's operations\<close>
named_theorems preserve_intros \<open>rules that a unit of work keeps a property of the database\<close>

section \<open>Machine integers\<close>

type_synonym int64 = "64 word"

text \<open>Instants (\<open>time.Time\<close>) and durations, counted in nanoseconds.\<close>

type_synonym time = int

definition in_int64 :: "int \<Rightarrow> bool" where
  "in_int64 i \<longleftrightarrow> - (2 ^ 63) \<le> i \<and> i < 2 ^ 63"

lemma sint_in_int64 [simp]: "in_int64 (sint (x :: int64))"
  using sint_ge [of x] sint_lt [of x] by (simp add: in_int64_def)

lemma sint_word_of_int [simp]: "in_int64 i \<Longrightarrow> sint (word_of_int i :: int64) = i"
  by (simp add: in_int64_def sint_sbintrunc' signed_take_bit_int_eq_self)

lemma sint_eq_iff: "sint x = sint y \<longleftrightarrow> x = (y :: int64)"
  by (auto intro: signed_word_eqI)

lemma sint_add_exact:
  "in_int64 (sint x + sint y) \<Longrightarrow> sint (x + y) = sint x + sint (y :: int64)"
  by (simp add: in_int64_def sint_word_add signed_take_bit_int_eq_self)

lemma word_of_int_sint_int64: "word_of_int (sint x) = (x :: int64)"
  by simp

lemma sint_minus_exact:
  assumes "sint (x :: int64) \<noteq> - (2 ^ 63)"
  shows "sint (- x) = - sint x"
proof -
  have "in_int64 (sint x)" by simp
  with assms have "in_int64 (- sint x)" by (auto simp: in_int64_def)
  then have "sint (word_of_int (- sint x) :: int64) = - sint x" by (rule sint_word_of_int)
  then show ?thesis by simp
qed

lemma sint_minus_pos: "0 < sint (x :: int64) \<Longrightarrow> sint (- x) = - sint x"
  by (rule sint_minus_exact) simp

text \<open>PostgreSQL's \<open>bigint + bigint\<close>: an error (\<open>None\<close>) where Go would wrap.\<close>

definition bigint_add :: "int64 \<Rightarrow> int64 \<Rightarrow> int64 option" where
  "bigint_add a b = (if in_int64 (sint a + sint b) then Some (a + b) else None)"

lemma bigint_add_Some: "bigint_add a b = Some c \<Longrightarrow> c = a + b \<and> sint c = sint a + sint b"
  by (auto simp: bigint_add_def sint_add_exact split: if_splits)

section \<open>Decimal text\<close>

definition digit_char :: "nat \<Rightarrow> char" where
  "digit_char d = char_of (48 + d)"

definition is_digit :: "char \<Rightarrow> bool" where
  "is_digit c \<longleftrightarrow> 48 \<le> (of_char c :: nat) \<and> (of_char c :: nat) \<le> 57"

definition digit_val :: "char \<Rightarrow> nat" where
  "digit_val c = of_char c - 48"

fun dec_text :: "nat \<Rightarrow> string" where
  "dec_text n = (if n < 10 then [digit_char n] else dec_text (n div 10) @ [digit_char (n mod 10)])"

declare dec_text.simps [simp del]

definition dec_value :: "string \<Rightarrow> nat" where
  "dec_value s = foldl (\<lambda>acc c. 10 * acc + digit_val c) 0 s"

text \<open>\<open>fmt.Sprintf\<close> with verb \<open>%d\<close> on an \<open>int64\<close>.\<close>

definition fmt_d :: "int64 \<Rightarrow> string" where
  "fmt_d x = (if sint x < 0 then CHR ''-'' # dec_text (nat (- sint x)) else dec_text (nat (sint x)))"

lemma digit_char_props [simp]:
  assumes "d < 10"
  shows "is_digit (digit_char d)" and "digit_val (digit_char d) = d"
  using assms by (simp_all add: is_digit_def digit_val_def digit_char_def)

lemma dec_value_Nil [simp]: "dec_value [] = 0"
  by (simp add: dec_value_def)

lemma dec_value_snoc [simp]: "dec_value (s @ [c]) = 10 * dec_value s + digit_val c"
  by (simp add: dec_value_def)

lemma dec_text_digits: "\<forall>c \<in> set (dec_text n). is_digit c"
proof (induction n rule: dec_text.induct)
  case (1 n)
  show ?case
  proof (cases "n < 10")
    case True
    then show ?thesis by (simp add: dec_text.simps [of n])
  next
    case False
    with 1 show ?thesis by (auto simp: dec_text.simps [of n])
  qed
qed

lemma dec_text_not_Nil [simp]: "dec_text n \<noteq> []"
  by (simp add: dec_text.simps [of n])

lemma dec_value_dec_text [simp]: "dec_value (dec_text n) = n"
proof (induction n rule: dec_text.induct)
  case (1 n)
  show ?case
  proof (cases "n < 10")
    case True
    then show ?thesis using dec_value_snoc [of "[]"] by (simp add: dec_text.simps [of n])
  next
    case False
    with 1 have "dec_value (dec_text n) = 10 * (n div 10) + n mod 10"
      by (simp add: dec_text.simps [of n])
    then show ?thesis by simp
  qed
qed

lemma dec_text_inject: "dec_text m = dec_text n \<longleftrightarrow> m = n"
  by (metis dec_value_dec_text)

lemma fmt_d_inject: "fmt_d x = fmt_d y \<longleftrightarrow> x = y"
proof
  assume eq: "fmt_d x = fmt_d y"
  have no_minus: "dec_text n \<noteq> CHR ''-'' # s" for n s
  proof
    assume "dec_text n = CHR ''-'' # s"
    then have "CHR ''-'' \<in> set (dec_text n)" by simp
    then have "is_digit (CHR ''-'')" using dec_text_digits by blast
    then show False by (simp add: is_digit_def)
  qed
  have "sint x = sint y"
    using eq no_minus [of "nat (sint x)"] no_minus [of "nat (sint y)"]
    by (auto simp: fmt_d_def dec_text_inject split: if_splits) (metis no_minus)+
  then show "x = y" by (simp add: sint_eq_iff)
qed simp

section \<open>Lists\<close>

lemma sum_list_filter_map_update:
  fixes f :: "'a \<Rightarrow> int"
  shows "sum_list (map f xs) = sum_list (map f (filter P xs)) + sum_list (map f (filter (\<lambda>x. \<not> P x) xs))"
  by (induction xs) auto

lemma find_None_ball: "List.find P xs = None \<longleftrightarrow> (\<forall>x \<in> set xs. \<not> P x)"
  by (auto simp: find_None_iff)

lemma find_Some_memD: "List.find P xs = Some x \<Longrightarrow> x \<in> set xs \<and> P x"
  by (auto simp: find_Some_iff)

lemma find_append:
  "List.find P (xs @ ys) = (case List.find P xs of None \<Rightarrow> List.find P ys | Some x \<Rightarrow> Some x)"
  by (induction xs) auto

lemma find_map_keep:
  "(\<And>x. P (f x) = P x) \<Longrightarrow> List.find P (map f xs) = map_option f (List.find P xs)"
  by (induction xs) auto

section \<open>Letters\<close>

text \<open>The lower case of an ASCII letter.\<close>

definition to_lower :: "char \<Rightarrow> char" where
  "to_lower c = (let n = of_char c :: nat in if 65 \<le> n \<and> n \<le> 90 then char_of (n + 32) else c)"

end
