(* ===== verification/Money.thy ===== *)
theory Money
  imports Prelude
begin

text \<open>
  \<open>internal/domain/violation.go\<close> and \<open>internal/domain/money.go\<close>: the sealed refusal type and
  the amount in minor units. The two files refer to each other (a violation carries
  amounts, the constructor of an amount refuses with a violation), so they share a theory.
  The \<open>sealed\<close> field of Go's \<open>Violation\<close> only closes the type to other packages and
  is left out; a record of this type is closed already.
\<close>

section \<open>Amounts and violations as data\<close>

record Money =
  minorUnits :: int64
  currency :: string

definition Money_zero_value :: Money where
  "Money_zero_value = \<lparr>minorUnits = 0, currency = []\<rparr>"

datatype ViolationKind =
    Unbalanced
  | InsufficientFunds
  | UnknownAccount
  | AccountAlreadyExists
  | InvalidAmount
  | CurrencyMismatch
  | TenantAlreadyExists
  | TenantNotFound
  | TenantLinkAlreadyExists
  | TenantLinkNotFound
  | CounterpartyNotFound

fun kind_string :: "ViolationKind \<Rightarrow> string" where
  "kind_string Unbalanced = ''unbalanced''"
| "kind_string InsufficientFunds = ''insufficient_funds''"
| "kind_string UnknownAccount = ''account_not_found''"
| "kind_string AccountAlreadyExists = ''account_already_exists''"
| "kind_string InvalidAmount = ''invalid_amount''"
| "kind_string CurrencyMismatch = ''currency_mismatch''"
| "kind_string TenantAlreadyExists = ''tenant_already_exists''"
| "kind_string TenantNotFound = ''tenant_not_found''"
| "kind_string TenantLinkAlreadyExists = ''tenant_link_already_exists''"
| "kind_string TenantLinkNotFound = ''tenant_link_not_found''"
| "kind_string CounterpartyNotFound = ''counterparty_not_found''"

record Violation =
  v_kind :: ViolationKind
  v_account :: string
  v_available :: Money
  v_requested :: Money
  v_fromCurrency :: string
  v_toCurrency :: string
  v_tenant :: string

definition NewViolation :: "ViolationKind \<Rightarrow> Violation" where
  "NewViolation k =
     \<lparr>v_kind = k, v_account = [], v_available = Money_zero_value, v_requested = Money_zero_value,
      v_fromCurrency = [], v_toCurrency = [], v_tenant = []\<rparr>"

definition NewInsufficientFunds :: "string \<Rightarrow> Money \<Rightarrow> Money \<Rightarrow> Violation" where
  "NewInsufficientFunds account available requested =
     (NewViolation InsufficientFunds)
       \<lparr>v_account := account, v_available := available, v_requested := requested\<rparr>"

definition NewUnknownAccount :: "string \<Rightarrow> Violation" where
  "NewUnknownAccount account = (NewViolation UnknownAccount)\<lparr>v_account := account\<rparr>"

definition NewAccountAlreadyExists :: "string \<Rightarrow> Violation" where
  "NewAccountAlreadyExists account = (NewViolation AccountAlreadyExists)\<lparr>v_account := account\<rparr>"

definition NewCurrencyMismatch :: "string \<Rightarrow> string \<Rightarrow> Violation" where
  "NewCurrencyMismatch from_c to_c =
     (NewViolation CurrencyMismatch)\<lparr>v_fromCurrency := from_c, v_toCurrency := to_c\<rparr>"

definition NewTenantAlreadyExists :: "string \<Rightarrow> Violation" where
  "NewTenantAlreadyExists name = (NewViolation TenantAlreadyExists)\<lparr>v_tenant := name\<rparr>"

definition NewTenantNotFound :: "string \<Rightarrow> Violation" where
  "NewTenantNotFound tenantID = (NewViolation TenantNotFound)\<lparr>v_tenant := tenantID\<rparr>"

definition NewTenantLinkAlreadyExists :: Violation where
  "NewTenantLinkAlreadyExists = NewViolation TenantLinkAlreadyExists"

definition NewTenantLinkNotFound :: Violation where
  "NewTenantLinkNotFound = NewViolation TenantLinkNotFound"

definition NewCounterpartyNotFound :: Violation where
  "NewCounterpartyNotFound = NewViolation CounterpartyNotFound"

lemmas violation_defs =
  NewViolation_def NewInsufficientFunds_def NewUnknownAccount_def NewAccountAlreadyExists_def
  NewCurrencyMismatch_def NewTenantAlreadyExists_def NewTenantNotFound_def
  NewTenantLinkAlreadyExists_def NewTenantLinkNotFound_def NewCounterpartyNotFound_def

lemma violation_kinds [simp]:
  "v_kind (NewViolation k) = k"
  "v_kind (NewInsufficientFunds a x y) = InsufficientFunds"
  "v_kind (NewUnknownAccount a) = UnknownAccount"
  "v_kind (NewAccountAlreadyExists a) = AccountAlreadyExists"
  "v_kind (NewCurrencyMismatch c d) = CurrencyMismatch"
  "v_kind (NewTenantAlreadyExists n) = TenantAlreadyExists"
  "v_kind (NewTenantNotFound n) = TenantNotFound"
  "v_kind NewTenantLinkAlreadyExists = TenantLinkAlreadyExists"
  "v_kind NewTenantLinkNotFound = TenantLinkNotFound"
  "v_kind NewCounterpartyNotFound = CounterpartyNotFound"
  by (simp_all add: violation_defs)

text \<open>\<open>Violation.Error\<close>: the text of a refusal.\<close>

definition Violation_Error :: "Violation \<Rightarrow> string" where
  "Violation_Error v = (case v_kind v of
      Unbalanced \<Rightarrow> ''unbalanced: entries do not sum to zero''
    | InsufficientFunds \<Rightarrow>
        ''insufficient funds: account '' @ v_account v @ '' has '' @ fmt_d (minorUnits (v_available v))
        @ '' available, '' @ fmt_d (minorUnits (v_requested v)) @ '' requested''
    | UnknownAccount \<Rightarrow> ''account not found: '' @ v_account v
    | AccountAlreadyExists \<Rightarrow> ''account already exists: '' @ v_account v
    | InvalidAmount \<Rightarrow> ''invalid amount''
    | CurrencyMismatch \<Rightarrow> ''currency mismatch: '' @ v_fromCurrency v @ '' vs '' @ v_toCurrency v
    | TenantAlreadyExists \<Rightarrow> ''tenant already exists: '' @ v_tenant v
    | TenantNotFound \<Rightarrow> ''tenant not found: '' @ v_tenant v
    | TenantLinkAlreadyExists \<Rightarrow> ''tenant link already exists''
    | TenantLinkNotFound \<Rightarrow> ''tenant link not found''
    | CounterpartyNotFound \<Rightarrow> ''counterparty not found'')"

section \<open>Operations on amounts\<close>

definition currencyScales :: "string \<Rightarrow> nat option" where
  "currencyScales = map_of [(''USD'', 2), (''EUR'', 2), (''GBP'', 2), (''JPY'', 0)]"

definition NewMoney :: "int64 \<Rightarrow> string \<Rightarrow> Violation + Money" where
  "NewMoney minor cur =
     (case currencyScales cur of
        None \<Rightarrow> Inl (NewViolation InvalidAmount)
      | Some _ \<Rightarrow> Inr \<lparr>minorUnits = minor, currency = cur\<rparr>)"

definition Money_Add :: "Money \<Rightarrow> Money \<Rightarrow> Violation + Money" where
  "Money_Add m other =
     (if currency m \<noteq> currency other
      then Inl (NewCurrencyMismatch (currency m) (currency other))
      else Inr \<lparr>minorUnits = minorUnits m + minorUnits other, currency = currency m\<rparr>)"

definition Money_Negate :: "Money \<Rightarrow> Money" where
  "Money_Negate m = \<lparr>minorUnits = - minorUnits m, currency = currency m\<rparr>"

definition Money_IsPositive :: "Money \<Rightarrow> bool" where
  "Money_IsPositive m \<longleftrightarrow> 0 < sint (minorUnits m)"

definition known_currency :: "string \<Rightarrow> bool" where
  "known_currency c \<longleftrightarrow> currencyScales c \<noteq> None"

lemma known_currency_USD [simp]: "known_currency ''USD''"
  by (simp add: known_currency_def currencyScales_def)

lemma NewMoney_eq [ledger_simps]:
  "NewMoney m c = (if known_currency c then Inr \<lparr>minorUnits = m, currency = c\<rparr>
                   else Inl (NewViolation InvalidAmount))"
  by (auto simp: NewMoney_def known_currency_def split: option.splits)

lemma Money_Negate_sel [simp]:
  "minorUnits (Money_Negate m) = - minorUnits m" "currency (Money_Negate m) = currency m"
  by (simp_all add: Money_Negate_def)

lemma Money_Negate_Negate [simp]: "Money_Negate (Money_Negate m) = m"
  by (simp add: Money_Negate_def)

lemma Money_Add_Inr_iff:
  "Money_Add m n = Inr r \<longleftrightarrow>
     currency m = currency n \<and> r = \<lparr>minorUnits = minorUnits m + minorUnits n, currency = currency m\<rparr>"
  by (auto simp: Money_Add_def)

end
