(* ===== verification/Account.thy ===== *)
theory Account
  imports Money
begin

text \<open>
  \<open>internal/domain/account.go\<close> and \<open>internal/domain/tenant.go\<close>: the immutable account
  snapshot with the wallet floor, and the tenant that owns it. \<open>AccountKind\<close> is a Go
  string type with two values; the store's CHECK constraint and \<open>parseAccountKind\<close> admit
  no third, so it is a datatype here.
\<close>

datatype AccountKind = Wallet | System

record Account =
  acct_id :: string
  acct_kind :: AccountKind
  acct_balance :: Money
  acct_tenantID :: string

definition NewAccount :: "string \<Rightarrow> string \<Rightarrow> AccountKind \<Rightarrow> Money \<Rightarrow> Violation + Account" where
  "NewAccount tenantID aid kind balance =
     (if tenantID = [] then Inl (NewTenantNotFound tenantID)
      else if kind = Wallet \<and> sint (minorUnits balance) < 0
      then Inl (NewInsufficientFunds aid
                 (case NewMoney 0 (currency balance) of Inl _ \<Rightarrow> Money_zero_value | Inr z \<Rightarrow> z)
                 (Money_Negate balance))
      else Inr \<lparr>acct_id = aid, acct_kind = kind, acct_balance = balance, acct_tenantID = tenantID\<rparr>)"

definition Account_Apply :: "Account \<Rightarrow> Money \<Rightarrow> Violation + Account" where
  "Account_Apply a delta =
     (case Money_Add (acct_balance a) delta of
        Inl e \<Rightarrow> Inl e
      | Inr newBalance \<Rightarrow>
          if acct_kind a = Wallet \<and> sint (minorUnits newBalance) < 0
          then Inl (NewInsufficientFunds (acct_id a) (acct_balance a) (Money_Negate delta))
          else Inr \<lparr>acct_id = acct_id a, acct_kind = acct_kind a, acct_balance = newBalance,
                    acct_tenantID = acct_tenantID a\<rparr>)"

record Tenant =
  tenant_id :: string
  tenant_name :: string
  tenant_credential :: string

definition NewTenant :: "string \<Rightarrow> string \<Rightarrow> string \<Rightarrow> Violation + Tenant" where
  "NewTenant tid name cred = Inr \<lparr>tenant_id = tid, tenant_name = name, tenant_credential = cred\<rparr>"

text \<open>\<open>domain.ProvisionTenant\<close>; the use case of the same name is in theory Ledger.\<close>

definition domain_ProvisionTenant :: "string \<Rightarrow> string \<Rightarrow> string \<Rightarrow> bool \<Rightarrow> Violation + Tenant" where
  "domain_ProvisionTenant tid name cred nameAlreadyTaken =
     (if nameAlreadyTaken then Inl (NewTenantAlreadyExists name) else NewTenant tid name cred)"

section \<open>The wallet floor\<close>

text \<open>A value of type \<open>Account\<close> that the constructors can have produced.\<close>

definition Account_wf :: "Account \<Rightarrow> bool" where
  "Account_wf a \<longleftrightarrow> acct_tenantID a \<noteq> [] \<and>
     (acct_kind a = Wallet \<longrightarrow> 0 \<le> sint (minorUnits (acct_balance a)))"

lemma NewAccount_Inr_iff:
  "NewAccount t i k b = Inr a \<longleftrightarrow>
     a = \<lparr>acct_id = i, acct_kind = k, acct_balance = b, acct_tenantID = t\<rparr> \<and> Account_wf a"
  by (auto simp: NewAccount_def Account_wf_def)

lemma Account_Apply_Inr_iff:
  "Account_Apply a d = Inr b \<longleftrightarrow>
     currency (acct_balance a) = currency d \<and>
     b = a\<lparr>acct_balance := \<lparr>minorUnits = minorUnits (acct_balance a) + minorUnits d,
                            currency = currency (acct_balance a)\<rparr>\<rparr> \<and>
     (acct_kind a = Wallet \<longrightarrow> 0 \<le> sint (minorUnits (acct_balance a) + minorUnits d))"
  by (auto simp: Account_Apply_def Money_Add_def)

lemma Account_Apply_id: "Account_Apply a d = Inr b \<Longrightarrow> acct_id b = acct_id a"
  by (simp add: Account_Apply_Inr_iff)

lemma Account_Apply_wf:
  "Account_Apply a d = Inr b \<Longrightarrow> Account_wf a \<Longrightarrow> Account_wf b"
  by (auto simp: Account_Apply_Inr_iff Account_wf_def)

end
