(* ===== verification/Posting.thy ===== *)
theory Posting
  imports Account
begin

text \<open>
  \<open>internal/domain/post.go\<close>: the pure posting rulebook. \<open>Post\<close> decides one movement from
  locked snapshots; it keeps I1 (legs sum to zero), I4 (a wallet never goes negative) and
  I8 (no leg outside the caller's tenant). Also \<open>OpenAccount\<close> and the legality of an
  amount as written, \<open>NewMoneyFromDecimalLiteral\<close>.
\<close>

section \<open>Data\<close>

record TransferCommand =
  cmd_From :: string
  cmd_To :: string
  cmd_Amount :: Money
  cmd_TenantID :: string

record Transaction =
  txn_id :: string
  txn_recordedAt :: time

record Entry =
  e_transactionID :: string
  e_accountID :: string
  e_counterparty :: string
  e_amount :: Money
  e_recordedAt :: time
  e_sequence :: int64

record BalanceDelta =
  d_AccountID :: string
  d_Delta :: Money

record Posting =
  p_Transaction :: Transaction
  p_Entries :: "Entry list"
  p_Deltas :: "BalanceDelta list"

definition NewTransaction :: "string \<Rightarrow> time \<Rightarrow> Violation + Transaction" where
  "NewTransaction tid recordedAt = Inr \<lparr>txn_id = tid, txn_recordedAt = recordedAt\<rparr>"

definition NewEntry ::
  "string \<Rightarrow> string \<Rightarrow> string \<Rightarrow> Money \<Rightarrow> time \<Rightarrow> int64 \<Rightarrow> Violation + Entry" where
  "NewEntry tid aid counterparty amount recordedAt sequence =
     Inr \<lparr>e_transactionID = tid, e_accountID = aid, e_counterparty = counterparty,
          e_amount = amount, e_recordedAt = recordedAt, e_sequence = sequence\<rparr>"

section \<open>The rulebook\<close>

fun findAccount :: "Account list \<Rightarrow> string \<Rightarrow> Account option" where
  "findAccount [] aid = None"
| "findAccount (a # as) aid = (if acct_id a = aid then Some a else findAccount as aid)"

text \<open>The map from a currency to its running sum, as an association list: \<open>m[c] += x\<close>.\<close>

fun sums_add :: "string \<Rightarrow> int64 \<Rightarrow> (string \<times> int64) list \<Rightarrow> (string \<times> int64) list" where
  "sums_add c x [] = [(c, x)]"
| "sums_add c x ((d, s) # m) = (if d = c then (d, s + x) # m else (d, s) # sums_add c x m)"

definition sumsByCurrency :: "Entry list \<Rightarrow> (string \<times> int64) list" where
  "sumsByCurrency entries =
     foldl (\<lambda>m e. sums_add (currency (e_amount e)) (minorUnits (e_amount e)) m) [] entries"

definition EntriesSumToZero :: "Entry list \<Rightarrow> bool" where
  "EntriesSumToZero entries = list_all (\<lambda>(c, s). s = 0) (sumsByCurrency entries)"

definition Post :: "TransferCommand \<Rightarrow> Account list \<Rightarrow> time \<Rightarrow> string \<Rightarrow> Violation + Posting" where
  "Post cmd snapshots now transactionID =
     (if \<not> Money_IsPositive (cmd_Amount cmd) then Inl (NewViolation InvalidAmount)
      else case findAccount snapshots (cmd_From cmd) of
        None \<Rightarrow> Inl (NewUnknownAccount (cmd_From cmd))
      | Some fromAccount \<Rightarrow>
      (case findAccount snapshots (cmd_To cmd) of
        None \<Rightarrow> Inl (NewUnknownAccount (cmd_To cmd))
      | Some toAccount \<Rightarrow>
      if acct_tenantID fromAccount \<noteq> cmd_TenantID cmd then Inl (NewUnknownAccount (cmd_From cmd))
      else if acct_tenantID toAccount \<noteq> cmd_TenantID cmd then Inl (NewUnknownAccount (cmd_To cmd))
      else
        let fromDelta = Money_Negate (cmd_Amount cmd);
            toDelta = cmd_Amount cmd
        in case Account_Apply fromAccount fromDelta of
          Inl e \<Rightarrow> Inl e
        | Inr updatedFrom \<Rightarrow>
        (case Account_Apply toAccount toDelta of
          Inl e \<Rightarrow> Inl e
        | Inr updatedTo \<Rightarrow>
        (case NewEntry transactionID (acct_id fromAccount) (acct_id toAccount) fromDelta now 0 of
          Inl e \<Rightarrow> Inl e
        | Inr fromEntry \<Rightarrow>
        (case NewEntry transactionID (acct_id toAccount) (acct_id fromAccount) toDelta now 1 of
          Inl e \<Rightarrow> Inl e
        | Inr toEntry \<Rightarrow>
        if \<not> EntriesSumToZero [fromEntry, toEntry] then Inl (NewViolation Unbalanced)
        else (case NewTransaction transactionID now of
          Inl e \<Rightarrow> Inl e
        | Inr transaction \<Rightarrow>
            Inr \<lparr>p_Transaction = transaction,
                 p_Entries = [fromEntry, toEntry],
                 p_Deltas = [\<lparr>d_AccountID = acct_id updatedFrom, d_Delta = fromDelta\<rparr>,
                             \<lparr>d_AccountID = acct_id updatedTo, d_Delta = toDelta\<rparr>]\<rparr>))))))"

definition OpenAccount ::
  "string \<Rightarrow> string \<Rightarrow> AccountKind \<Rightarrow> Money \<Rightarrow> bool \<Rightarrow> Violation + Account" where
  "OpenAccount tenantID aid kind zero alreadyOpen =
     (if alreadyOpen then Inl (NewAccountAlreadyExists aid)
      else NewAccount tenantID aid kind zero)"

text \<open>
  \<open>(*big.Int).SetString(s, 10)\<close>: an optional sign and at least one digit, nothing else.
\<close>

definition big_set_string :: "string \<Rightarrow> int option" where
  "big_set_string s =
     (let neg = (s \<noteq> [] \<and> hd s = CHR ''-'');
          body = (if s \<noteq> [] \<and> (hd s = CHR ''-'' \<or> hd s = CHR ''+'') then tl s else s)
      in if body \<noteq> [] \<and> list_all is_digit body
         then Some (if neg then - int (dec_value body) else int (dec_value body))
         else None)"

definition NewMoneyFromDecimalLiteral ::
  "bool \<Rightarrow> string \<Rightarrow> string \<Rightarrow> string \<Rightarrow> Violation + Money" where
  "NewMoneyFromDecimalLiteral negative wholeDigits fracDigits cur =
     (case currencyScales cur of
        None \<Rightarrow> Inl (NewViolation InvalidAmount)
      | Some scale \<Rightarrow>
          if length fracDigits > scale then Inl (NewViolation InvalidAmount)
          else
            let padded = fracDigits @ replicate (scale - length fracDigits) (CHR ''0'');
                combined = wholeDigits @ padded
            in case big_set_string combined of
                 None \<Rightarrow> Inl (NewViolation InvalidAmount)
               | Some magnitude \<Rightarrow>
                   let m = (if negative then - magnitude else magnitude)
                   in if \<not> in_int64 m then Inl (NewViolation InvalidAmount)
                      else Inr \<lparr>minorUnits = word_of_int m, currency = cur\<rparr>)"

section \<open>Lemmas\<close>

lemma findAccount_eq: "findAccount as i = List.find (\<lambda>a. acct_id a = i) as"
  by (induction as) auto

lemma findAccount_Some: "findAccount as i = Some a \<Longrightarrow> a \<in> set as \<and> acct_id a = i"
  by (auto simp: findAccount_eq dest: find_Some_memD)

text \<open>What \<open>sumsByCurrency\<close> computes: one wrapped sum per currency that occurs.\<close>

definition entry_sum :: "string \<Rightarrow> Entry list \<Rightarrow> int64" where
  "entry_sum c entries = sum_list (map (\<lambda>e. minorUnits (e_amount e))
     (filter (\<lambda>e. currency (e_amount e) = c) entries))"

lemma sums_add_keys:
  "set (map fst (sums_add c x m)) = insert c (set (map fst m))"
  by (induction c x m rule: sums_add.induct) auto

lemma sums_add_distinct:
  "distinct (map fst m) \<Longrightarrow> distinct (map fst (sums_add c x m))"
proof (induction c x m rule: sums_add.induct)
  case (2 c x d s m)
  have "set (map fst (sums_add c x m)) = insert c (set (map fst m))" by (rule sums_add_keys)
  with 2 show ?case by (cases "d = c") simp_all
qed simp

lemma sums_add_map_of:
  "map_of (sums_add c x m) d =
     (if d = c then Some (case map_of m c of None \<Rightarrow> x | Some s \<Rightarrow> s + x) else map_of m d)"
  by (induction c x m rule: sums_add.induct) auto

lemma sumsByCurrency_snoc:
  "sumsByCurrency (es @ [e]) =
     sums_add (currency (e_amount e)) (minorUnits (e_amount e)) (sumsByCurrency es)"
  by (simp add: sumsByCurrency_def)

lemma entry_sum_absent:
  "c \<notin> (\<lambda>e. currency (e_amount e)) ` set es \<Longrightarrow> entry_sum c es = 0"
proof -
  assume "c \<notin> (\<lambda>e. currency (e_amount e)) ` set es"
  then have "filter (\<lambda>e. currency (e_amount e) = c) es = []" by (auto simp: filter_empty_conv)
  then show ?thesis by (simp add: entry_sum_def)
qed

lemma entry_sum_snoc:
  "entry_sum c (es @ [e]) =
     (if currency (e_amount e) = c then entry_sum c es + minorUnits (e_amount e) else entry_sum c es)"
  by (simp add: entry_sum_def)

lemma sumsByCurrency_distinct: "distinct (map fst (sumsByCurrency es))"
proof (induction es rule: rev_induct)
  case Nil
  show ?case by (simp add: sumsByCurrency_def)
qed (simp only: sumsByCurrency_snoc sums_add_distinct)

lemma sumsByCurrency_map_of:
  "map_of (sumsByCurrency es) c =
     (if c \<in> (\<lambda>e. currency (e_amount e)) ` set es then Some (entry_sum c es) else None)"
proof (induction es arbitrary: c rule: rev_induct)
  case Nil
  show ?case by (simp add: sumsByCurrency_def)
next
  case (snoc e es)
  then show ?case
    by (simp add: sumsByCurrency_snoc sums_add_map_of entry_sum_snoc entry_sum_absent)
qed

lemma EntriesSumToZero_iff: "EntriesSumToZero es \<longleftrightarrow> (\<forall>c. entry_sum c es = 0)"
proof -
  let ?m = "sumsByCurrency es"
  have d: "distinct (map fst ?m)" by (rule sumsByCurrency_distinct)
  have "EntriesSumToZero es \<longleftrightarrow> (\<forall>c s. map_of ?m c = Some s \<longrightarrow> s = 0)"
    using map_of_eq_Some_iff [OF d] by (auto simp: EntriesSumToZero_def list_all_iff)
  also have "\<dots> \<longleftrightarrow> (\<forall>c. entry_sum c es = 0)"
    by (metis (no_types, lifting) entry_sum_absent option.distinct(1) option.inject sumsByCurrency_map_of)
  finally show ?thesis .
qed

lemma Post_legs_balanced:
  "EntriesSumToZero [\<lparr>e_transactionID = t, e_accountID = a, e_counterparty = b,
      e_amount = Money_Negate m, e_recordedAt = n, e_sequence = i\<rparr>,
    \<lparr>e_transactionID = t', e_accountID = a', e_counterparty = b',
      e_amount = m, e_recordedAt = n', e_sequence = j\<rparr>]"
  by (simp add: EntriesSumToZero_iff entry_sum_def)

text \<open>The rulebook on every branch: which answer for which input.\<close>

lemma Post_eq:
  "Post cmd snapshots now tid =
     (if \<not> 0 < sint (minorUnits (cmd_Amount cmd)) then Inl (NewViolation InvalidAmount)
      else case findAccount snapshots (cmd_From cmd) of
        None \<Rightarrow> Inl (NewUnknownAccount (cmd_From cmd))
      | Some f \<Rightarrow> (case findAccount snapshots (cmd_To cmd) of
        None \<Rightarrow> Inl (NewUnknownAccount (cmd_To cmd))
      | Some g \<Rightarrow>
        if acct_tenantID f \<noteq> cmd_TenantID cmd then Inl (NewUnknownAccount (cmd_From cmd))
        else if acct_tenantID g \<noteq> cmd_TenantID cmd then Inl (NewUnknownAccount (cmd_To cmd))
        else case Account_Apply f (Money_Negate (cmd_Amount cmd)) of
          Inl e \<Rightarrow> Inl e
        | Inr _ \<Rightarrow> (case Account_Apply g (cmd_Amount cmd) of
          Inl e \<Rightarrow> Inl e
        | Inr _ \<Rightarrow> Inr
           \<lparr>p_Transaction = \<lparr>txn_id = tid, txn_recordedAt = now\<rparr>,
            p_Entries = [\<lparr>e_transactionID = tid, e_accountID = cmd_From cmd, e_counterparty = cmd_To cmd,
                e_amount = Money_Negate (cmd_Amount cmd), e_recordedAt = now, e_sequence = 0\<rparr>,
              \<lparr>e_transactionID = tid, e_accountID = cmd_To cmd, e_counterparty = cmd_From cmd,
                e_amount = cmd_Amount cmd, e_recordedAt = now, e_sequence = 1\<rparr>],
            p_Deltas = [\<lparr>d_AccountID = cmd_From cmd, d_Delta = Money_Negate (cmd_Amount cmd)\<rparr>,
              \<lparr>d_AccountID = cmd_To cmd, d_Delta = cmd_Amount cmd\<rparr>]\<rparr>)))"
  by (auto simp: Post_def Money_IsPositive_def NewEntry_def NewTransaction_def Post_legs_balanced
      Let_def split: option.splits sum.splits dest!: findAccount_Some Account_Apply_id)

end
