(* ===== verification/TenantLink.thy ===== *)
theory TenantLink
  imports Money
begin

text \<open>
  \<open>internal/domain/tenant_link.go\<close> and \<open>internal/domain/counterparty_alias.go\<close>: the standing
  authorization between two tenants and the tenant-scoped alias that rests on it. Go
  compares strings by bytes, which is \<open>List_Lexorder\<close> on characters here.
\<close>

datatype TenantLinkStatus = TenantLinkActive | TenantLinkRevoked

record TenantLink =
  link_id :: string
  link_tenantA :: string
  link_tenantB :: string
  link_status :: TenantLinkStatus

definition canonicalizePair :: "string \<Rightarrow> string \<Rightarrow> string \<times> string" where
  "canonicalizePair tenantA tenantB =
     (if tenantA > tenantB then (tenantB, tenantA) else (tenantA, tenantB))"

fun active_link_exists :: "TenantLink list \<Rightarrow> string \<Rightarrow> string \<Rightarrow> bool" where
  "active_link_exists [] a b = False"
| "active_link_exists (l # ls) a b =
     (if link_status l = TenantLinkActive \<and> link_tenantA l = a \<and> link_tenantB l = b then True
      else active_link_exists ls a b)"

definition domain_AuthorizeTenantPair ::
  "string \<Rightarrow> string \<Rightarrow> string \<Rightarrow> TenantLink list \<Rightarrow> (string \<Rightarrow> bool) \<Rightarrow> Violation + TenantLink" where
  "domain_AuthorizeTenantPair lid tenantA tenantB existingLinks knownTenants =
     (case canonicalizePair tenantA tenantB of (ca, cb) \<Rightarrow>
        if \<not> knownTenants ca then Inl (NewTenantNotFound ca)
        else if \<not> knownTenants cb then Inl (NewTenantNotFound cb)
        else if active_link_exists existingLinks ca cb then Inl NewTenantLinkAlreadyExists
        else Inr \<lparr>link_id = lid, link_tenantA = ca, link_tenantB = cb,
                  link_status = TenantLinkActive\<rparr>)"

fun domain_RevokeTenantLink :: "string \<Rightarrow> TenantLink list \<Rightarrow> Violation + TenantLink" where
  "domain_RevokeTenantLink lid [] = Inl NewTenantLinkNotFound"
| "domain_RevokeTenantLink lid (l # ls) =
     (if link_id l = lid
      then Inr \<lparr>link_id = link_id l, link_tenantA = link_tenantA l, link_tenantB = link_tenantB l,
                link_status = TenantLinkRevoked\<rparr>
      else domain_RevokeTenantLink lid ls)"

record CounterpartyAlias =
  ca_tenantID :: string
  ca_alias :: string
  ca_tenantLinkID :: string
  ca_targetTenantID :: string
  ca_targetAccountID :: string

definition domain_RegisterCounterpartyAlias ::
  "string \<Rightarrow> string \<Rightarrow> TenantLink \<Rightarrow> bool \<Rightarrow> string \<Rightarrow> string \<Rightarrow> Violation + CounterpartyAlias" where
  "domain_RegisterCounterpartyAlias tenantID alias snapshot found targetTenantID targetAccountID =
     (if \<not> found \<or> link_status snapshot \<noteq> TenantLinkActive then Inl NewTenantLinkNotFound
      else Inr \<lparr>ca_tenantID = tenantID, ca_alias = alias, ca_tenantLinkID = link_id snapshot,
                ca_targetTenantID = targetTenantID, ca_targetAccountID = targetAccountID\<rparr>)"

definition ResolveCounterparty ::
  "string \<Rightarrow> string \<Rightarrow> CounterpartyAlias \<Rightarrow> bool \<Rightarrow> TenantLink \<Rightarrow> bool \<Rightarrow>
   Violation + (string \<times> string)" where
  "ResolveCounterparty tenantID alias aliasSnapshot aliasFound linkSnapshot linkFound =
     (if \<not> aliasFound \<or> ca_tenantID aliasSnapshot \<noteq> tenantID \<or> ca_alias aliasSnapshot \<noteq> alias
      then Inl NewCounterpartyNotFound
      else if \<not> linkFound \<or> link_status linkSnapshot \<noteq> TenantLinkActive
      then Inl NewCounterpartyNotFound
      else Inr (ca_targetTenantID aliasSnapshot, ca_targetAccountID aliasSnapshot))"

section \<open>Canonical pairs\<close>

lemma canonicalizePair_commute: "canonicalizePair b a = canonicalizePair a b"
  by (auto simp: canonicalizePair_def)

lemma canonicalizePair_cases:
  "canonicalizePair a b = (a, b) \<and> a \<le> b \<or> canonicalizePair a b = (b, a) \<and> b < a"
  by (auto simp: canonicalizePair_def)

lemma active_link_exists_iff:
  "active_link_exists ls a b \<longleftrightarrow>
     (\<exists>l \<in> set ls. link_status l = TenantLinkActive \<and> link_tenantA l = a \<and> link_tenantB l = b)"
  by (induction ls) auto

lemma domain_AuthorizeTenantPair_Inr:
  assumes "domain_AuthorizeTenantPair lid a b ls known = Inr l"
  shows "link_tenantA l \<le> link_tenantB l" and "{link_tenantA l, link_tenantB l} = {a, b}"
    and "link_id l = lid" and "link_status l = TenantLinkActive"
    and "known (link_tenantA l)" and "known (link_tenantB l)"
    and "\<not> active_link_exists ls (link_tenantA l) (link_tenantB l)"
  using assms canonicalizePair_cases [of a b]
  by (auto simp: domain_AuthorizeTenantPair_def split: if_splits prod.splits)

lemma domain_RevokeTenantLink_eq:
  "domain_RevokeTenantLink lid ls =
     (case List.find (\<lambda>l. link_id l = lid) ls of
        None \<Rightarrow> Inl NewTenantLinkNotFound
      | Some l \<Rightarrow> Inr (l\<lparr>link_status := TenantLinkRevoked\<rparr>))"
  by (induction ls) auto

end
