(* ===== verification/Ports.thy ===== *)
theory Ports
  imports Posting TenantLink
begin

text \<open>
  \<open>internal/app/ports/ports.go\<close>: the values that cross the boundary between the
  application shell and the store, and the errors it can answer with.

  A Go \<open>error\<close> is classified by \<open>errors.As\<close>/\<open>errors.Is\<close> only, and every wrap in the source
  uses the \<open>%w\<close> verb, which both see through. So wrapping is the identity here, and the
  message text of a non-domain error is not modelled (the argument of \<open>ErrInfra\<close> only
  says which check failed).
\<close>

datatype go_error =
    ErrViolation Violation
  | ErrIdempotencyKeyConflict
  | ErrIdempotencyKeyClaimConflict
  | ErrTransferNotFound
  | ErrSimulatedTransientFault
  | ErrInfra string

section \<open>Scopes, keys and rows that cross the port\<close>

record TenantScope =
  scope_tenantID :: string
  scope_scoped :: bool

definition ScopedToTenant :: "string \<Rightarrow> TenantScope" where
  "ScopedToTenant tenantID = \<lparr>scope_tenantID = tenantID, scope_scoped = True\<rparr>"

definition Unscoped :: TenantScope where
  "Unscoped = \<lparr>scope_tenantID = [], scope_scoped = False\<rparr>"

definition Resolve :: "TenantScope \<Rightarrow> string \<times> bool" where
  "Resolve s = (scope_tenantID s, scope_scoped s)"

type_synonym AccountKey = "string \<times> string"

record TenantEntry =
  te_TenantID :: string
  te_Entry :: Entry

record Claim =
  claim_Key :: string
  claim_Fingerprint :: string
  claim_TransactionID :: string

record TransferState =
  ts_TransferID :: string
  ts_TenantID :: string
  ts_IdempotencyKey :: string
  ts_Status :: string
  ts_Leg1Status :: string
  ts_Leg2Status :: string
  ts_Leg3Status :: string
  ts_Leg1Attempts :: int
  ts_Leg2Attempts :: int
  ts_Leg3Attempts :: int
  ts_NextAttemptAt :: time
  ts_Reason :: string
  ts_CounterpartyTenantID :: string
  ts_TargetAccountID :: string
  ts_Amount :: Money

text \<open>Whether a row of a tenant is inside a scope.\<close>

definition in_scope :: "TenantScope \<Rightarrow> string \<Rightarrow> bool" where
  "in_scope s t \<longleftrightarrow> (case Resolve s of (tenantID, scoped) \<Rightarrow> scoped \<longrightarrow> t = tenantID)"

lemma in_scope_simps [simp]:
  "in_scope (ScopedToTenant a) t \<longleftrightarrow> t = a"
  "in_scope Unscoped t"
  by (auto simp: in_scope_def Resolve_def ScopedToTenant_def Unscoped_def)

lemma Resolve_simps [simp]:
  "Resolve (ScopedToTenant a) = (a, True)"
  "Resolve Unscoped = ([], False)"
  by (auto simp: Resolve_def ScopedToTenant_def Unscoped_def)

end
