(* ===== verification/Database.thy ===== *)
theory Database
  imports Ports "HOL-Library.Product_Lexorder"
begin

text \<open>
  The store as the migrations under \<open>internal/adapters/postgres/migrations\<close> leave it: one
  list of rows per table, with the primary keys, unique indexes and foreign keys that an
  INSERT is checked against, and the unit of work of \<open>store.go\<close> over it.

  The columns \<open>created_at\<close> are written by a default and never read; they are left out. The
  order of a list stands for the order a scan of the table without ORDER BY returns its
  rows in.

  The \<open>world\<close> is what one process sees: the committed database, the view of the unit of
  work that is open (its own uncommitted writes included), the two function-typed ports
  \<open>Clock\<close> and \<open>IDGenerator\<close> as streams of answers, and what the code cannot control:
  \<^item> \<open>w_faults\<close>: whether the n-th statement fails, or the n-th commit takes effect while
    its acknowledgement is lost;
  \<^item> \<open>w_env\<close>: what other sessions commit at the n-th point where they can (\<open>turn\<close>);
  \<^item> \<open>w_collate\<close>: PostgreSQL's collation, the sort key that ORDER BY on text compares;
  \<^item> \<open>w_sha256hex\<close>: the hex digest \<open>support.SHA256Hex\<close> computes.
\<close>

section \<open>Tables\<close>

record account_row =
  ar_tenant :: string
  ar_id :: string
  ar_kind :: AccountKind
  ar_balance :: int64
  ar_currency :: string

record transaction_row =
  tr_tenant :: string
  tr_id :: string
  tr_recorded_at :: time

record entry_row =
  er_tenant :: string
  er_transaction :: string
  er_account :: string
  er_counterparty :: string
  er_amount :: int64
  er_currency :: string
  er_recorded_at :: time
  er_sequence :: int64

record key_row =
  kr_key :: string
  kr_fingerprint :: string
  kr_transaction :: string

record tenant_row =
  tn_id :: string
  tn_name :: string
  tn_hash :: string

record link_row =
  lr_id :: string
  lr_a :: string
  lr_b :: string
  lr_status :: TenantLinkStatus

record alias_row =
  al_tenant :: string
  al_alias :: string
  al_link :: string
  al_target_tenant :: string
  al_target_account :: string

text \<open>The nullable columns of \<open>transfer_state\<close> are options.\<close>

record transfer_row =
  xr_id :: string
  xr_tenant :: string
  xr_key :: string
  xr_status :: string
  xr_leg1 :: string
  xr_leg2 :: string
  xr_leg3 :: string
  xr_attempts1 :: int
  xr_attempts2 :: int
  xr_attempts3 :: int
  xr_next :: time
  xr_reason :: "string option"
  xr_counterparty :: "string option"
  xr_target :: "string option"
  xr_amount :: int64
  xr_currency :: "string option"

record db =
  accounts :: "account_row list"
  transactions :: "transaction_row list"
  entries :: "entry_row list"
  idempotency_keys :: "key_row list"
  tenants :: "tenant_row list"
  tenant_links :: "link_row list"
  counterparty_aliases :: "alias_row list"
  transfer_states :: "transfer_row list"

text \<open>What the migrations themselves insert (0003 and 0004).\<close>

definition migrated_db :: db where
  "migrated_db = \<lparr>accounts = [], transactions = [], entries = [], idempotency_keys = [],
     tenants = [\<lparr>tn_id = ''tnt_legacy_seed'', tn_name = ''Legacy Seed Tenant'',
                  tn_hash = ''tnt_legacy_seed-placeholder-credential-hash''\<rparr>,
                \<lparr>tn_id = ''tnt_platform'', tn_name = ''Platform Settlement Tenant'',
                  tn_hash = ''tnt_platform-placeholder-credential-hash''\<rparr>],
     tenant_links = [], counterparty_aliases = [], transfer_states = []\<rparr>"

definition account_key :: "account_row \<Rightarrow> AccountKey" where
  "account_key r = (ar_tenant r, ar_id r)"

definition alias_key :: "alias_row \<Rightarrow> string \<times> string" where
  "alias_key r = (al_tenant r, al_alias r)"

text \<open>A row read by its primary key.\<close>

definition db_account :: "db \<Rightarrow> string \<Rightarrow> string \<Rightarrow> account_row option" where
  "db_account d t i = List.find (\<lambda>r. account_key r = (t, i)) (accounts d)"

definition db_key :: "db \<Rightarrow> string \<Rightarrow> key_row option" where
  "db_key d k = List.find (\<lambda>r. kr_key r = k) (idempotency_keys d)"

definition db_tenant :: "db \<Rightarrow> string \<Rightarrow> tenant_row option" where
  "db_tenant d t = List.find (\<lambda>r. tn_id r = t) (tenants d)"

definition db_link :: "db \<Rightarrow> string \<Rightarrow> link_row option" where
  "db_link d l = List.find (\<lambda>r. lr_id r = l) (tenant_links d)"

definition db_alias :: "db \<Rightarrow> string \<Rightarrow> string \<Rightarrow> alias_row option" where
  "db_alias d t a = List.find (\<lambda>r. alias_key r = (t, a)) (counterparty_aliases d)"

definition db_transfer :: "db \<Rightarrow> string \<Rightarrow> transfer_row option" where
  "db_transfer d x = List.find (\<lambda>r. xr_id r = x) (transfer_states d)"

section \<open>Lookups by a unique key\<close>

text \<open>
  What a client of a table relies on when it reads a row by its primary key: the lookup
  finds exactly the row with that key while keys are unique.
\<close>

locale keyed_table =
  fixes lookup :: "'r list \<Rightarrow> 'k \<Rightarrow> 'r option"
    and key :: "'r \<Rightarrow> 'k"
  assumes lookup_find: "lookup rows k = List.find (\<lambda>r. key r = k) rows"
begin

lemma lookup_None: "lookup rows k = None \<longleftrightarrow> k \<notin> key ` set rows"
  by (auto simp: lookup_find find_None_ball)

lemma lookup_SomeD: "lookup rows k = Some r \<Longrightarrow> r \<in> set rows \<and> key r = k"
  by (auto simp: lookup_find dest: find_Some_memD)

lemma lookup_Some_iff:
  assumes "distinct (map key rows)"
  shows "lookup rows k = Some r \<longleftrightarrow> r \<in> set rows \<and> key r = k"
proof
  assume r: "r \<in> set rows \<and> key r = k"
  then obtain s where s: "lookup rows k = Some s" using lookup_None by (cases "lookup rows k") auto
  with r assms have "s = r" using lookup_SomeD [OF s] by (auto simp: distinct_map inj_on_def)
  with s show "lookup rows k = Some r" by simp
qed (rule lookup_SomeD)

lemma lookup_insert:
  "lookup rows (key r) = None \<Longrightarrow>
     lookup (rows @ [r]) k = (if k = key r then Some r else lookup rows k)"
  by (auto simp: lookup_find find_append split: option.splits)

lemma lookup_append_keep: "lookup rows k = Some r \<Longrightarrow> lookup (rows @ xs) k = Some r"
  by (simp add: lookup_find find_append)

lemma insert_distinct:
  "distinct (map key rows) \<Longrightarrow> lookup rows (key r) = None \<Longrightarrow> distinct (map key (rows @ [r]))"
  by (auto simp: lookup_None)

lemma lookup_update:
  "(\<And>r. key (f r) = key r) \<Longrightarrow> lookup (map f rows) k = map_option f (lookup rows k)"
  by (simp add: lookup_find find_map_keep)

lemma update_distinct:
  "(\<And>r. key (f r) = key r) \<Longrightarrow> distinct (map key (map f rows)) \<longleftrightarrow> distinct (map key rows)"
  by (simp add: comp_def)

end

interpretation acct_tab: keyed_table "\<lambda>rows k. List.find (\<lambda>r. account_key r = k) rows" account_key
  by unfold_locales simp

interpretation key_tab: keyed_table "\<lambda>rows k. List.find (\<lambda>r. kr_key r = k) rows" kr_key
  by unfold_locales simp

interpretation tenant_tab: keyed_table "\<lambda>rows k. List.find (\<lambda>r. tn_id r = k) rows" tn_id
  by unfold_locales simp

interpretation link_tab: keyed_table "\<lambda>rows k. List.find (\<lambda>r. lr_id r = k) rows" lr_id
  by unfold_locales simp

interpretation alias_tab: keyed_table "\<lambda>rows k. List.find (\<lambda>r. alias_key r = k) rows" alias_key
  by unfold_locales simp

interpretation xfer_tab: keyed_table "\<lambda>rows k. List.find (\<lambda>r. xr_id r = k) rows" xr_id
  by unfold_locales simp

interpretation txn_tab: keyed_table "\<lambda>rows k. List.find (\<lambda>r. tr_id r = k) rows" tr_id
  by unfold_locales simp

lemmas db_lookup_defs = db_account_def db_key_def db_tenant_def db_link_def db_alias_def db_transfer_def

section \<open>The world and the unit of work\<close>

datatype fault = NoFault | Fails | ReplyLost

text \<open>What a \<open>SELECT ... FOR UPDATE\<close> holds until the unit of work ends.\<close>

datatype row_lock = AccountRow string string | TransferRow string

record world =
  w_committed :: db
  w_db :: db
  w_locks :: "row_lock list"
  w_dirty :: bool
  w_clock :: "nat \<Rightarrow> time"
  w_reads :: nat
  w_ids :: "nat \<Rightarrow> string"
  w_minted :: nat
  w_faults :: "nat \<Rightarrow> fault"
  w_ops :: nat
  w_env :: "nat \<Rightarrow> db \<Rightarrow> db"
  w_turns :: nat
  w_collate :: "string \<Rightarrow> string"
  w_sha256hex :: "string \<Rightarrow> string"

text \<open>A Go call over some state that answers a value or an error.\<close>

type_synonym ('a, 's) call = "'s \<Rightarrow> (go_error + 'a) \<times> 's"
type_synonym 'a uow = "('a, world) call"

definition ret :: "'a \<Rightarrow> ('a, 's) call" where
  "ret x w = (Inr x, w)"

definition throw :: "go_error \<Rightarrow> ('a, 's) call" where
  "throw e w = (Inl e, w)"

definition bindE :: "('a, 's) call \<Rightarrow> ('a \<Rightarrow> ('b, 's) call) \<Rightarrow> ('b, 's) call" where
  "bindE m f w = (case m w of (Inl e, w') \<Rightarrow> (Inl e, w') | (Inr x, w') \<Rightarrow> f x w')"

text \<open>Go's \<open>for ... range\<close> over a body that can return early with an error.\<close>

fun forE :: "'a list \<Rightarrow> ('a \<Rightarrow> unit uow) \<Rightarrow> unit uow" where
  "forE [] f = ret ()"
| "forE (x # xs) f = bindE (f x) (\<lambda>_. forE xs f)"

text \<open>A decision of the pure core inside a unit of work.\<close>

definition decide :: "(Violation + 'a) \<Rightarrow> ('a, 's) call" where
  "decide r = (case r of Inl v \<Rightarrow> throw (ErrViolation v) | Inr x \<Rightarrow> ret x)"

text \<open>
  Other sessions commit. \<open>pool.Begin\<close> opens a READ COMMITTED transaction, so every
  statement sees what has been committed until then; this happens before each statement of
  a unit of work that holds no row lock and has written nothing. Commits of others after that
  point cannot touch a locked row or a key this unit of work has inserted (they wait),
  so they are taken together with the turn before the first lock or write.
\<close>

definition turn :: "world \<Rightarrow> world" where
  "turn w =
     (if w_locks w = [] \<and> \<not> w_dirty w
      then (let d = w_env w (w_turns w) (w_committed w)
            in w\<lparr>w_committed := d, w_db := d, w_turns := Suc (w_turns w)\<rparr>)
      else w)"

text \<open>One SQL statement: it can fail before it does anything, or on what it finds.\<close>

definition statement :: "'a uow \<Rightarrow> 'a uow" where
  "statement m w =
     (let w' = (turn w)\<lparr>w_ops := Suc (w_ops w)\<rparr>
      in if w_faults w (w_ops w) \<noteq> NoFault then (Inl (ErrInfra ''statement''), w') else m w')"

definition query :: "(db \<Rightarrow> 'a) \<Rightarrow> 'a uow" where
  "query f = statement (\<lambda>w. (Inr (f (w_db w)), w))"

definition sorted_query :: "((string \<Rightarrow> string) \<Rightarrow> db \<Rightarrow> 'a) \<Rightarrow> 'a uow" where
  "sorted_query f w = query (f (w_collate w)) w"

definition select_for_update :: "row_lock \<Rightarrow> (db \<Rightarrow> 'r option) \<Rightarrow> 'r option uow" where
  "select_for_update k f = statement (\<lambda>w. case f (w_db w) of
       None \<Rightarrow> (Inr None, w)
     | Some r \<Rightarrow> (Inr (Some r), w\<lparr>w_locks := w_locks w @ [k]\<rparr>))"

definition command :: "(db \<Rightarrow> go_error + ('a \<times> db)) \<Rightarrow> 'a uow" where
  "command f = statement (\<lambda>w. case f (w_db w) of
       Inl e \<Rightarrow> (Inl e, w)
     | Inr (x, d) \<Rightarrow> (Inr x, w\<lparr>w_db := d, w_dirty := True\<rparr>))"

text \<open>A reading of the clock, a fresh identifier.\<close>

definition clock :: "time uow" where
  "clock w = (Inr (w_clock w (w_reads w)), w\<lparr>w_reads := Suc (w_reads w)\<rparr>)"

definition nextID :: "string uow" where
  "nextID w = (Inr (w_ids w (w_minted w)), w\<lparr>w_minted := Suc (w_minted w)\<rparr>)"

definition Begin :: "unit uow" where
  "Begin w =
     (let w' = w\<lparr>w_ops := Suc (w_ops w)\<rparr>
      in if w_faults w (w_ops w) \<noteq> NoFault then (Inl (ErrInfra ''begin''), w')
         else (Inr (), w'\<lparr>w_db := w_committed w, w_locks := [], w_dirty := False\<rparr>))"

definition Rollback :: "world \<Rightarrow> world" where
  "Rollback w = w\<lparr>w_db := w_committed w, w_locks := [], w_dirty := False\<rparr>"

definition Commit :: "unit uow" where
  "Commit w =
     (let w' = w\<lparr>w_ops := Suc (w_ops w)\<rparr>
      in case w_faults w (w_ops w) of
          NoFault \<Rightarrow> (Inr (), w'\<lparr>w_committed := w_db w, w_locks := [], w_dirty := False\<rparr>)
        | Fails \<Rightarrow> (Inl (ErrInfra ''commit''), w')
        | ReplyLost \<Rightarrow> (Inl (ErrInfra ''commit''), w'\<lparr>w_committed := w_db w\<rparr>))"

text \<open>
  \<open>withUnitOfWork\<close> (and \<open>inUnitOfWork\<close>, its instance at \<open>unit\<close>): the deferred rollback runs
  on every path that has not committed.
\<close>

definition withUnitOfWork :: "'a uow \<Rightarrow> 'a uow" where
  "withUnitOfWork fn = bindE Begin (\<lambda>_ w.
     case fn w of
       (Inl e, w') \<Rightarrow> (Inl e, Rollback w')
     | (Inr x, w') \<Rightarrow>
         (case Commit w' of
            (Inl e, w'') \<Rightarrow> (Inl e, Rollback w'')
          | (Inr _, w'') \<Rightarrow> (Inr x, w'')))"

section \<open>Constraint checks\<close>

definition tenant_exists :: "db \<Rightarrow> string \<Rightarrow> bool" where
  "tenant_exists d t \<longleftrightarrow> db_tenant d t \<noteq> None"

definition account_exists :: "db \<Rightarrow> string \<Rightarrow> string \<Rightarrow> bool" where
  "account_exists d t i \<longleftrightarrow> db_account d t i \<noteq> None"

definition transaction_exists :: "db \<Rightarrow> string \<Rightarrow> bool" where
  "transaction_exists d x \<longleftrightarrow> x \<in> tr_id ` set (transactions d)"

definition violates :: "string \<Rightarrow> go_error + 'a" where
  "violates what = Inl (ErrInfra what)"

definition insert_account :: "account_row \<Rightarrow> db \<Rightarrow> go_error + (unit \<times> db)" where
  "insert_account r d =
     (if account_exists d (ar_tenant r) (ar_id r) then violates ''accounts_pkey''
      else if \<not> tenant_exists d (ar_tenant r) then violates ''accounts_tenant_id_fkey''
      else Inr ((), d\<lparr>accounts := accounts d @ [r]\<rparr>))"

definition insert_transaction :: "transaction_row \<Rightarrow> db \<Rightarrow> go_error + (unit \<times> db)" where
  "insert_transaction r d =
     (if transaction_exists d (tr_id r) then violates ''transactions_pkey''
      else if \<not> tenant_exists d (tr_tenant r) then violates ''transactions_tenant_id_fkey''
      else Inr ((), d\<lparr>transactions := transactions d @ [r]\<rparr>))"

definition insert_entry :: "entry_row \<Rightarrow> db \<Rightarrow> go_error + (unit \<times> db)" where
  "insert_entry r d =
     (if \<exists>e \<in> set (entries d). er_transaction e = er_transaction r \<and> er_sequence e = er_sequence r
      then violates ''entries_pkey''
      else if \<not> transaction_exists d (er_transaction r) then violates ''entries_transaction_id_fkey''
      else if \<not> account_exists d (er_tenant r) (er_account r) then violates ''entries_account_id_fkey''
      else if \<not> account_exists d (er_tenant r) (er_counterparty r)
      then violates ''entries_counterparty_id_fkey''
      else if \<not> tenant_exists d (er_tenant r) then violates ''entries_tenant_id_fkey''
      else Inr ((), d\<lparr>entries := entries d @ [r]\<rparr>))"

definition insert_tenant :: "tenant_row \<Rightarrow> db \<Rightarrow> go_error + (unit \<times> db)" where
  "insert_tenant r d =
     (if tenant_exists d (tn_id r) then violates ''tenants_pkey''
      else if tn_name r \<in> tn_name ` set (tenants d) then violates ''tenants_name_key''
      else if tn_hash r \<in> tn_hash ` set (tenants d) then violates ''tenants_credential_hash_key''
      else Inr ((), d\<lparr>tenants := tenants d @ [r]\<rparr>))"

definition active_pair_taken :: "db \<Rightarrow> string \<Rightarrow> string \<Rightarrow> bool" where
  "active_pair_taken d a b \<longleftrightarrow>
     (\<exists>l \<in> set (tenant_links d). lr_status l = TenantLinkActive \<and> lr_a l = a \<and> lr_b l = b)"

definition insert_link :: "link_row \<Rightarrow> db \<Rightarrow> go_error + (unit \<times> db)" where
  "insert_link r d =
     (if db_link d (lr_id r) \<noteq> None then violates ''tenant_links_pkey''
      else if \<not> tenant_exists d (lr_a r) then violates ''tenant_links_tenant_a_fkey''
      else if \<not> tenant_exists d (lr_b r) then violates ''tenant_links_tenant_b_fkey''
      else if lr_status r = TenantLinkActive \<and> active_pair_taken d (lr_a r) (lr_b r)
      then violates ''tenant_links_active_pair_idx''
      else Inr ((), d\<lparr>tenant_links := tenant_links d @ [r]\<rparr>))"

definition insert_alias :: "alias_row \<Rightarrow> db \<Rightarrow> go_error + (unit \<times> db)" where
  "insert_alias r d =
     (if db_alias d (al_tenant r) (al_alias r) \<noteq> None then violates ''counterparty_aliases_pkey''
      else if \<not> tenant_exists d (al_tenant r) then violates ''counterparty_aliases_tenant_id_fkey''
      else if db_link d (al_link r) = None then violates ''counterparty_aliases_tenant_link_id_fkey''
      else if \<not> tenant_exists d (al_target_tenant r)
      then violates ''counterparty_aliases_target_tenant_id_fkey''
      else if \<not> account_exists d (al_target_tenant r) (al_target_account r)
      then violates ''counterparty_aliases_target_fkey''
      else Inr ((), d\<lparr>counterparty_aliases := counterparty_aliases d @ [r]\<rparr>))"

definition insert_transfer :: "transfer_row \<Rightarrow> db \<Rightarrow> go_error + (unit \<times> db)" where
  "insert_transfer r d =
     (if db_transfer d (xr_id r) \<noteq> None then violates ''transfer_state_pkey''
      else if \<exists>x \<in> set (transfer_states d). xr_tenant x = xr_tenant r \<and> xr_key x = xr_key r
      then violates ''transfer_state_tenant_idempotency_key_idx''
      else if \<not> tenant_exists d (xr_tenant r) then violates ''transfer_state_tenant_id_fkey''
      else if (case xr_counterparty r of None \<Rightarrow> False | Some t \<Rightarrow> \<not> tenant_exists d t)
      then violates ''transfer_state_counterparty_tenant_id_fkey''
      else Inr ((), d\<lparr>transfer_states := transfer_states d @ [r]\<rparr>))"

lemmas insert_defs = insert_account_def insert_transaction_def insert_entry_def insert_tenant_def
  insert_link_def insert_alias_def insert_transfer_def violates_def

end
