(* ===== verification/Logic.thy ===== *)
theory Logic
  imports Database
begin

text \<open>
  Reasoning about units of work. \<open>wp m Q E\<close> is the weakest precondition of a step \<open>m\<close>: if it
  answers a value the world satisfies \<open>Q\<close>, if it answers an error the world satisfies \<open>E\<close>.
  \<open>since w0 w\<close> is the frame all steps keep: \<open>w\<close> is a later moment of the run that \<open>w0\<close> is in,
  and until then the committed database has moved by other sessions' commits only.
\<close>

section \<open>The frame\<close>

definition env_run :: "(nat \<Rightarrow> db \<Rightarrow> db) \<Rightarrow> nat \<Rightarrow> nat \<Rightarrow> db \<Rightarrow> db" where
  "env_run env i j d = foldl (\<lambda>d n. env n d) d [i..<j]"

lemma env_run_refl [simp]: "env_run env i i d = d"
  by (simp add: env_run_def)

lemma env_run_trans: "i \<le> j \<Longrightarrow> j \<le> k \<Longrightarrow> env_run env j k (env_run env i j d) = env_run env i k d"
  using upt_add_eq_append [of i j "k - j"] by (simp add: env_run_def flip: foldl_append)

lemma env_run_Suc: "env_run env i (Suc i) d = env i d"
  by (simp add: env_run_def)

lemma env_run_id: "(\<And>n d. env n d = d) \<Longrightarrow> env_run env i j d = d"
proof -
  assume e: "\<And>n d. env n d = d"
  have "foldl (\<lambda>d n. env n d) d xs = d" for xs
    by (induction xs) (simp_all add: e)
  then show ?thesis by (simp add: env_run_def)
qed

definition same_run :: "world \<Rightarrow> world \<Rightarrow> bool" where
  "same_run v w \<longleftrightarrow> w_clock w = w_clock v \<and> w_ids w = w_ids v \<and> w_faults w = w_faults v \<and>
     w_env w = w_env v \<and> w_collate w = w_collate v \<and> w_sha256hex w = w_sha256hex v \<and>
     w_turns v \<le> w_turns w \<and> w_ops v \<le> w_ops w \<and> w_reads v \<le> w_reads w \<and> w_minted v \<le> w_minted w"

definition since :: "world \<Rightarrow> world \<Rightarrow> bool" where
  "since v w \<longleftrightarrow> same_run v w \<and>
     w_committed w = env_run (w_env v) (w_turns v) (w_turns w) (w_committed v)"

lemma same_run_refl [simp]: "same_run w w"
  by (simp add: same_run_def)

lemma same_run_trans: "same_run u v \<Longrightarrow> same_run v w \<Longrightarrow> same_run u w"
  by (auto simp: same_run_def)

lemma since_same_run: "since v w \<Longrightarrow> same_run v w"
  by (simp add: since_def)

lemma since_refl [simp]: "since w w"
  by (simp add: since_def)

lemma since_trans: "since u v \<Longrightarrow> since v w \<Longrightarrow> since u w"
  by (auto simp: since_def same_run_def env_run_trans)

text \<open>
  \<open>clean w\<close>: a unit of work is open and has neither locked nor written. \<open>pending v w\<close>:
  between the two moments no other session's commit was observed.
\<close>

definition clean :: "world \<Rightarrow> bool" where
  "clean w \<longleftrightarrow> w_locks w = [] \<and> \<not> w_dirty w \<and> w_db w = w_committed w"

definition pending :: "world \<Rightarrow> bool" where
  "pending w \<longleftrightarrow> w_locks w \<noteq> [] \<or> w_dirty w"

lemma turn_pending [simp]: "pending w \<Longrightarrow> turn w = w"
  by (auto simp: pending_def turn_def)

lemma turn_since: "since w (turn w)"
  by (auto simp: turn_def since_def same_run_def Let_def env_run_Suc)

lemma turn_clean: "clean w \<Longrightarrow> clean (turn w)"
  by (auto simp: turn_def clean_def Let_def)

lemma since_ops: "since v w \<Longrightarrow> since v (w\<lparr>w_ops := Suc (w_ops w)\<rparr>)"
  by (auto simp: since_def same_run_def)

lemma clean_ops [simp]: "clean (w\<lparr>w_ops := n\<rparr>) = clean w"
  by (simp add: clean_def)

section \<open>Weakest preconditions\<close>

definition wp :: "'a uow \<Rightarrow> ('a \<Rightarrow> world \<Rightarrow> bool) \<Rightarrow> (go_error \<Rightarrow> world \<Rightarrow> bool) \<Rightarrow> world \<Rightarrow> bool" where
  "wp m Q E w \<longleftrightarrow> (case m w of (Inr x, w') \<Rightarrow> Q x w' | (Inl e, w') \<Rightarrow> E e w')"

lemma wp_ret [simp]: "wp (ret x) Q E = Q x"
  by (simp add: wp_def ret_def fun_eq_iff)

lemma wp_throw [simp]: "wp (throw e) Q E = E e"
  by (simp add: wp_def throw_def fun_eq_iff)

lemma wp_bindE [simp]: "wp (bindE m f) Q E = wp m (\<lambda>x. wp (f x) Q E) E"
  by (auto simp: wp_def bindE_def fun_eq_iff split: sum.splits prod.splits)

lemma wp_decide [simp]:
  "wp (decide r) Q E = (case r of Inl v \<Rightarrow> E (ErrViolation v) | Inr x \<Rightarrow> Q x)"
  by (simp add: decide_def split: sum.splits)

lemma wp_clock [simp]:
  "wp clock Q E w = Q (w_clock w (w_reads w)) (w\<lparr>w_reads := Suc (w_reads w)\<rparr>)"
  by (simp add: wp_def clock_def)

lemma wp_nextID [simp]:
  "wp nextID Q E w = Q (w_ids w (w_minted w)) (w\<lparr>w_minted := Suc (w_minted w)\<rparr>)"
  by (simp add: wp_def nextID_def)

lemma wp_sorted_query: "wp (sorted_query f) Q E w = wp (query (f (w_collate w))) Q E w"
  by (simp add: wp_def sorted_query_def)

lemma wp_mono:
  "wp m Q E w \<Longrightarrow> (\<And>x w'. Q x w' \<Longrightarrow> Q' x w') \<Longrightarrow> (\<And>e w'. E e w' \<Longrightarrow> E' e w') \<Longrightarrow> wp m Q' E' w"
  by (auto simp: wp_def split: sum.splits prod.splits)

lemma wp_Inr: "wp m Q E w \<Longrightarrow> m w = (Inr x, w') \<Longrightarrow> Q x w'"
  by (simp add: wp_def)

lemma wp_Inl: "wp m Q E w \<Longrightarrow> m w = (Inl e, w') \<Longrightarrow> E e w'"
  by (simp add: wp_def)

lemma wp_case_option:
  "wp (case x of None \<Rightarrow> m | Some y \<Rightarrow> f y) Q E w \<longleftrightarrow>
     (x = None \<longrightarrow> wp m Q E w) \<and> (\<forall>y. x = Some y \<longrightarrow> wp (f y) Q E w)"
  by (cases x) auto

text \<open>A statement of a unit of work that is still clean.\<close>

definition faulty :: "world \<Rightarrow> bool" where
  "faulty w \<longleftrightarrow> (\<exists>n. w_faults w n \<noteq> NoFault)"

lemma faultyI: "w_faults w n \<noteq> NoFault \<Longrightarrow> faulty w"
  by (auto simp: faulty_def)

lemma since_faulty: "since v w \<Longrightarrow> faulty w = faulty v"
  by (simp add: since_def same_run_def faulty_def)

lemma wp_statement_clean:
  assumes "clean w"
    and "\<And>w'. since w w' \<Longrightarrow> clean w' \<Longrightarrow> wp m Q E w'"
    and "\<And>w'. since w w' \<Longrightarrow> clean w' \<Longrightarrow> faulty w' \<Longrightarrow> E (ErrInfra ''statement'') w'"
  shows "wp (statement m) Q E w"
proof -
  let ?w = "(turn w)\<lparr>w_ops := Suc (w_ops w)\<rparr>"
  have "w_ops (turn w) = w_ops w" by (simp add: turn_def Let_def)
  then have s: "since w ?w" using turn_since [of w] since_ops by metis
  have c: "clean ?w" using assms(1) turn_clean by simp
  have "faulty ?w" if "w_faults w (w_ops w) \<noteq> NoFault"
    using that since_faulty [OF s] faultyI by blast
  then show ?thesis
    using assms(2) [OF s c] assms(3) [OF s c] by (simp add: wp_def statement_def Let_def)
qed

lemma wp_statement_pending:
  assumes "pending w"
    and "wp m Q E (w\<lparr>w_ops := Suc (w_ops w)\<rparr>)"
    and "faulty w \<Longrightarrow> E (ErrInfra ''statement'') (w\<lparr>w_ops := Suc (w_ops w)\<rparr>)"
  shows "wp (statement m) Q E w"
  using assms faultyI [of w "w_ops w"] by (auto simp: wp_def statement_def Let_def)

lemma wp_query_clean:
  assumes "clean w"
    and "\<And>w'. since w w' \<Longrightarrow> clean w' \<Longrightarrow> Q (f (w_committed w')) w'"
    and "\<And>w'. since w w' \<Longrightarrow> clean w' \<Longrightarrow> faulty w' \<Longrightarrow> E (ErrInfra ''statement'') w'"
  shows "wp (query f) Q E w"
  unfolding query_def
  by (rule wp_statement_clean [OF assms(1)])
     (use assms(2,3) in \<open>auto simp: wp_def clean_def\<close>)

lemma wp_query_pending:
  assumes "pending w"
    and "Q (f (w_db w)) (w\<lparr>w_ops := Suc (w_ops w)\<rparr>)"
    and "faulty w \<Longrightarrow> E (ErrInfra ''statement'') (w\<lparr>w_ops := Suc (w_ops w)\<rparr>)"
  shows "wp (query f) Q E w"
  unfolding query_def
  by (rule wp_statement_pending [OF assms(1)]) (use assms(2,3) in \<open>auto simp: wp_def\<close>)

lemma wp_command_clean:
  assumes "clean w"
    and "\<And>w' x d. since w w' \<Longrightarrow> clean w' \<Longrightarrow> f (w_committed w') = Inr (x, d) \<Longrightarrow>
           Q x (w'\<lparr>w_db := d, w_dirty := True\<rparr>)"
    and "\<And>w' e. since w w' \<Longrightarrow> clean w' \<Longrightarrow> f (w_committed w') = Inl e \<Longrightarrow> E e w'"
    and "\<And>w'. since w w' \<Longrightarrow> clean w' \<Longrightarrow> faulty w' \<Longrightarrow> E (ErrInfra ''statement'') w'"
  shows "wp (command f) Q E w"
  unfolding command_def
  by (rule wp_statement_clean [OF assms(1)])
     (use assms(2-4) in \<open>auto simp: wp_def clean_def split: sum.splits prod.splits\<close>)

lemma wp_command_pending:
  assumes "pending w"
    and "\<And>x d. f (w_db w) = Inr (x, d) \<Longrightarrow>
           Q x (w\<lparr>w_ops := Suc (w_ops w), w_db := d, w_dirty := True\<rparr>)"
    and "\<And>e. f (w_db w) = Inl e \<Longrightarrow> E e (w\<lparr>w_ops := Suc (w_ops w)\<rparr>)"
    and "faulty w \<Longrightarrow> E (ErrInfra ''statement'') (w\<lparr>w_ops := Suc (w_ops w)\<rparr>)"
  shows "wp (command f) Q E w"
  unfolding command_def
  by (rule wp_statement_pending [OF assms(1)])
     (use assms(2-4) in \<open>auto simp: wp_def split: sum.splits prod.splits\<close>)

lemma wp_select_for_update_clean:
  assumes "clean w"
    and "\<And>w'. since w w' \<Longrightarrow> clean w' \<Longrightarrow> f (w_committed w') = None \<Longrightarrow> Q None w'"
    and "\<And>w' r. since w w' \<Longrightarrow> clean w' \<Longrightarrow> f (w_committed w') = Some r \<Longrightarrow>
           Q (Some r) (w'\<lparr>w_locks := [k]\<rparr>)"
    and "\<And>w'. since w w' \<Longrightarrow> clean w' \<Longrightarrow> faulty w' \<Longrightarrow> E (ErrInfra ''statement'') w'"
  shows "wp (select_for_update k f) Q E w"
  unfolding select_for_update_def
  by (rule wp_statement_clean [OF assms(1)])
     (use assms(2-4) in \<open>auto simp: wp_def clean_def split: option.splits\<close>)

lemma wp_select_for_update_pending:
  assumes "pending w"
    and "f (w_db w) = None \<Longrightarrow> Q None (w\<lparr>w_ops := Suc (w_ops w)\<rparr>)"
    and "\<And>r. f (w_db w) = Some r \<Longrightarrow>
           Q (Some r) (w\<lparr>w_ops := Suc (w_ops w), w_locks := w_locks w @ [k]\<rparr>)"
    and "faulty w \<Longrightarrow> E (ErrInfra ''statement'') (w\<lparr>w_ops := Suc (w_ops w)\<rparr>)"
  shows "wp (select_for_update k f) Q E w"
  unfolding select_for_update_def
  by (rule wp_statement_pending [OF assms(1)])
     (use assms(2-4) in \<open>auto simp: wp_def split: option.splits\<close>)

text \<open>
  Once the unit of work holds a lock or has written, \<open>holding v d w\<close> says where it stands: the
  committed state is the one of moment \<open>v\<close>, its own view is \<open>d\<close>.
\<close>

definition holding :: "world \<Rightarrow> db \<Rightarrow> world \<Rightarrow> bool" where
  "holding v d w \<longleftrightarrow> since v w \<and> pending w \<and> w_committed w = w_committed v \<and> w_db w = d"

lemma holding_since: "holding v d w \<Longrightarrow> since v w"
  by (simp add: holding_def)

lemma holding_reads: "holding v d w \<Longrightarrow> holding v d (w\<lparr>w_reads := Suc (w_reads w)\<rparr>)"
  by (auto simp: holding_def pending_def since_def same_run_def)

lemma holding_minted: "holding v d w \<Longrightarrow> holding v d (w\<lparr>w_minted := Suc (w_minted w)\<rparr>)"
  by (auto simp: holding_def pending_def since_def same_run_def)

lemma holding_ops: "holding v d w \<Longrightarrow> holding v d (w\<lparr>w_ops := Suc (w_ops w)\<rparr>)"
  by (auto simp: holding_def pending_def since_def same_run_def)

lemma clean_reads [simp]: "clean (w\<lparr>w_reads := n\<rparr>) = clean w"
  by (simp add: clean_def)

lemma clean_minted [simp]: "clean (w\<lparr>w_minted := n\<rparr>) = clean w"
  by (simp add: clean_def)

lemma since_reads: "since v w \<Longrightarrow> since v (w\<lparr>w_reads := Suc (w_reads w)\<rparr>)"
  by (auto simp: since_def same_run_def)

lemma since_minted: "since v w \<Longrightarrow> since v (w\<lparr>w_minted := Suc (w_minted w)\<rparr>)"
  by (auto simp: since_def same_run_def)

lemma holding_locked: "clean w \<Longrightarrow> holding w (w_committed w) (w\<lparr>w_locks := [k]\<rparr>)"
  by (simp add: holding_def pending_def clean_def since_def same_run_def)

lemma holding_written: "clean w \<Longrightarrow> holding w d (w\<lparr>w_db := d, w_dirty := True\<rparr>)"
  by (simp add: holding_def pending_def clean_def since_def same_run_def)

lemma wp_query_holding:
  assumes "holding v d w"
    and "\<And>w'. holding v d w' \<Longrightarrow> Q (f d) w'"
    and "\<And>w'. holding v d w' \<Longrightarrow> faulty w' \<Longrightarrow> E (ErrInfra ''statement'') w'"
  shows "wp (query f) Q E w"
proof (rule wp_query_pending)
  show "pending w" and "Q (f (w_db w)) (w\<lparr>w_ops := Suc (w_ops w)\<rparr>)"
    using assms(1,2) holding_ops by (auto simp: holding_def)
  show "faulty w \<Longrightarrow> E (ErrInfra ''statement'') (w\<lparr>w_ops := Suc (w_ops w)\<rparr>)"
    using assms(1,3) holding_ops by (simp add: faulty_def)
qed

lemma wp_command_holding:
  assumes "holding v d w"
    and "\<And>w' x d'. holding v d' w' \<Longrightarrow> f d = Inr (x, d') \<Longrightarrow> Q x w'"
    and "\<And>w' e. holding v d w' \<Longrightarrow> f d = Inl e \<Longrightarrow> E e w'"
    and "\<And>w'. holding v d w' \<Longrightarrow> faulty w' \<Longrightarrow> E (ErrInfra ''statement'') w'"
  shows "wp (command f) Q E w"
proof (rule wp_command_pending)
  show "pending w" using assms(1) by (simp add: holding_def)
  have d: "w_db w = d" using assms(1) by (simp add: holding_def)
  show "Q x (w\<lparr>w_ops := Suc (w_ops w), w_db := d', w_dirty := True\<rparr>)"
    if "f (w_db w) = Inr (x, d')" for x d'
    using assms(1) that d by (intro assms(2)) (auto simp: holding_def pending_def since_def same_run_def)
  show "E e (w\<lparr>w_ops := Suc (w_ops w)\<rparr>)" if "f (w_db w) = Inl e" for e
    using assms(1) that d by (intro assms(3) holding_ops) auto
  show "E (ErrInfra ''statement'') (w\<lparr>w_ops := Suc (w_ops w)\<rparr>)" if "faulty w"
    using assms(1) that by (intro assms(4) holding_ops) (auto simp: faulty_def)
qed

lemma wp_select_for_update_holding:
  assumes "holding v d w"
    and "\<And>w'. holding v d w' \<Longrightarrow> Q (f d) w'"
    and "\<And>w'. holding v d w' \<Longrightarrow> faulty w' \<Longrightarrow> E (ErrInfra ''statement'') w'"
  shows "wp (select_for_update k f) Q E w"
proof (rule wp_select_for_update_pending)
  have d: "w_db w = d" using assms(1) by (simp add: holding_def)
  show "pending w" using assms(1) by (simp add: holding_def)
  show "Q None (w\<lparr>w_ops := Suc (w_ops w)\<rparr>)" if "f (w_db w) = None"
    using assms(2) [OF holding_ops [OF assms(1)]] that d by simp
  show "Q (Some r) (w\<lparr>w_ops := Suc (w_ops w), w_locks := w_locks w @ [k]\<rparr>)"
    if "f (w_db w) = Some r" for r
    using assms(2) [of "w\<lparr>w_ops := Suc (w_ops w), w_locks := w_locks w @ [k]\<rparr>"] assms(1) that d
    by (auto simp: holding_def pending_def since_def same_run_def)
  show "E (ErrInfra ''statement'') (w\<lparr>w_ops := Suc (w_ops w)\<rparr>)" if "faulty w"
    using assms(1) that by (intro assms(3) holding_ops) (auto simp: faulty_def)
qed

section \<open>A whole unit of work\<close>

text \<open>
  What a whole unit of work leaves behind. On success the body's view is committed
  (\<open>commits u w\<close>); on an error only other sessions' commits are visible, except that a commit
  whose reply was lost has committed the body's view while the caller is told it failed.
\<close>

definition commits :: "world \<Rightarrow> world \<Rightarrow> bool" where
  "commits u w \<longleftrightarrow> same_run u w \<and> w_turns w = w_turns u \<and> w_committed w = w_db u"

lemma commits_same_run: "commits u w \<Longrightarrow> same_run u w"
  by (simp add: commits_def)

lemma wp_withUnitOfWork:
  assumes body: "\<And>v. since w v \<Longrightarrow> clean v \<Longrightarrow> wp fn
      (\<lambda>x u. (\<forall>w'. commits u w' \<longrightarrow> Q x w') \<and>
             (faulty u \<longrightarrow> (\<forall>w'. commits u w' \<or> since u w' \<longrightarrow> E (ErrInfra ''commit'') w')))
      (\<lambda>e u. \<forall>w'. since u w' \<longrightarrow> E e w') v"
    and begin_fails: "\<And>v. since w v \<Longrightarrow> faulty v \<Longrightarrow> E (ErrInfra ''begin'') v"
  shows "wp (withUnitOfWork fn) Q E w"
proof (cases "w_faults w (w_ops w) = NoFault")
  case False
  let ?v = "w\<lparr>w_ops := Suc (w_ops w)\<rparr>"
  have "since w ?v" by (rule since_ops) simp
  moreover have "faulty ?v" using False by (auto simp: faulty_def)
  ultimately show ?thesis
    using False begin_fails by (simp add: wp_def withUnitOfWork_def bindE_def Begin_def Let_def)
next
  case True
  let ?v = "w\<lparr>w_ops := Suc (w_ops w), w_db := w_committed w, w_locks := [], w_dirty := False\<rparr>"
  have v: "since w ?v" "clean ?v" by (simp_all add: since_def same_run_def clean_def)
  note B = body [OF v]
  have run: "withUnitOfWork fn w = (case fn ?v of
       (Inl e, w') \<Rightarrow> (Inl e, Rollback w')
     | (Inr x, w') \<Rightarrow>
         (case Commit w' of (Inl e, w'') \<Rightarrow> (Inl e, Rollback w'') | (Inr _, w'') \<Rightarrow> (Inr x, w'')))"
    using True by (simp add: withUnitOfWork_def bindE_def Begin_def Let_def)
  show ?thesis
  proof (cases "fn ?v")
    case (Pair r u)
    show ?thesis
    proof (cases r)
      case (Inl e)
      have "since u (Rollback u)" by (simp add: Rollback_def since_def same_run_def)
      then show ?thesis using B Pair Inl run by (simp add: wp_def)
    next
      case (Inr x)
      have q: "\<forall>w'. commits u w' \<longrightarrow> Q x w'"
        and e: "faulty u \<Longrightarrow> \<forall>w'. commits u w' \<or> since u w' \<longrightarrow> E (ErrInfra ''commit'') w'"
        using B Pair Inr by (simp_all add: wp_def)
      show ?thesis
      proof (cases "w_faults u (w_ops u)")
        case NoFault
        have "commits u (snd (Commit u))" "Commit u = (Inr (), snd (Commit u))"
          using NoFault by (simp_all add: Commit_def Let_def commits_def same_run_def)
        then show ?thesis using q Pair Inr run by (auto simp: wp_def split: prod.splits)
      next
        case Fails
        then have "faulty u" using faultyI [of u "w_ops u"] by simp
        moreover have "since u (Rollback (u\<lparr>w_ops := Suc (w_ops u)\<rparr>))"
          by (simp add: Rollback_def since_def same_run_def)
        ultimately show ?thesis
          using e Pair Inr run Fails by (simp add: wp_def Commit_def Let_def)
      next
        case ReplyLost
        then have "faulty u" using faultyI [of u "w_ops u"] by simp
        moreover have "commits u (Rollback (u\<lparr>w_ops := Suc (w_ops u), w_committed := w_db u\<rparr>))"
          by (simp add: Rollback_def commits_def same_run_def)
        ultimately show ?thesis
          using e Pair Inr run ReplyLost by (simp add: wp_def Commit_def Let_def)
      qed
    qed
  qed
qed

end
