(* ===== verification/LedgerStore.thy ===== *)
theory LedgerStore
  imports Logic
begin

text \<open>
  The repositories the posting path and the verdict use, from
  \<open>internal/adapters/postgres\<close>: \<open>accounts.go\<close>, \<open>transactions.go\<close> and \<open>idempotency.go\<close>. One
  definition per method, one \<open>query\<close>, \<open>command\<close> or \<open>select_for_update\<close> per SQL statement.
  Names that several repositories share carry the repository as a prefix.
\<close>

section \<open>\<open>accounts.go\<close>\<close>

definition buildAccount :: "string \<Rightarrow> string \<Rightarrow> AccountKind \<Rightarrow> string \<Rightarrow> int64 \<Rightarrow> Violation + Account" where
  "buildAccount tenantID aid kind cur balanceMinor =
     (case NewMoney balanceMinor cur of
        Inl e \<Rightarrow> Inl e
      | Inr balance \<Rightarrow> NewAccount tenantID aid kind balance)"

definition scanAccount :: "account_row \<Rightarrow> string \<Rightarrow> Violation + Account" where
  "scanAccount r tenantID = buildAccount tenantID (ar_id r) (ar_kind r) (ar_currency r) (ar_balance r)"

definition scanTenantAccount :: "account_row \<Rightarrow> Violation + Account" where
  "scanTenantAccount r =
     buildAccount (ar_tenant r) (ar_id r) (ar_kind r) (ar_currency r) (ar_balance r)"

definition lockOne :: "string \<Rightarrow> string \<Rightarrow> Account option uow" where
  "lockOne tenantID aid =
     bindE (select_for_update (AccountRow tenantID aid) (\<lambda>d. db_account d tenantID aid)) (\<lambda>row.
       case row of
         None \<Rightarrow> ret None
       | Some r \<Rightarrow> bindE (decide (scanAccount r tenantID)) (\<lambda>a. ret (Some a)))"

text \<open>The loop with its \<open>seen\<close> map, then \<open>sort.Strings\<close>.\<close>

fun dedup_loop :: "string set \<Rightarrow> string list \<Rightarrow> string list" where
  "dedup_loop seen [] = []"
| "dedup_loop seen (x # xs) =
     (if x \<in> seen then dedup_loop seen xs else x # dedup_loop (insert x seen) xs)"

definition dedupedSorted :: "string list \<Rightarrow> string list" where
  "dedupedSorted ids = sort (dedup_loop {} ids)"

fun lock_loop :: "string \<Rightarrow> string list \<Rightarrow> Account list uow" where
  "lock_loop tenantID [] = ret []"
| "lock_loop tenantID (i # is) =
     bindE (lockOne tenantID i) (\<lambda>found.
     bindE (lock_loop tenantID is) (\<lambda>accounts.
       ret (case found of None \<Rightarrow> accounts | Some a \<Rightarrow> a # accounts)))"

definition LockForUpdate :: "string \<Rightarrow> string list \<Rightarrow> Account list uow" where
  "LockForUpdate tenantID accountIDs = lock_loop tenantID (dedupedSorted accountIDs)"

definition delta_hits :: "string \<Rightarrow> BalanceDelta \<Rightarrow> account_row \<Rightarrow> bool" where
  "delta_hits tenantID delta r \<longleftrightarrow>
     ar_tenant r = tenantID \<and> ar_id r = d_AccountID delta \<and> ar_currency r = currency (d_Delta delta)"

definition update_balance :: "string \<Rightarrow> BalanceDelta \<Rightarrow> db \<Rightarrow> go_error + (nat \<times> db)" where
  "update_balance tenantID delta d =
     (let hits = filter (delta_hits tenantID delta) (accounts d)
      in if \<exists>r \<in> set hits. bigint_add (ar_balance r) (minorUnits (d_Delta delta)) = None
         then Inl (ErrInfra ''bigint out of range'')
         else Inr (length hits, d\<lparr>accounts := map (\<lambda>r.
                if delta_hits tenantID delta r
                then r\<lparr>ar_balance := ar_balance r + minorUnits (d_Delta delta)\<rparr> else r) (accounts d)\<rparr>))"

definition ApplyDeltas :: "string \<Rightarrow> BalanceDelta list \<Rightarrow> unit uow" where
  "ApplyDeltas tenantID deltas = forE deltas (\<lambda>delta.
     bindE (command (update_balance tenantID delta)) (\<lambda>rowsAffected.
       if rowsAffected \<noteq> 1 then throw (ErrInfra ''no matching row'') else ret ()))"

definition accounts_Create :: "string \<Rightarrow> Account \<Rightarrow> unit uow" where
  "accounts_Create tenantID account = command (insert_account
     \<lparr>ar_tenant = tenantID, ar_id = acct_id account, ar_kind = acct_kind account,
      ar_balance = minorUnits (acct_balance account), ar_currency = currency (acct_balance account)\<rparr>)"

definition accounts_Get :: "string \<Rightarrow> string \<Rightarrow> Account uow" where
  "accounts_Get tenantID accountID =
     bindE (query (\<lambda>d. db_account d tenantID accountID)) (\<lambda>row.
       case row of
         None \<Rightarrow> throw (ErrViolation (NewUnknownAccount accountID))
       | Some r \<Rightarrow> decide (scanAccount r tenantID))"

definition ExistsAnyTenant :: "string \<Rightarrow> bool uow" where
  "ExistsAnyTenant accountID = query (\<lambda>d. \<exists>r \<in> set (accounts d). ar_id r = accountID)"

text \<open>Rows scanned one by one; the first that fails ends the scan.\<close>

fun scan_all :: "('r \<Rightarrow> Violation + 'a) \<Rightarrow> 'r list \<Rightarrow> Violation + 'a list" where
  "scan_all f [] = Inr []"
| "scan_all f (r # rs) = (case f r of
     Inl e \<Rightarrow> Inl e
   | Inr x \<Rightarrow> (case scan_all f rs of Inl e \<Rightarrow> Inl e | Inr xs \<Rightarrow> Inr (x # xs)))"

definition accounts_All :: "TenantScope \<Rightarrow> Account list uow" where
  "accounts_All scope =
     bindE (sorted_query (\<lambda>collate d. case Resolve scope of (tenantID, scoped) \<Rightarrow>
        if scoped
        then sort_key (\<lambda>r. collate (ar_id r)) (filter (\<lambda>r. ar_tenant r = tenantID) (accounts d))
        else sort_key (\<lambda>r. (collate (ar_tenant r), collate (ar_id r))) (accounts d)))
       (\<lambda>rows. decide (scan_all scanTenantAccount rows))"

section \<open>\<open>transactions.go\<close>\<close>

text \<open>\<open>timestamptz\<close> holds microseconds: what an instant is after it has been stored.\<close>

definition timestamptz :: "time \<Rightarrow> time" where
  "timestamptz t = t div 1000 * 1000"

definition entry_to_row :: "string \<Rightarrow> string \<Rightarrow> Entry \<Rightarrow> entry_row" where
  "entry_to_row tenantID tid e =
     \<lparr>er_tenant = tenantID, er_transaction = tid, er_account = e_accountID e,
      er_counterparty = e_counterparty e, er_amount = minorUnits (e_amount e),
      er_currency = currency (e_amount e), er_recorded_at = timestamptz (e_recordedAt e),
      er_sequence = e_sequence e\<rparr>"

definition Append :: "string \<Rightarrow> Posting \<Rightarrow> unit uow" where
  "Append tenantID posting =
     bindE (command (insert_transaction
        \<lparr>tr_tenant = tenantID, tr_id = txn_id (p_Transaction posting),
         tr_recorded_at = timestamptz (txn_recordedAt (p_Transaction posting))\<rparr>)) (\<lambda>_.
     forE (p_Entries posting) (\<lambda>entry.
        command (insert_entry (entry_to_row tenantID (txn_id (p_Transaction posting)) entry))))"

definition entryFromRow ::
  "string \<Rightarrow> string \<Rightarrow> string \<Rightarrow> string \<Rightarrow> int64 \<Rightarrow> int64 \<Rightarrow> time \<Rightarrow> Violation + Entry" where
  "entryFromRow transactionID accountID counterparty cur amountMinor sequence recordedAt =
     (case NewMoney amountMinor cur of
        Inl e \<Rightarrow> Inl e
      | Inr amount \<Rightarrow> NewEntry transactionID accountID counterparty amount recordedAt sequence)"

definition scanEntries :: "entry_row list \<Rightarrow> string \<Rightarrow> Violation + Entry list" where
  "scanEntries rows transactionID = scan_all (\<lambda>r.
     entryFromRow transactionID (er_account r) (er_counterparty r) (er_currency r)
       (er_amount r) (er_sequence r) (er_recorded_at r)) rows"

definition scanAccountEntries :: "entry_row list \<Rightarrow> string \<Rightarrow> Violation + TenantEntry list" where
  "scanAccountEntries rows accountID = scan_all (\<lambda>r.
     case entryFromRow (er_transaction r) accountID (er_counterparty r) (er_currency r)
       (er_amount r) (er_sequence r) (er_recorded_at r) of
       Inl e \<Rightarrow> Inl e
     | Inr entry \<Rightarrow> Inr \<lparr>te_TenantID = er_tenant r, te_Entry = entry\<rparr>) rows"

definition entriesForTransaction :: "string \<Rightarrow> string \<Rightarrow> Entry list uow" where
  "entriesForTransaction tenantID transactionID =
     bindE (query (\<lambda>d. sort_key (\<lambda>r. sint (er_sequence r))
        (filter (\<lambda>r. er_tenant r = tenantID \<and> er_transaction r = transactionID) (entries d))))
       (\<lambda>rows. decide (scanEntries rows transactionID))"

definition transactions_Get :: "string \<Rightarrow> string \<Rightarrow> Posting uow" where
  "transactions_Get tenantID transactionID =
     bindE (query (\<lambda>d. List.find (\<lambda>r. tr_tenant r = tenantID \<and> tr_id r = transactionID)
        (transactions d))) (\<lambda>row.
       case row of
         None \<Rightarrow> throw (ErrInfra ''transaction not found'')
       | Some r \<Rightarrow>
           bindE (decide (NewTransaction transactionID (tr_recorded_at r))) (\<lambda>transaction.
           bindE (entriesForTransaction tenantID transactionID) (\<lambda>es.
             ret \<lparr>p_Transaction = transaction, p_Entries = es, p_Deltas = []\<rparr>)))"

definition EntriesFor :: "TenantScope \<Rightarrow> string \<Rightarrow> TenantEntry list uow" where
  "EntriesFor scope accountID =
     bindE (sorted_query (\<lambda>collate d. sort_key
        (\<lambda>r. (collate (er_tenant r), er_recorded_at r, sint (er_sequence r)))
        (filter (\<lambda>r. in_scope scope (er_tenant r) \<and> er_account r = accountID) (entries d))))
       (\<lambda>rows. decide (scanAccountEntries rows accountID))"

text \<open>
  \<open>SELECT key, SUM(amount_minor), COUNT( * ) ... GROUP BY key\<close>: the sums are exact
  (\<open>numeric\<close>); scanning one into an \<open>int64\<close> fails when it does not fit.
\<close>

definition group_by :: "(entry_row \<Rightarrow> 'k) \<Rightarrow> entry_row list \<Rightarrow> ('k \<times> int \<times> int) list" where
  "group_by key rows = map (\<lambda>k. (k,
       sum_list (map (\<lambda>r. sint (er_amount r)) (filter (\<lambda>r. key r = k) rows)),
       int (length (filter (\<lambda>r. key r = k) rows)))) (remdups (map key rows))"

definition scoped_entries :: "TenantScope \<Rightarrow> db \<Rightarrow> entry_row list" where
  "scoped_entries scope d = filter (\<lambda>r. in_scope scope (er_tenant r)) (entries d)"

fun trial_loop :: "(string \<times> int \<times> int) list \<Rightarrow> int64 \<Rightarrow> int \<Rightarrow> string \<Rightarrow> bool \<Rightarrow>
    (int64 \<times> int \<times> string \<times> bool) uow" where
  "trial_loop [] sumMinor count cur hasEntries = ret (sumMinor, count, cur, hasEntries)"
| "trial_loop ((rowCurrency, rowSum, rowCount) # rows) sumMinor count cur hasEntries =
     (if \<not> in_int64 rowSum then throw (ErrInfra ''scan'')
      else if \<not> hasEntries
      then trial_loop rows (word_of_int rowSum) (count + rowCount) rowCurrency True
      else trial_loop rows (sumMinor + word_of_int rowSum) (count + rowCount) cur True)"

definition TrialBalance :: "TenantScope \<Rightarrow> (Money \<times> int) uow" where
  "TrialBalance scope =
     bindE (query (\<lambda>d. group_by er_currency (scoped_entries scope d))) (\<lambda>rows.
     bindE (trial_loop rows 0 0 [] False) (\<lambda>(sumMinor, count, cur, hasEntries).
     bindE (decide (NewMoney sumMinor (if \<not> hasEntries then ''USD'' else cur))) (\<lambda>total.
       ret (total, count))))"

fun computed_loop :: "((string \<times> string \<times> string) \<times> int \<times> int) list \<Rightarrow>
    (AccountKey \<Rightarrow> Money option) \<Rightarrow> (AccountKey \<Rightarrow> Money option) uow" where
  "computed_loop [] balances = ret balances"
| "computed_loop (((rowTenantID, accountID, cur), sumMinor, _) # rows) balances =
     (if \<not> in_int64 sumMinor then throw (ErrInfra ''scan'')
      else bindE (decide (NewMoney (word_of_int sumMinor) cur)) (\<lambda>balance.
        computed_loop rows (balances((rowTenantID, accountID) \<mapsto> balance))))"

definition ComputedBalances :: "TenantScope \<Rightarrow> (AccountKey \<Rightarrow> Money option) uow" where
  "ComputedBalances scope =
     bindE (query (\<lambda>d. group_by (\<lambda>r. (er_tenant r, er_account r, er_currency r)) (scoped_entries scope d)))
       (\<lambda>rows. computed_loop rows Map.empty)"

section \<open>\<open>idempotency.go\<close>\<close>

definition insert_key :: "key_row \<Rightarrow> db \<Rightarrow> go_error + (nat \<times> db)" where
  "insert_key r d =
     (if db_key d (kr_key r) \<noteq> None then Inr (0, d)
      else if \<not> transaction_exists d (kr_transaction r)
      then violates ''idempotency_keys_transaction_id_fkey''
      else Inr (1, d\<lparr>idempotency_keys := idempotency_keys d @ [r]\<rparr>))"

definition idempotency_Claim :: "string \<Rightarrow> string \<Rightarrow> string \<Rightarrow> Claim uow" where
  "idempotency_Claim key fingerprint transactionID =
     bindE (command (insert_key
        \<lparr>kr_key = key, kr_fingerprint = fingerprint, kr_transaction = transactionID\<rparr>)) (\<lambda>rowsAffected.
       if rowsAffected = 0 then throw ErrIdempotencyKeyClaimConflict
       else ret \<lparr>claim_Key = key, claim_Fingerprint = fingerprint, claim_TransactionID = transactionID\<rparr>)"

definition idempotency_Lookup :: "string \<Rightarrow> Claim option uow" where
  "idempotency_Lookup key =
     bindE (query (\<lambda>d. db_key d key)) (\<lambda>row.
       ret (map_option (\<lambda>r. \<lparr>claim_Key = key, claim_Fingerprint = kr_fingerprint r,
              claim_TransactionID = kr_transaction r\<rparr>) row))"

section \<open>Lemmas\<close>

lemma scanAccount_Inr_iff:
  "scanAccount r t = Inr a \<longleftrightarrow>
     known_currency (ar_currency r) \<and> t \<noteq> [] \<and> (ar_kind r = Wallet \<longrightarrow> 0 \<le> sint (ar_balance r)) \<and>
     a = \<lparr>acct_id = ar_id r, acct_kind = ar_kind r,
          acct_balance = \<lparr>minorUnits = ar_balance r, currency = ar_currency r\<rparr>, acct_tenantID = t\<rparr>"
  by (auto simp: scanAccount_def buildAccount_def NewMoney_eq NewAccount_Inr_iff Account_wf_def)

lemma scanTenantAccount_eq: "scanTenantAccount r = scanAccount r (ar_tenant r)"
  by (simp add: scanTenantAccount_def scanAccount_def)

lemma dedup_loop_set: "set (dedup_loop seen xs) = set xs - seen"
  by (induction seen xs rule: dedup_loop.induct) auto

lemma dedup_loop_distinct: "distinct (dedup_loop seen xs)"
  by (induction seen xs rule: dedup_loop.induct) (auto simp: dedup_loop_set)

lemma dedupedSorted_set [simp]: "set (dedupedSorted xs) = set xs"
  by (simp add: dedupedSorted_def dedup_loop_set)

lemma dedupedSorted_strict: "sorted_wrt (<) (dedupedSorted xs)"
  by (simp add: dedupedSorted_def strict_sorted_iff dedup_loop_distinct)

text \<open>The lock order does not depend on the order the caller names the accounts in.\<close>

lemma dedupedSorted_cong: "set xs = set ys \<Longrightarrow> dedupedSorted xs = dedupedSorted ys"
  by (rule strict_sorted_equal) (simp_all add: dedupedSorted_strict)

lemma scan_all_Inr:
  "scan_all f rs = Inr xs \<longleftrightarrow> map f rs = map Inr xs"
proof (induction rs arbitrary: xs)
  case (Cons r rs)
  show ?case
  proof (cases xs)
    case (Cons x xs')
    with Cons.IH [of xs'] show ?thesis by (auto split: sum.splits)
  qed (auto split: sum.splits)
qed auto

lemma scan_all_map:
  "(\<And>r. r \<in> set rs \<Longrightarrow> f r = Inr (g r)) \<Longrightarrow> scan_all f rs = Inr (map g rs)"
  by (induction rs) auto

lemma timestamptz_idem [simp]: "timestamptz (timestamptz t) = timestamptz t"
  by (simp add: timestamptz_def)

lemma timestamptz_mono: "s \<le> t \<Longrightarrow> timestamptz s \<le> timestamptz t"
  by (simp add: timestamptz_def zdiv_mono1)

end
