(* ===== verification/LinkStore.thy ===== *)
theory LinkStore
  imports LedgerStore
begin

text \<open>
  The repositories of the tenant directory, from \<open>internal/adapters/postgres\<close>:
  \<open>tenants.go\<close>, \<open>tenant_links.go\<close> and \<open>counterparty_aliases.go\<close>.
\<close>

section \<open>\<open>tenants.go\<close>\<close>

definition tenants_ByName :: "string \<Rightarrow> Tenant uow" where
  "tenants_ByName name =
     bindE (query (\<lambda>d. List.find (\<lambda>r. tn_name r = name) (tenants d))) (\<lambda>row.
       case row of
         None \<Rightarrow> throw (ErrViolation (NewTenantNotFound name))
       | Some r \<Rightarrow> decide (NewTenant (tn_id r) (tn_name r) []))"

definition tenants_ByID :: "string \<Rightarrow> Tenant uow" where
  "tenants_ByID tenantID =
     bindE (query (\<lambda>d. db_tenant d tenantID)) (\<lambda>row.
       case row of
         None \<Rightarrow> throw (ErrViolation (NewTenantNotFound tenantID))
       | Some r \<Rightarrow> decide (NewTenant (tn_id r) (tn_name r) []))"

definition hashCredential :: "(string \<Rightarrow> string) \<Rightarrow> string \<Rightarrow> string" where
  "hashCredential sha256hex credential = sha256hex credential"

definition tenants_Create :: "Tenant \<Rightarrow> unit uow" where
  "tenants_Create t w = command (insert_tenant
     \<lparr>tn_id = tenant_id t, tn_name = tenant_name t,
      tn_hash = hashCredential (w_sha256hex w) (tenant_credential t)\<rparr>) w"

text \<open>
  \<open>NewTenantKeyResolver\<close> reads on a connection of its own, outside any unit of work: it
  sees the committed state.
\<close>

definition resolveTenantKey :: "db \<Rightarrow> string \<Rightarrow> string option" where
  "resolveTenantKey d credentialHash =
     map_option tn_id (List.find (\<lambda>r. tn_hash r = credentialHash) (tenants d))"

section \<open>\<open>tenant_links.go\<close>\<close>

definition links_Create :: "TenantLink \<Rightarrow> unit uow" where
  "links_Create l = command (insert_link
     \<lparr>lr_id = link_id l, lr_a = link_tenantA l, lr_b = link_tenantB l, lr_status = link_status l\<rparr>)"

definition reconstructTenantLink ::
  "string \<Rightarrow> string \<Rightarrow> string \<Rightarrow> TenantLinkStatus \<Rightarrow> Violation + TenantLink" where
  "reconstructTenantLink linkID tenantA tenantB status =
     (case domain_AuthorizeTenantPair linkID tenantA tenantB [] (\<lambda>t. t = tenantA \<or> t = tenantB) of
        Inl e \<Rightarrow> Inl e
      | Inr active \<Rightarrow>
          if status = TenantLinkRevoked then domain_RevokeTenantLink linkID [active]
          else Inr active)"

definition links_ActiveByPair :: "string \<Rightarrow> string \<Rightarrow> TenantLink option uow" where
  "links_ActiveByPair tenantA tenantB =
     bindE (query (\<lambda>d. List.find (\<lambda>r. lr_status r = TenantLinkActive \<and>
        ((lr_a r = tenantA \<and> lr_b r = tenantB) \<or> (lr_a r = tenantB \<and> lr_b r = tenantA)))
        (tenant_links d))) (\<lambda>row.
       case row of
         None \<Rightarrow> ret None
       | Some r \<Rightarrow> bindE (decide (reconstructTenantLink (lr_id r) (lr_a r) (lr_b r) (lr_status r)))
                     (\<lambda>l. ret (Some l)))"

definition links_ByID :: "string \<Rightarrow> TenantLink uow" where
  "links_ByID linkID =
     bindE (query (\<lambda>d. db_link d linkID)) (\<lambda>row.
       case row of
         None \<Rightarrow> throw (ErrViolation NewTenantLinkNotFound)
       | Some r \<Rightarrow> decide (reconstructTenantLink (lr_id r) (lr_a r) (lr_b r) (lr_status r)))"

definition revoke_row :: "string \<Rightarrow> db \<Rightarrow> db" where
  "revoke_row linkID d = d\<lparr>tenant_links := map (\<lambda>r.
     if lr_id r = linkID then r\<lparr>lr_status := TenantLinkRevoked\<rparr> else r) (tenant_links d)\<rparr>"

definition links_Revoke :: "string \<Rightarrow> unit uow" where
  "links_Revoke linkID =
     bindE (command (\<lambda>d. Inr (length (filter (\<lambda>r. lr_id r = linkID) (tenant_links d)),
                                revoke_row linkID d))) (\<lambda>rowsAffected.
       if rowsAffected = 0 then throw (ErrViolation NewTenantLinkNotFound) else ret ())"

section \<open>\<open>counterparty_aliases.go\<close>\<close>

definition aliases_Create :: "CounterpartyAlias \<Rightarrow> unit uow" where
  "aliases_Create a = command (insert_alias
     \<lparr>al_tenant = ca_tenantID a, al_alias = ca_alias a, al_link = ca_tenantLinkID a,
      al_target_tenant = ca_targetTenantID a, al_target_account = ca_targetAccountID a\<rparr>)"

definition reconstructCounterpartyAlias ::
  "string \<Rightarrow> string \<Rightarrow> string \<Rightarrow> string \<Rightarrow> string \<Rightarrow> Violation + CounterpartyAlias" where
  "reconstructCounterpartyAlias tenantID alias tenantLinkID targetTenantID targetAccountID =
     (case domain_AuthorizeTenantPair tenantLinkID ''placeholder-a'' ''placeholder-b'' []
             (\<lambda>t. t = ''placeholder-a'' \<or> t = ''placeholder-b'') of
        Inl e \<Rightarrow> Inl e
      | Inr placeholderLink \<Rightarrow>
          domain_RegisterCounterpartyAlias tenantID alias placeholderLink True
            targetTenantID targetAccountID)"

definition aliases_ByTenantAndAlias :: "string \<Rightarrow> string \<Rightarrow> CounterpartyAlias option uow" where
  "aliases_ByTenantAndAlias tenantID alias =
     bindE (query (\<lambda>d. db_alias d tenantID alias)) (\<lambda>row.
       case row of
         None \<Rightarrow> ret None
       | Some r \<Rightarrow> bindE (decide (reconstructCounterpartyAlias (al_tenant r) (al_alias r) (al_link r)
                                   (al_target_tenant r) (al_target_account r))) (\<lambda>a. ret (Some a)))"

section \<open>Reconstruction is faithful\<close>

text \<open>
  A stored row is read back as what was stored when its pair is canonical, which every row
  written through \<open>domain_AuthorizeTenantPair\<close> is; the pair of another row is swapped.
\<close>

lemma reconstructTenantLink_eq:
  "reconstructTenantLink i a b s =
     (case canonicalizePair a b of (x, y) \<Rightarrow>
        Inr \<lparr>link_id = i, link_tenantA = x, link_tenantB = y, link_status = s\<rparr>)"
  by (cases s) (auto simp: reconstructTenantLink_def domain_AuthorizeTenantPair_def canonicalizePair_def)

lemma reconstructTenantLink_canonical:
  "a \<le> b \<Longrightarrow> reconstructTenantLink i a b s =
     Inr \<lparr>link_id = i, link_tenantA = a, link_tenantB = b, link_status = s\<rparr>"
  by (auto simp: reconstructTenantLink_eq canonicalizePair_def dest: leD)

lemma reconstructCounterpartyAlias_eq:
  "reconstructCounterpartyAlias t a l tt ta =
     Inr \<lparr>ca_tenantID = t, ca_alias = a, ca_tenantLinkID = l, ca_targetTenantID = tt,
          ca_targetAccountID = ta\<rparr>"
  by (simp add: reconstructCounterpartyAlias_def domain_AuthorizeTenantPair_def
      domain_RegisterCounterpartyAlias_def split: prod.splits)
     (auto simp: canonicalizePair_def)

end
