(* ===== verification/TransferStore.thy ===== *)
theory TransferStore
  imports LinkStore
begin

text \<open>
  \<open>internal/adapters/postgres/transfer_state.go\<close>: the coordinator's process state. The Go
  driver reads a NULL text as the empty string, and \<open>toNullableString\<close> writes the empty
  string as NULL. \<open>time.Now\<close> and \<open>ports.Clock\<close> read the same stream here: \<open>cmd/api\<close> wires
  the one to the other.
\<close>

definition toNullableString :: "string \<Rightarrow> string option" where
  "toNullableString value = (if value = [] then None else Some value)"

definition null_string :: "string option \<Rightarrow> string" where
  "null_string v = (case v of None \<Rightarrow> [] | Some s \<Rightarrow> s)"

definition transfer_to_row :: "TransferState \<Rightarrow> transfer_row" where
  "transfer_to_row s =
     \<lparr>xr_id = ts_TransferID s, xr_tenant = ts_TenantID s, xr_key = ts_IdempotencyKey s,
      xr_status = ts_Status s, xr_leg1 = ts_Leg1Status s, xr_leg2 = ts_Leg2Status s,
      xr_leg3 = ts_Leg3Status s, xr_attempts1 = ts_Leg1Attempts s, xr_attempts2 = ts_Leg2Attempts s,
      xr_attempts3 = ts_Leg3Attempts s, xr_next = timestamptz (ts_NextAttemptAt s),
      xr_reason = toNullableString (ts_Reason s),
      xr_counterparty = toNullableString (ts_CounterpartyTenantID s),
      xr_target = toNullableString (ts_TargetAccountID s),
      xr_amount = minorUnits (ts_Amount s), xr_currency = toNullableString (currency (ts_Amount s))\<rparr>"

definition scanTransferState :: "transfer_row \<Rightarrow> Violation + TransferState" where
  "scanTransferState r =
     (let state = \<lparr>ts_TransferID = xr_id r, ts_TenantID = xr_tenant r, ts_IdempotencyKey = xr_key r,
        ts_Status = xr_status r, ts_Leg1Status = xr_leg1 r, ts_Leg2Status = xr_leg2 r,
        ts_Leg3Status = xr_leg3 r, ts_Leg1Attempts = xr_attempts1 r, ts_Leg2Attempts = xr_attempts2 r,
        ts_Leg3Attempts = xr_attempts3 r, ts_NextAttemptAt = xr_next r,
        ts_Reason = null_string (xr_reason r),
        ts_CounterpartyTenantID = null_string (xr_counterparty r),
        ts_TargetAccountID = null_string (xr_target r), ts_Amount = Money_zero_value\<rparr>
      in case xr_currency r of
           None \<Rightarrow> Inr state
         | Some c \<Rightarrow> (case NewMoney (xr_amount r) c of
             Inl e \<Rightarrow> Inl e
           | Inr amount \<Rightarrow> Inr (state\<lparr>ts_Amount := amount\<rparr>)))"

definition transfers_Create :: "TransferState \<Rightarrow> unit uow" where
  "transfers_Create state = command (insert_transfer (transfer_to_row state))"

definition scan_found :: "transfer_row option \<Rightarrow> TransferState option uow" where
  "scan_found row = (case row of
     None \<Rightarrow> ret None
   | Some r \<Rightarrow> bindE (decide (scanTransferState r)) (\<lambda>s. ret (Some s)))"

definition transfers_Get :: "string \<Rightarrow> TransferState option uow" where
  "transfers_Get transferID = bindE (query (\<lambda>d. db_transfer d transferID)) scan_found"

definition ByTenantAndIdempotencyKey :: "string \<Rightarrow> string \<Rightarrow> TransferState option uow" where
  "ByTenantAndIdempotencyKey tenantID idempotencyKey =
     bindE (query (\<lambda>d. List.find (\<lambda>r. xr_tenant r = tenantID \<and> xr_key r = idempotencyKey)
        (transfer_states d))) scan_found"

text \<open>An UPDATE by primary key: the number of rows it affects and what it leaves.\<close>

definition update_transfer ::
  "string \<Rightarrow> (transfer_row \<Rightarrow> transfer_row) \<Rightarrow> db \<Rightarrow> go_error + (nat \<times> db)" where
  "update_transfer transferID f d =
     Inr (length (filter (\<lambda>r. xr_id r = transferID) (transfer_states d)),
          d\<lparr>transfer_states := map (\<lambda>r. if xr_id r = transferID then f r else r) (transfer_states d)\<rparr>)"

definition UpdateStatus :: "string \<Rightarrow> string \<Rightarrow> string \<Rightarrow> unit uow" where
  "UpdateStatus transferID status reason =
     bindE (command (update_transfer transferID (\<lambda>r.
        r\<lparr>xr_status := status, xr_reason := toNullableString reason\<rparr>))) (\<lambda>rowsAffected.
       if rowsAffected = 0 then throw (ErrInfra ''no matching row'') else ret ())"

definition AdvanceAfterLegOutcome :: "string \<Rightarrow> string \<Rightarrow> time \<Rightarrow> string \<Rightarrow> unit uow" where
  "AdvanceAfterLegOutcome transferID status nextAttemptAt reason =
     bindE (command (update_transfer transferID (\<lambda>r.
        r\<lparr>xr_status := status, xr_next := timestamptz nextAttemptAt,
          xr_reason := toNullableString reason\<rparr>))) (\<lambda>rowsAffected.
       if rowsAffected = 0 then throw (ErrInfra ''no matching row'') else ret ())"

text \<open>Go's \<open>\&\&\<close> reads the clock only when the status is due.\<close>

definition transferStateIsDue :: "TransferState \<Rightarrow> bool uow" where
  "transferStateIsDue state =
     (if ts_Status state = ''pending'' \<or> ts_Status state = ''retrying''
      then bindE clock (\<lambda>now. ret (\<not> ts_NextAttemptAt state > now))
      else ret False)"

definition ClaimOne :: "string \<Rightarrow> time \<Rightarrow> TransferState option uow" where
  "ClaimOne transferID leaseDuration =
     bindE (select_for_update (TransferRow transferID) (\<lambda>d. db_transfer d transferID)) (\<lambda>row.
     bindE (scan_found row) (\<lambda>found.
       case found of
         None \<Rightarrow> ret None
       | Some state \<Rightarrow>
           bindE (transferStateIsDue state) (\<lambda>due.
             if \<not> due then ret None
             else
               bindE clock (\<lambda>now.
                 let extendedNextAttempt = now + leaseDuration
                 in bindE (command (update_transfer transferID (\<lambda>r.
                      r\<lparr>xr_next := timestamptz extendedNextAttempt\<rparr>))) (\<lambda>_.
                    ret (Some (state\<lparr>ts_NextAttemptAt := extendedNextAttempt\<rparr>)))))))"

definition due_row :: "time \<Rightarrow> transfer_row \<Rightarrow> bool" where
  "due_row now r \<longleftrightarrow> (xr_status r = ''pending'' \<or> xr_status r = ''retrying'') \<and> xr_next r \<le> now"

definition ClaimDue :: "time \<Rightarrow> nat \<Rightarrow> string list uow" where
  "ClaimDue now batchLimit =
     query (\<lambda>d. map xr_id (take batchLimit
        (sort_key xr_next (filter (due_row (timestamptz now)) (transfer_states d)))))"

section \<open>Round trip\<close>

lemma null_string_toNullableString [simp]: "null_string (toNullableString s) = s"
  by (simp add: null_string_def toNullableString_def)

text \<open>What is read back is what was written, up to the microsecond.\<close>

lemma scanTransferState_transfer_to_row:
  assumes "known_currency (currency (ts_Amount s))" and "currency (ts_Amount s) \<noteq> []"
  shows "scanTransferState (transfer_to_row s) =
           Inr (s\<lparr>ts_NextAttemptAt := timestamptz (ts_NextAttemptAt s)\<rparr>)"
  using assms
  by (simp add: scanTransferState_def transfer_to_row_def toNullableString_def [of "currency _"] NewMoney_eq)

end
