(* ===== verification/Ledger.thy ===== *)
theory Ledger
  imports TransferStore
begin

text \<open>
  \<open>internal/app/usecases.go\<close>: the effect shell. Each use case is one unit of work, written
  in the order of the source: the reads, the pure decision, the writes.
\<close>

section \<open>Requests and answers\<close>

record TransferRequest =
  req_From :: string
  req_To :: string
  req_Amount :: Money
  req_IdempotencyKey :: string
  req_Fingerprint :: string
  req_TenantID :: string

record Result =
  res_Posting :: Posting
  res_Replayed :: bool

record TracedEntry =
  trace_TenantID :: string
  trace_Entry :: Entry
  trace_RunningBalance :: Money

record Drift =
  drift_TenantID :: string
  drift_AccountID :: string
  drift_Stored :: Money
  drift_Computed :: Money
  drift_Delta :: Money

record BooksReport =
  rep_Balanced :: bool
  rep_TrialBalance :: Money
  rep_EntryCount :: int
  rep_ElapsedMillis :: int
  rep_Drifted :: "Drift list"

record ProvisionedTenant =
  prov_TenantID :: string
  prov_Name :: string
  prov_TenantKey :: string

definition ledgerCurrency :: string where
  "ledgerCurrency = ''USD''"

text \<open>\<open>errors.As\<close> into a \<open>Violation\<close>, and its kind.\<close>

definition is_violation :: "ViolationKind \<Rightarrow> go_error \<Rightarrow> bool" where
  "is_violation k e = (case e of ErrViolation v \<Rightarrow> v_kind v = k | _ \<Rightarrow> False)"

text \<open>A call whose error the caller looks at before it returns.\<close>

definition attempt :: "('a, 's) call \<Rightarrow> (go_error + 'a, 's) call" where
  "attempt m w = (case m w of (r, w') \<Rightarrow> (Inr r, w'))"

section \<open>Posting a transfer\<close>

definition post_body :: "TransferRequest \<Rightarrow> Result uow" where
  "post_body cmd =
     bindE (idempotency_Lookup (req_IdempotencyKey cmd)) (\<lambda>found.
       case found of
         Some claim \<Rightarrow>
           if claim_Fingerprint claim \<noteq> req_Fingerprint cmd then throw ErrIdempotencyKeyConflict
           else bindE (transactions_Get (req_TenantID cmd) (claim_TransactionID claim)) (\<lambda>posting.
             ret \<lparr>res_Posting = posting, res_Replayed = True\<rparr>)
       | None \<Rightarrow>
           bindE (LockForUpdate (req_TenantID cmd) [req_From cmd, req_To cmd]) (\<lambda>snapshots.
           bindE clock (\<lambda>now.
           bindE nextID (\<lambda>transactionID.
           bindE (decide (Post \<lparr>cmd_From = req_From cmd, cmd_To = req_To cmd,
                   cmd_Amount = req_Amount cmd, cmd_TenantID = req_TenantID cmd\<rparr>
                   snapshots now transactionID)) (\<lambda>posting.
           bindE (Append (req_TenantID cmd) posting) (\<lambda>_.
           bindE (ApplyDeltas (req_TenantID cmd) (p_Deltas posting)) (\<lambda>_.
           bindE (idempotency_Claim (req_IdempotencyKey cmd) (req_Fingerprint cmd) transactionID) (\<lambda>_.
             ret \<lparr>res_Posting = posting, res_Replayed = False\<rparr>))))))))"

text \<open>
  A lost claim race is answered by calling \<open>PostTransfer\<close> again. \<open>None\<close> is a call that never
  returns. In Go the rollback of the lost attempt is deferred until the inner call has
  returned; what an open unit of work wrote is invisible to every other one, so the model
  rolls back first.
\<close>

partial_function (option) PostTransfer_loop ::
  "TransferRequest \<Rightarrow> world \<Rightarrow> ((go_error + Result) \<times> world) option" where
  "PostTransfer_loop cmd w =
     (let r = withUnitOfWork (post_body cmd) w
      in if fst r = Inl ErrIdempotencyKeyClaimConflict then PostTransfer_loop cmd (snd r) else Some r)"

declare PostTransfer_loop.simps [code]

definition PostTransfer :: "TransferRequest \<Rightarrow> Result uow" where
  "PostTransfer cmd w =
     (case PostTransfer_loop cmd w of Some r \<Rightarrow> r | None \<Rightarrow> (Inl (ErrInfra ''never returns''), w))"

section \<open>Accounts and tenants\<close>

definition accountAlreadyOpen :: "string \<Rightarrow> string \<Rightarrow> bool uow" where
  "accountAlreadyOpen tenantID accountID =
     bindE (attempt (accounts_Get tenantID accountID)) (\<lambda>r. case r of
       Inr _ \<Rightarrow> ret True
     | Inl e \<Rightarrow> if is_violation UnknownAccount e then ret False else throw e)"

definition CreateAccount :: "string \<Rightarrow> string \<Rightarrow> AccountKind \<Rightarrow> unit uow" where
  "CreateAccount tenantID accountID kind =
     bindE (decide (NewMoney 0 ledgerCurrency)) (\<lambda>openingBalance.
       withUnitOfWork
         (bindE (accountAlreadyOpen tenantID accountID) (\<lambda>alreadyOpen.
          bindE (decide (OpenAccount tenantID accountID kind openingBalance alreadyOpen)) (\<lambda>account.
            accounts_Create tenantID account))))"

definition tenantNameAlreadyTaken :: "string \<Rightarrow> bool uow" where
  "tenantNameAlreadyTaken name =
     bindE (attempt (tenants_ByName name)) (\<lambda>r. case r of
       Inr _ \<Rightarrow> ret True
     | Inl e \<Rightarrow> if is_violation TenantNotFound e then ret False else throw e)"

definition ProvisionTenant :: "string \<Rightarrow> ProvisionedTenant uow" where
  "ProvisionTenant name =
     withUnitOfWork
       (bindE (tenantNameAlreadyTaken name) (\<lambda>alreadyTaken.
        bindE nextID (\<lambda>i.
        let tenantID = ''tnt_'' @ i in
        bindE nextID (\<lambda>j.
        let tenantKey = ''tk_'' @ j in
        bindE (decide (domain_ProvisionTenant tenantID name tenantKey alreadyTaken)) (\<lambda>tenant.
        bindE (tenants_Create tenant) (\<lambda>_.
          ret \<lparr>prov_TenantID = tenant_id tenant, prov_Name = tenant_name tenant,
               prov_TenantKey = tenant_credential tenant\<rparr>))))))"

section \<open>Links and aliases\<close>

fun provisionedTenants :: "string list \<Rightarrow> string set uow" where
  "provisionedTenants [] = ret {}"
| "provisionedTenants (t # ts) =
     bindE (attempt (tenants_ByID t)) (\<lambda>r. case r of
       Inr _ \<Rightarrow> bindE (provisionedTenants ts) (\<lambda>known. ret (insert t known))
     | Inl e \<Rightarrow> if is_violation TenantNotFound e then provisionedTenants ts else throw e)"

definition activeLinkSnapshot :: "string \<Rightarrow> string \<Rightarrow> TenantLink list uow" where
  "activeLinkSnapshot tenantA tenantB =
     bindE (links_ActiveByPair tenantA tenantB) (\<lambda>found.
       case found of None \<Rightarrow> ret [] | Some l \<Rightarrow> ret [l])"

definition AuthorizeTenantPair :: "string \<Rightarrow> string \<Rightarrow> TenantLink uow" where
  "AuthorizeTenantPair tenantA tenantB =
     withUnitOfWork
       (bindE (provisionedTenants [tenantA, tenantB]) (\<lambda>knownTenants.
        bindE (activeLinkSnapshot tenantA tenantB) (\<lambda>existingLinks.
        bindE nextID (\<lambda>i.
        let linkID = ''lnk_'' @ i in
        bindE (decide (domain_AuthorizeTenantPair linkID tenantA tenantB existingLinks
                 (\<lambda>t. t \<in> knownTenants))) (\<lambda>l.
        bindE (links_Create l) (\<lambda>_. ret l))))))"

text \<open>The zero value of a link, whose status is neither constant; only read when found.\<close>

definition RegisterCounterpartyAlias ::
  "string \<Rightarrow> string \<Rightarrow> string \<Rightarrow> string \<Rightarrow> CounterpartyAlias uow" where
  "RegisterCounterpartyAlias tenantID alias targetTenantID targetAccountID =
     withUnitOfWork
       (bindE (links_ActiveByPair tenantID targetTenantID) (\<lambda>linkSnapshot.
        bindE (decide (case linkSnapshot of
            None \<Rightarrow> domain_RegisterCounterpartyAlias tenantID alias
                      \<lparr>link_id = [], link_tenantA = [], link_tenantB = [], link_status = TenantLinkRevoked\<rparr>
                      False targetTenantID targetAccountID
          | Some l \<Rightarrow> domain_RegisterCounterpartyAlias tenantID alias l True
                        targetTenantID targetAccountID)) (\<lambda>registered.
        bindE (aliases_Create registered) (\<lambda>_. ret registered))))"

definition tenantLinkSnapshot :: "string \<Rightarrow> TenantLink list uow" where
  "tenantLinkSnapshot linkID =
     bindE (attempt (links_ByID linkID)) (\<lambda>r. case r of
       Inr l \<Rightarrow> ret [l]
     | Inl e \<Rightarrow> if is_violation TenantLinkNotFound e then ret [] else throw e)"

definition RevokeTenantLink :: "string \<Rightarrow> unit uow" where
  "RevokeTenantLink linkID =
     withUnitOfWork
       (bindE (tenantLinkSnapshot linkID) (\<lambda>existingLinks.
        bindE (decide (domain_RevokeTenantLink linkID existingLinks)) (\<lambda>revoked.
          links_Revoke (link_id revoked))))"

section \<open>Reading\<close>

definition GetBalance :: "string \<Rightarrow> string \<Rightarrow> Account uow" where
  "GetBalance tenantID accountID = withUnitOfWork (accounts_Get tenantID accountID)"

definition zeroMoney :: "string \<Rightarrow> Violation + Money" where
  "zeroMoney c = NewMoney 0 c"

text \<open>The loop of \<open>runningBalances\<close>: \<open>None\<close> before the first row, then the current tenant and sum.\<close>

fun running_loop :: "(string \<times> Money) option \<Rightarrow> TenantEntry list \<Rightarrow> Violation + TracedEntry list" where
  "running_loop st [] = Inr []"
| "running_loop st (row # rows) =
     (let start = (case st of
          Some (currentTenant, running) \<Rightarrow>
            if te_TenantID row \<noteq> currentTenant then zeroMoney (currency (e_amount (te_Entry row)))
            else Inr running
        | None \<Rightarrow> zeroMoney (currency (e_amount (te_Entry row))))
      in case start of
           Inl e \<Rightarrow> Inl e
         | Inr r0 \<Rightarrow>
        (case Money_Add r0 (e_amount (te_Entry row)) of
           Inl e \<Rightarrow> Inl e
         | Inr running \<Rightarrow>
        (case running_loop (Some (te_TenantID row, running)) rows of
           Inl e \<Rightarrow> Inl e
         | Inr traced \<Rightarrow>
             Inr (\<lparr>trace_TenantID = te_TenantID row, trace_Entry = te_Entry row,
                   trace_RunningBalance = running\<rparr> # traced))))"

definition runningBalances :: "TenantEntry list \<Rightarrow> Violation + TracedEntry list" where
  "runningBalances es = running_loop None es"

definition GetEntries :: "TenantScope \<Rightarrow> string \<Rightarrow> TracedEntry list uow" where
  "GetEntries scope accountID =
     bindE (withUnitOfWork
       (case Resolve scope of (tenantID, scoped) \<Rightarrow>
          bindE (if scoped then bindE (accounts_Get tenantID accountID) (\<lambda>_. ret ())
                 else bindE (ExistsAnyTenant accountID) (\<lambda>exists.
                   if \<not> exists then throw (ErrViolation (NewUnknownAccount accountID)) else ret ()))
            (\<lambda>_. EntriesFor scope accountID)))
       (\<lambda>es. decide (runningBalances es))"

text \<open>The pure comparison of \<open>VerifyBooks\<close>; Go's \<open>==\<close> on \<open>Money\<close> is equality of both fields.\<close>

fun driftedAccounts :: "Account list \<Rightarrow> (AccountKey \<Rightarrow> Money option) \<Rightarrow> Violation + Drift list" where
  "driftedAccounts [] computed = Inr []"
| "driftedAccounts (account # rest) computed =
     (let stored = acct_balance account in
      case (case computed (acct_tenantID account, acct_id account) of
              None \<Rightarrow> zeroMoney (currency stored)
            | Some b \<Rightarrow> Inr b) of
        Inl e \<Rightarrow> Inl e
      | Inr balance \<Rightarrow>
          if balance = stored then driftedAccounts rest computed
          else (case Money_Add balance (Money_Negate stored) of
            Inl e \<Rightarrow> Inl e
          | Inr delta \<Rightarrow>
              (case driftedAccounts rest computed of
                 Inl e \<Rightarrow> Inl e
               | Inr drifted \<Rightarrow>
                   Inr (\<lparr>drift_TenantID = acct_tenantID account, drift_AccountID = acct_id account,
                         drift_Stored = stored, drift_Computed = balance, drift_Delta = delta\<rparr>
                        # drifted))))"

text \<open>\<open>Duration.Milliseconds\<close> truncates towards zero.\<close>

definition milliseconds :: "time \<Rightarrow> int" where
  "milliseconds d = (if d < 0 then - ((- d) div 1000000) else d div 1000000)"

definition verify_body :: "TenantScope \<Rightarrow> BooksReport uow" where
  "verify_body scope =
     (case Resolve scope of (tenantID, scoped) \<Rightarrow>
       bindE (if scoped then bindE (tenants_ByID tenantID) (\<lambda>_. ret ()) else ret ()) (\<lambda>_.
       bindE (accounts_All scope) (\<lambda>as.
       bindE (ComputedBalances scope) (\<lambda>computed.
       bindE (TrialBalance scope) (\<lambda>(trialBalance, entryCount).
       bindE (decide (driftedAccounts as computed)) (\<lambda>drifted.
         ret \<lparr>rep_Balanced = (length drifted = 0), rep_TrialBalance = trialBalance,
              rep_EntryCount = entryCount, rep_ElapsedMillis = 0, rep_Drifted = drifted\<rparr>))))))"

definition VerifyBooks :: "TenantScope \<Rightarrow> BooksReport uow" where
  "VerifyBooks scope =
     bindE clock (\<lambda>started.
     bindE (withUnitOfWork (verify_body scope)) (\<lambda>report.
     bindE clock (\<lambda>now.
       ret (report\<lparr>rep_ElapsedMillis := milliseconds (now - started)\<rparr>))))"

section \<open>Proof rules\<close>

lemma wp_attempt [simp]: "wp (attempt m) Q E w = wp m (\<lambda>x. Q (Inr x)) (\<lambda>e. Q (Inl e)) w"
  by (cases "m w"; cases "fst (m w)") (simp_all add: wp_def attempt_def)

end
