(* ===== verification/Backoff.thy ===== *)
theory Backoff
  imports Complex_Main Ports
begin

text \<open>
  \<open>backoffSchedule\<close> and \<open>backoffForAttempt\<close> of \<open>internal/app/transfer_coordinator.go\<close>, with the
  \<open>float64\<close> arithmetic of the jitter written out: a non-negative \<open>float64\<close> is a mantissa below
  \<open>2 ^ 53\<close> times a power of two, and every operation rounds to nearest, ties to even. The
  values here stay far from the subnormal and the overflow range, and no multiply-add is
  fused (the compiler's default on amd64).
\<close>

section \<open>\<open>float64\<close>\<close>

type_synonym float64 = "int \<times> int"

function excess :: "int \<Rightarrow> nat" where
  "excess m = (if m < 2 ^ 53 then 0 else Suc (excess (m div 2)))"
  by auto

termination
  by (relation "measure nat") auto

declare excess.simps [simp del]

definition round_half_even :: "int \<Rightarrow> nat \<Rightarrow> int" where
  "round_half_even m k =
     (let q = m div 2 ^ k; r = m mod 2 ^ k
      in if 2 ^ k < 2 * r \<or> (2 * r = 2 ^ k \<and> odd q) then q + 1 else q)"

definition float_round :: "int \<Rightarrow> int \<Rightarrow> float64" where
  "float_round m e = (let k = excess m in (round_half_even m k, e + int k))"

fun float_mul :: "float64 \<Rightarrow> float64 \<Rightarrow> float64" where
  "float_mul (m, e) (n, f) = float_round (m * n) (e + f)"

fun float_add :: "float64 \<Rightarrow> float64 \<Rightarrow> float64" where
  "float_add (m, e) (n, f) =
     (let g = min e f in float_round (m * 2 ^ nat (e - g) + n * 2 ^ nat (f - g)) g)"

text \<open>Conversion to an integer truncates.\<close>

fun float_trunc :: "float64 \<Rightarrow> int" where
  "float_trunc (m, e) = (if 0 \<le> e then m * 2 ^ nat e else m div 2 ^ nat (- e))"

section \<open>The schedule\<close>

definition second :: time where
  "second = 1000000000"

definition retryBudget :: int where
  "retryBudget = 5"

text \<open>The array literal leaves index 0 at the zero value.\<close>

definition backoffSchedule :: "time list" where
  "backoffSchedule = [0, 1 * second, 2 * second, 4 * second, 8 * second]"

text \<open>The constants \<open>1 - backoffJitterSpread\<close> and \<open>2 * backoffJitterSpread\<close>, rounded to \<open>float64\<close>.\<close>

definition float_0_8 :: float64 where
  "float_0_8 = (7205759403792794, -53)"

definition float_0_4 :: float64 where
  "float_0_4 = (7205759403792794, -54)"

text \<open>\<open>rand.Float64\<close> answers \<open>j / 2 ^ 53\<close> for a \<open>j\<close> below \<open>2 ^ 53\<close>.\<close>

definition backoffForAttempt :: "int \<Rightarrow> int \<Rightarrow> time \<times> bool" where
  "backoffForAttempt failedAttempts j =
     (if failedAttempts < 1 \<or> retryBudget \<le> failedAttempts then (0, False)
      else
        let base = backoffSchedule ! nat failedAttempts;
            multiplier = float_add float_0_8 (float_mul (j, -53) float_0_4)
        in (float_trunc (float_mul (base, 0) multiplier), True))"

section \<open>Rounding errors\<close>

definition float_val :: "float64 \<Rightarrow> real" where
  "float_val x = real_of_int (fst x) * 2 powr real_of_int (snd x)"

lemma excess_bounds: "2 ^ 53 \<le> m \<Longrightarrow> 2 ^ (52 + excess m) \<le> m"
proof (induction m rule: excess.induct)
  case (1 m)
  show ?case
  proof (cases "m div 2 < 2 ^ 53")
    case True
    then have "excess m = 1" using "1.prems" by (simp add: excess.simps [of m] excess.simps [of "m div 2"])
    then show ?thesis using "1.prems" by simp
  next
    case False
    then have "2 ^ (52 + excess (m div 2)) \<le> m div 2" using 1 by simp
    then have "2 * 2 ^ (52 + excess (m div 2)) \<le> m" by linarith
    moreover have "excess m = Suc (excess (m div 2))" using "1.prems" by (simp add: excess.simps [of m])
    ultimately show ?thesis by (metis add_Suc_right power_Suc)
  qed
qed

lemma round_half_even_error: "\<bar>real_of_int (round_half_even m k) * 2 ^ k - real_of_int m\<bar> \<le> 2 ^ k / 2"
proof -
  define q r where "q = m div 2 ^ k" and "r = m mod 2 ^ k"
  have m: "real_of_int m = real_of_int q * 2 ^ k + real_of_int r"
  proof -
    have "m = q * 2 ^ k + r" unfolding q_def r_def by (rule div_mult_mod_eq [symmetric])
    then show ?thesis by (metis of_int_add of_int_mult of_int_power of_int_numeral)
  qed
  have r: "real_of_int r < 2 ^ k"
  proof -
    have "r < 2 ^ k" by (simp add: r_def)
    then show ?thesis by (metis of_int_less_iff of_int_power of_int_numeral)
  qed
  show ?thesis
  proof (cases "2 ^ k < 2 * r \<or> (2 * r = 2 ^ k \<and> odd q)")
    case True
    then have "2 ^ k \<le> 2 * r" by auto
    then have "2 ^ k \<le> 2 * real_of_int r" by (metis of_int_le_iff of_int_power of_int_numeral of_int_mult)
    moreover have "real_of_int (round_half_even m k) = real_of_int q + 1"
      using True by (simp add: round_half_even_def q_def r_def)
    ultimately show ?thesis using m r by (simp add: algebra_simps)
  next
    case False
    then have "2 * r \<le> 2 ^ k" by auto
    then have "2 * real_of_int r \<le> 2 ^ k" by (metis of_int_le_iff of_int_power of_int_numeral of_int_mult)
    moreover have "real_of_int (round_half_even m k) = real_of_int q"
      using False by (auto simp: round_half_even_def q_def r_def Let_def)
    moreover have "0 \<le> r" by (simp add: r_def)
    ultimately show ?thesis using m by simp
  qed
qed

lemma float_nonneg: "0 \<le> m \<Longrightarrow> 0 \<le> fst (float_round m e)"
  by (simp add: float_round_def round_half_even_def Let_def pos_imp_zdiv_nonneg_iff)

text \<open>One rounding is off by at most half a unit in the last of 53 places.\<close>

lemma float_round_error:
  assumes "0 \<le> m"
  shows "\<bar>float_val (float_round m e) - real_of_int m * 2 powr e\<bar> \<le> real_of_int m * 2 powr e / 2 ^ 53"
proof (cases "m < 2 ^ 53")
  case True
  then show ?thesis using assms
    by (simp add: float_round_def excess.simps [of m] round_half_even_def float_val_def)
next
  case False
  define k where "k = excess m"
  have "2 ^ (52 + k) \<le> m" using False excess_bounds [of m] by (simp add: k_def)
  then have "(2::real) ^ (52 + k) \<le> real_of_int m" by (metis of_int_le_iff of_int_power of_int_numeral)
  then have small: "2 ^ k / 2 \<le> real_of_int m / 2 ^ 53" by (simp add: power_add field_simps)
  have "float_val (float_round m e) = real_of_int (round_half_even m k) * 2 ^ k * 2 powr e"
    by (simp add: float_val_def float_round_def k_def powr_add powr_realpow Let_def)
  then have "float_val (float_round m e) - real_of_int m * 2 powr e =
      (real_of_int (round_half_even m k) * 2 ^ k - real_of_int m) * 2 powr e"
    by (simp add: left_diff_distrib)
  then have "\<bar>float_val (float_round m e) - real_of_int m * 2 powr e\<bar> =
      \<bar>real_of_int (round_half_even m k) * 2 ^ k - real_of_int m\<bar> * 2 powr e"
    by (simp add: abs_mult)
  also have "\<dots> \<le> (real_of_int m / 2 ^ 53) * 2 powr e"
    using round_half_even_error [of m k] small by (intro mult_right_mono) auto
  finally show ?thesis by simp
qed

lemma float_mul_error:
  "0 \<le> fst x \<Longrightarrow> 0 \<le> fst y \<Longrightarrow>
   \<bar>float_val (float_mul x y) - float_val x * float_val y\<bar> \<le> float_val x * float_val y / 2 ^ 53"
  using float_round_error [of "fst x * fst y" "snd x + snd y"]
  by (cases x; cases y) (simp add: float_val_def powr_add algebra_simps)

lemma float_add_error:
  assumes "0 \<le> fst x" and "0 \<le> fst y"
  shows "\<bar>float_val (float_add x y) - (float_val x + float_val y)\<bar> \<le> (float_val x + float_val y) / 2 ^ 53"
proof -
  obtain m e n f where xy: "x = (m, e)" "y = (n, f)" by (cases x; cases y)
  define g where "g = min e f"
  have shift: "real_of_int a * 2 ^ nat (h - g) * 2 powr g = real_of_int a * 2 powr h" if "g \<le> h" for a h
  proof -
    have "(2::real) ^ nat (h - g) = 2 powr (h - g)" using that by (simp add: powr_realpow [symmetric])
    then show ?thesis by (simp add: powr_diff)
  qed
  have "real_of_int (m * 2 ^ nat (e - g) + n * 2 ^ nat (f - g)) * 2 powr g = float_val x + float_val y"
  proof -
    have "real_of_int m * 2 ^ nat (e - g) * 2 powr g = float_val x" "real_of_int n * 2 ^ nat (f - g) * 2 powr g = float_val y"
      using shift [of e m] shift [of f n] by (simp_all add: xy float_val_def g_def)
    then show ?thesis by (simp only: of_int_add of_int_mult of_int_power of_int_numeral distrib_right)
  qed
  then show ?thesis
    using float_round_error [of "m * 2 ^ nat (e - g) + n * 2 ^ nat (f - g)" g]
    using assms by (simp add: xy g_def Let_def)
qed

lemma float_trunc_floor: "float_trunc x = \<lfloor>float_val x\<rfloor>"
proof (cases x)
  case (Pair m e)
  show ?thesis
  proof (cases "0 \<le> e")
    case True
    have "float_val x = real_of_int (m * 2 ^ nat e)" using True by (simp add: Pair float_val_def powr_realpow [symmetric])
    then have "\<lfloor>float_val x\<rfloor> = m * 2 ^ nat e" by (simp only: floor_of_int)
    then show ?thesis using True Pair by simp
  next
    case False
    have "(2::real) powr e = 1 / 2 powr (- e)" by (simp add: powr_minus divide_simps)
    also have "\<dots> = 1 / 2 ^ nat (- e)" using False by (simp add: powr_realpow [symmetric])
    finally have "float_val x = real_of_int m / real_of_int (2 ^ nat (- e))" by (simp add: Pair float_val_def)
    then have "\<lfloor>float_val x\<rfloor> = m div 2 ^ nat (- e)" by (simp only: floor_divide_of_int_eq)
    then show ?thesis using False Pair by simp
  qed
qed

lemma powers:
  "(2::real) ^ 50 = 1125899906842624" "(2::real) ^ 51 = 2251799813685248"
  "(2::real) ^ 53 = 9007199254740992" "(2::real) ^ 54 = 18014398509481984"
  by simp_all

text \<open>The multiplier, from a draw below one.\<close>

lemma multiplier_bounds:
  assumes "0 \<le> j" and "j < 2 ^ 53"
  shows "4 / 5 - 1 / 2 ^ 51 \<le> float_val (float_add float_0_8 (float_mul (j, -53) float_0_4))"
    and "float_val (float_add float_0_8 (float_mul (j, -53) float_0_4)) \<le> 6 / 5 + 1 / 2 ^ 50"
proof -
  have p: "(2::real) powr (- 53) = 1 / 2 ^ 53" "(2::real) powr (- 54) = 1 / 2 ^ 54"
    by (simp_all add: powr_minus divide_simps powr_numeral)
  have c: "float_val float_0_8 = 7205759403792794 / 2 ^ 53" "float_val float_0_4 = 7205759403792794 / 2 ^ 54"
    by (simp_all add: float_val_def float_0_8_def float_0_4_def p)
  have j: "0 \<le> float_val (j, -53)" "float_val (j, -53) \<le> 1"
  proof -
    have "real_of_int j \<le> 2 ^ 53" using assms(2) by (metis less_imp_le of_int_le_iff of_int_power of_int_numeral)
    then show "0 \<le> float_val (j, -53)" "float_val (j, -53) \<le> 1"
      using assms(1) by (simp_all add: float_val_def p)
  qed
  define t where "t = float_val (j, -53) * float_val float_0_4"
  have t: "0 \<le> t" "t \<le> 7205759403792794 / 2 ^ 54" using j by (simp_all add: t_def c)
  define u where "u = float_val (float_mul (j, -53) float_0_4)"
  have u: "\<bar>u - t\<bar> \<le> t / 2 ^ 53" unfolding u_def t_def
    by (rule float_mul_error) (use assms(1) in \<open>simp_all add: float_0_4_def\<close>)
  define v where "v = float_val (float_add float_0_8 (float_mul (j, -53) float_0_4))"
  have v: "\<bar>v - (float_val float_0_8 + u)\<bar> \<le> (float_val float_0_8 + u) / 2 ^ 53"
    unfolding u_def v_def
    by (rule float_add_error) (use assms(1) in \<open>simp_all add: float_0_8_def float_0_4_def float_nonneg\<close>)
  note bounds = abs_le_D1 [OF u] abs_le_D2 [OF u] abs_le_D1 [OF v] abs_le_D2 [OF v]
  show "4 / 5 - 1 / 2 ^ 51 \<le> float_val (float_add float_0_8 (float_mul (j, -53) float_0_4))"
    unfolding v_def [symmetric] using bounds t unfolding c powers by argo
  show "float_val (float_add float_0_8 (float_mul (j, -53) float_0_4)) \<le> 6 / 5 + 1 / 2 ^ 50"
    unfolding v_def [symmetric] using bounds t unfolding c powers by argo
qed

lemma backoff_base: "1 \<le> n \<Longrightarrow> n < retryBudget \<Longrightarrow> backoffSchedule ! nat n = 2 ^ nat (n - 1) * second"
proof -
  assume n: "1 \<le> n" "n < retryBudget"
  then have "n = 1 \<or> n = 2 \<or> n = 3 \<or> n = 4" by (auto simp: retryBudget_def)
  then show ?thesis by (auto simp: backoffSchedule_def)
qed

lemma backoff_delay_floor:
  assumes "1 \<le> n" and "n < retryBudget" and "0 \<le> j" and "j < 2 ^ 53"
  obtains s :: real where "fst (backoffForAttempt n j) = \<lfloor>s\<rfloor>"
    and "(4 / 5 * 2 ^ nat (n - 1)) * 1000000000 - 1 / 1000 \<le> s"
    and "s \<le> (6 / 5 * 2 ^ nat (n - 1)) * 1000000000 + 1 / 1000"
proof -
  define b where "b = backoffSchedule ! nat n"
  define mu where "mu = float_add float_0_8 (float_mul (j, -53) float_0_4)"
  define s where "s = float_val (float_mul (b, 0) mu)"
  define B :: real where "B = 2 ^ nat (n - 1) * 1000000000"
  have b: "float_val (b, 0) = B"
    using backoff_base [OF assms(1,2)] by (simp add: float_val_def b_def B_def second_def nat_mult_distrib nat_power_eq)
  have "n = 1 \<or> n = 2 \<or> n = 3 \<or> n = 4" using assms(1,2) by (auto simp: retryBudget_def)
  then have B: "1000000000 \<le> B" "B \<le> 8000000000" by (auto simp: B_def)
  have mu: "4 / 5 - 1 / 2 ^ 51 \<le> float_val mu" "float_val mu \<le> 6 / 5 + 1 / 2 ^ 50"
    using multiplier_bounds [OF assms(3,4)] by (simp_all add: mu_def)
  have nonneg: "0 \<le> b" "0 \<le> fst mu"
  proof -
    have "0 \<le> float_val (b, 0)" using b B by simp
    then show "0 \<le> b" by (simp add: float_val_def)
    have "0 < float_val mu" using mu(1) unfolding powers by argo
    then show "0 \<le> fst mu" by (simp add: float_val_def zero_less_mult_iff)
  qed
  define P where "P = B * float_val mu"
  have e: "\<bar>s - P\<bar> \<le> P / 2 ^ 53"
    unfolding s_def P_def using float_mul_error [of "(b, 0)" mu] nonneg by (simp add: b)
  have P: "B * (4 / 5 - 1 / 2 ^ 51) \<le> P" "P \<le> B * (6 / 5 + 1 / 2 ^ 50)"
    using mu B unfolding P_def by (auto intro: mult_left_mono)
  have "4 / 5 * B - 1 / 1000 \<le> s" using abs_le_D2 [OF e] P B unfolding powers by argo
  moreover have "s \<le> 6 / 5 * B + 1 / 1000" using abs_le_D1 [OF e] P B unfolding powers by argo
  moreover have "fst (backoffForAttempt n j) = \<lfloor>s\<rfloor>"
    using assms float_trunc_floor [of "float_mul (b, 0) mu"]
    by (simp add: backoffForAttempt_def b_def mu_def s_def Let_def)
  ultimately show thesis by (intro that) (simp_all add: B_def)
qed

lemma backoff_within:
  assumes "1 \<le> n" and "n < retryBudget" and "0 \<le> j" and "j < 2 ^ 53"
  shows "snd (backoffForAttempt n j)"
    and "800000000 * 2 ^ nat (n - 1) - 1 \<le> fst (backoffForAttempt n j)"
    and "fst (backoffForAttempt n j) \<le> 1200000000 * 2 ^ nat (n - 1)"
proof -
  obtain s :: real where s: "fst (backoffForAttempt n j) = \<lfloor>s\<rfloor>"
      "(4 / 5 * 2 ^ nat (n - 1)) * 1000000000 - 1 / 1000 \<le> s"
      "s \<le> (6 / 5 * 2 ^ nat (n - 1)) * 1000000000 + 1 / 1000"
    by (rule backoff_delay_floor [OF assms])
  have "of_int (800000000 * 2 ^ nat (n - 1) - 1) = 800000000 * (2::real) ^ nat (n - 1) - 1"
    and "of_int (1200000000 * 2 ^ nat (n - 1)) = 1200000000 * (2::real) ^ nat (n - 1)"
    by simp_all
  then have "of_int (800000000 * 2 ^ nat (n - 1) - 1) \<le> s"
    and "s < of_int (1200000000 * 2 ^ nat (n - 1)) + 1"
    using s(2,3) by argo+
  then show "800000000 * 2 ^ nat (n - 1) - 1 \<le> fst (backoffForAttempt n j)"
    and "fst (backoffForAttempt n j) \<le> 1200000000 * 2 ^ nat (n - 1)"
    unfolding s(1) by (simp_all only: le_floor_iff floor_le_iff)
  show "snd (backoffForAttempt n j)" using assms(1,2) unfolding backoffForAttempt_def Let_def by auto
qed

end
