(* ===== verification/Coordinator.thy ===== *)
theory Coordinator
  imports Ledger Backoff
begin

text \<open>
  \<open>internal/app/transfer_coordinator.go\<close> and \<open>transfer_coordinator_testonly.go\<close>: the saga that
  carries a cross-tenant transfer over three postings, its retries and its compensation.

  The state is the coordinator's own memory over the ledger's world. Go starts a goroutine
  that sleeps and then calls back into the coordinator; here the call is put on \<open>co_spawned\<close>,
  with the delay it sleeps, and \<open>run_task\<close> runs a spawned call, in whatever order. What
  other goroutines and processes commit while a call runs is the world's environment; the
  memory maps are read and written by one call at a time. A timed-out context is a
  statement that fails.
\<close>

section \<open>State\<close>

definition platformTenantID :: string where
  "platformTenantID = ''tnt_platform''"

definition settlementAccountName :: string where
  "settlementAccountName = ''settlement''"

definition claimLeaseDuration :: time where
  "claimLeaseDuration = 15 * second"

definition retryBatchLimit :: nat where
  "retryBatchLimit = 100"

definition inlineAttemptGraceWindow :: time where
  "inlineAttemptGraceWindow = 750 * (second div 1000)"

definition statusRetrying :: string where "statusRetrying = ''retrying''"
definition statusSettled :: string where "statusSettled = ''settled''"
definition statusReversed :: string where "statusReversed = ''reversed''"
definition statusReversalFailed :: string where "statusReversalFailed = ''reversal_failed''"

definition reasonRetryBudgetExhausted :: string where
  "reasonRetryBudgetExhausted = ''retry_budget_exhausted''"
definition reasonLeg1ReversalRetryBudgetExhausted :: string where
  "reasonLeg1ReversalRetryBudgetExhausted = ''leg1_reversal_retry_budget_exhausted''"
definition reasonLeg2ReversalRetryBudgetExhausted :: string where
  "reasonLeg2ReversalRetryBudgetExhausted = ''leg2_reversal_retry_budget_exhausted''"

definition legPending :: string where "legPending = ''pending''"
definition legPosted :: string where "legPosted = ''posted''"
definition legReversed :: string where "legReversed = ''reversed''"

text \<open>The goroutines the coordinator starts: what each calls once it has slept.\<close>

datatype task =
    ForwardLegsFrom string int
  | RetryLeg1Reversal string TransferState
  | RetryLeg2ThenLeg1 string TransferState bool

record coordinator =
  co_world :: world
  co_counts :: "string \<rightharpoonup> int"
  co_legFaults :: "string \<rightharpoonup> int"
  co_skipForwardCrash :: "string \<rightharpoonup> bool"
  co_skipReversalCrash :: "string \<rightharpoonup> bool"
  co_draws :: "nat \<Rightarrow> int"
  co_drawn :: nat
  co_spawned :: "(time \<times> task) list"
  co_reversalFailed :: nat

type_synonym 'a saga = "('a, coordinator) call"

definition NewTransferCoordinator :: "world \<Rightarrow> (nat \<Rightarrow> int) \<Rightarrow> coordinator" where
  "NewTransferCoordinator w draws = \<lparr>co_world = w, co_counts = Map.empty,
     co_legFaults = Map.empty, co_skipForwardCrash = Map.empty, co_skipReversalCrash = Map.empty,
     co_draws = draws, co_drawn = 0, co_spawned = [], co_reversalFailed = 0\<rparr>"

text \<open>A call into the ledger.\<close>

definition on_ledger :: "'a uow \<Rightarrow> 'a saga" where
  "on_ledger m c = (case m (co_world c) of (r, w) \<Rightarrow> (r, c\<lparr>co_world := w\<rparr>))"

text \<open>A read of a Go map answers the zero value for a key it does not hold.\<close>

definition read_count :: "(string \<rightharpoonup> int) \<Rightarrow> string \<Rightarrow> int" where
  "read_count m k = (case m k of None \<Rightarrow> 0 | Some n \<Rightarrow> n)"

definition read_flag :: "(string \<rightharpoonup> bool) \<Rightarrow> string \<Rightarrow> bool" where
  "read_flag m k = (case m k of None \<Rightarrow> False | Some b \<Rightarrow> b)"

text \<open>\<open>fmt.Sprintf\<close> with verb \<open>%d\<close> on an \<open>int\<close>.\<close>

definition fmt_int :: "int \<Rightarrow> string" where
  "fmt_int n = (if n < 0 then CHR ''-'' # dec_text (nat (- n)) else dec_text (nat n))"

definition transferLegKey :: "string \<Rightarrow> int \<Rightarrow> string" where
  "transferLegKey transferID leg_no = transferID @ '':'' @ fmt_int leg_no"

definition transferReversalLegKey :: "string \<Rightarrow> int \<Rightarrow> string" where
  "transferReversalLegKey transferID leg_no = transferID @ '':reversal:'' @ fmt_int leg_no"

definition record_failure :: "string \<Rightarrow> int saga" where
  "record_failure key c =
     (let n = read_count (co_counts c) key + 1
      in (Inr n, c\<lparr>co_counts := (co_counts c)(key \<mapsto> n)\<rparr>))"

definition recordFailedAttempt :: "string \<Rightarrow> int \<Rightarrow> int saga" where
  "recordFailedAttempt transferID leg_no = record_failure (transferLegKey transferID leg_no)"

definition recordFailedReversalAttempt :: "string \<Rightarrow> int \<Rightarrow> int saga" where
  "recordFailedReversalAttempt transferID leg_no =
     record_failure (transferReversalLegKey transferID leg_no)"

definition rand_Float64 :: "int saga" where
  "rand_Float64 c = (Inr (co_draws c (co_drawn c)), c\<lparr>co_drawn := Suc (co_drawn c)\<rparr>)"

definition spawn :: "time \<Rightarrow> task \<Rightarrow> unit saga" where
  "spawn delay t c = (Inr (), c\<lparr>co_spawned := co_spawned c @ [(delay, t)]\<rparr>)"

section \<open>Fault injection\<close>

definition armFault :: "string \<Rightarrow> int \<Rightarrow> coordinator \<Rightarrow> coordinator" where
  "armFault key count c =
     (if count \<le> 0 then c else c\<lparr>co_legFaults := (co_legFaults c)(key \<mapsto> count)\<rparr>)"

definition InjectLegFaultCount :: "string \<Rightarrow> int \<Rightarrow> int \<Rightarrow> coordinator \<Rightarrow> coordinator" where
  "InjectLegFaultCount transferID leg_no count = armFault (transferLegKey transferID leg_no) count"

definition InjectLegFault :: "string \<Rightarrow> int \<Rightarrow> coordinator \<Rightarrow> coordinator" where
  "InjectLegFault transferID leg_no = InjectLegFaultCount transferID leg_no 1"

definition InjectReversalFaultCount :: "string \<Rightarrow> int \<Rightarrow> int \<Rightarrow> coordinator \<Rightarrow> coordinator" where
  "InjectReversalFaultCount transferID leg_no count =
     armFault (transferReversalLegKey transferID leg_no) count"

definition consumeFault :: "string \<Rightarrow> bool saga" where
  "consumeFault key c =
     (let remaining = read_count (co_legFaults c) key
      in if remaining \<le> 0 then (Inr False, c)
         else if remaining - 1 \<le> 0 then (Inr True, c\<lparr>co_legFaults := (co_legFaults c)(key := None)\<rparr>)
         else (Inr True, c\<lparr>co_legFaults := (co_legFaults c)(key \<mapsto> remaining - 1)\<rparr>))"

definition consumeInjectedLegFault :: "string \<Rightarrow> int \<Rightarrow> bool saga" where
  "consumeInjectedLegFault transferID leg_no = consumeFault (transferLegKey transferID leg_no)"

definition consumeInjectedReversalFault :: "string \<Rightarrow> int \<Rightarrow> bool saga" where
  "consumeInjectedReversalFault transferID leg_no =
     consumeFault (transferReversalLegKey transferID leg_no)"

definition SimulateCrashBeforeForwardLegAttempt :: "string \<Rightarrow> coordinator \<Rightarrow> coordinator" where
  "SimulateCrashBeforeForwardLegAttempt transferID c =
     c\<lparr>co_skipForwardCrash := (co_skipForwardCrash c)(transferID \<mapsto> True)\<rparr>"

definition consumeForwardCrashSimulation :: "string \<Rightarrow> bool saga" where
  "consumeForwardCrashSimulation transferID c =
     (if read_flag (co_skipForwardCrash c) transferID
      then (Inr True, c\<lparr>co_skipForwardCrash := (co_skipForwardCrash c)(transferID := None)\<rparr>)
      else (Inr False, c))"

definition SimulateCrashBeforeReversalAttempt :: "string \<Rightarrow> coordinator \<Rightarrow> coordinator" where
  "SimulateCrashBeforeReversalAttempt transferID c =
     c\<lparr>co_skipReversalCrash := (co_skipReversalCrash c)(transferID \<mapsto> True)\<rparr>"

definition consumeReversalCrashSimulation :: "string \<Rightarrow> bool saga" where
  "consumeReversalCrashSimulation transferID c =
     (if read_flag (co_skipReversalCrash c) transferID
      then (Inr True, c\<lparr>co_skipReversalCrash := (co_skipReversalCrash c)(transferID := None)\<rparr>)
      else (Inr False, c))"

section \<open>Sending a transfer\<close>

record TransferView =
  view_TransferID :: string
  view_Status :: string
  view_Reason :: string
  view_Leg1 :: string
  view_Leg2 :: string
  view_Leg3 :: string

definition existingTransfer :: "string \<Rightarrow> string \<Rightarrow> TransferState option uow" where
  "existingTransfer tenantID idempotencyKey =
     withUnitOfWork (ByTenantAndIdempotencyKey tenantID idempotencyKey)"

definition linkSnapshotFor :: "CounterpartyAlias option \<Rightarrow> TenantLink option uow" where
  "linkSnapshotFor aliasSnapshot =
     (case aliasSnapshot of
        None \<Rightarrow> ret None
      | Some a \<Rightarrow>
          bindE (attempt (links_ByID (ca_tenantLinkID a))) (\<lambda>r. case r of
            Inr l \<Rightarrow> ret (Some l)
          | Inl e \<Rightarrow> if is_violation TenantLinkNotFound e then ret None else throw e))"

text \<open>\<open>ResolveCounterparty\<close> on optional snapshots: the zero values go with the flag false.\<close>

definition zero_alias :: CounterpartyAlias where
  "zero_alias = \<lparr>ca_tenantID = [], ca_alias = [], ca_tenantLinkID = [],
                ca_targetTenantID = [], ca_targetAccountID = []\<rparr>"

definition zero_link :: TenantLink where
  "zero_link = \<lparr>link_id = [], link_tenantA = [], link_tenantB = [], link_status = TenantLinkRevoked\<rparr>"

definition resolve_snapshots ::
  "string \<Rightarrow> string \<Rightarrow> CounterpartyAlias option \<Rightarrow> TenantLink option \<Rightarrow> Violation + (string \<times> string)" where
  "resolve_snapshots tenantID alias aliasSnapshot linkSnapshot =
     ResolveCounterparty tenantID alias
       (case aliasSnapshot of None \<Rightarrow> zero_alias | Some a \<Rightarrow> a) (aliasSnapshot \<noteq> None)
       (case linkSnapshot of None \<Rightarrow> zero_link | Some l \<Rightarrow> l) (linkSnapshot \<noteq> None)"

definition platformMirrorAccountID :: "string \<Rightarrow> string" where
  "platformMirrorAccountID businessTenantID = ''platform-'' @ businessTenantID"

definition ensureAccount :: "string \<Rightarrow> string \<Rightarrow> unit uow" where
  "ensureAccount tenantID accountID =
     bindE (attempt (accounts_Get tenantID accountID)) (\<lambda>r. case r of
       Inr _ \<Rightarrow> ret ()
     | Inl e \<Rightarrow>
         if \<not> is_violation UnknownAccount e then throw e
         else
           bindE (decide (zeroMoney ledgerCurrency)) (\<lambda>opening.
           bindE (decide (NewAccount tenantID accountID System opening)) (\<lambda>account.
             accounts_Create tenantID account)))"

definition ensureSettlementAccount :: "string \<Rightarrow> unit uow" where
  "ensureSettlementAccount tenantID = ensureAccount tenantID settlementAccountName"

definition ensurePlatformMirrorAccount :: "string \<Rightarrow> unit uow" where
  "ensurePlatformMirrorAccount businessTenantID =
     ensureAccount platformTenantID (platformMirrorAccountID businessTenantID)"

definition prepareTransfer :: "string \<Rightarrow> string \<Rightarrow> (string \<times> string) uow" where
  "prepareTransfer tenantID alias =
     withUnitOfWork
       (bindE (aliases_ByTenantAndAlias tenantID alias) (\<lambda>aliasSnapshot.
        bindE (linkSnapshotFor aliasSnapshot) (\<lambda>linkSnapshot.
        bindE (decide (resolve_snapshots tenantID alias aliasSnapshot linkSnapshot))
          (\<lambda>(counterpartyTenantID, targetAccountID).
        bindE (ensureSettlementAccount tenantID) (\<lambda>_.
        bindE (ensurePlatformMirrorAccount tenantID) (\<lambda>_.
        bindE (ensureSettlementAccount counterpartyTenantID) (\<lambda>_.
        bindE (ensurePlatformMirrorAccount counterpartyTenantID) (\<lambda>_.
          ret (counterpartyTenantID, targetAccountID)))))))))"

definition first_wallet :: "Account list \<Rightarrow> Violation + string" where
  "first_wallet as = (case List.find (\<lambda>a. acct_kind a = Wallet) as of
     Some a \<Rightarrow> Inr (acct_id a)
   | None \<Rightarrow> Inl (NewUnknownAccount ''wallet''))"

definition walletAccountID :: "string \<Rightarrow> string uow" where
  "walletAccountID tenantID =
     withUnitOfWork
       (bindE (accounts_All (ScopedToTenant tenantID)) (\<lambda>as. decide (first_wallet as)))"

definition createTransferState :: "TransferState \<Rightarrow> unit uow" where
  "createTransferState state = withUnitOfWork (transfers_Create state)"

definition SeedTransferStateDueNow :: "TransferState \<Rightarrow> unit uow" where
  "SeedTransferStateDueNow state = createTransferState state"

text \<open>What the test-only route seeds: due, with leg 1 taken for posted.\<close>

definition seeded_state :: "string \<Rightarrow> string \<Rightarrow> string \<Rightarrow> time \<Rightarrow> Money \<Rightarrow> TransferState" where
  "seeded_state transferID sender counterparty now amount =
     \<lparr>ts_TransferID = transferID, ts_TenantID = sender, ts_IdempotencyKey = ''testonly-seed-'' @ transferID,
      ts_Status = ''retrying'', ts_Leg1Status = ''posted'', ts_Leg2Status = ''pending'',
      ts_Leg3Status = ''pending'', ts_Leg1Attempts = 0, ts_Leg2Attempts = 0, ts_Leg3Attempts = 0,
      ts_NextAttemptAt = now - second, ts_Reason = [], ts_CounterpartyTenantID = counterparty,
      ts_TargetAccountID = ''settlement'', ts_Amount = amount\<rparr>"

definition newTransferState ::
  "string \<Rightarrow> string \<Rightarrow> string \<Rightarrow> time \<Rightarrow> string \<times> string \<Rightarrow> Money \<Rightarrow> TransferState" where
  "newTransferState transferID tenantID idempotencyKey now counterparty amount =
     \<lparr>ts_TransferID = transferID, ts_TenantID = tenantID, ts_IdempotencyKey = idempotencyKey,
      ts_Status = legPending, ts_Leg1Status = legPosted, ts_Leg2Status = legPending,
      ts_Leg3Status = legPending, ts_Leg1Attempts = 0, ts_Leg2Attempts = 0, ts_Leg3Attempts = 0,
      ts_NextAttemptAt = now, ts_Reason = [], ts_CounterpartyTenantID = fst counterparty,
      ts_TargetAccountID = snd counterparty, ts_Amount = amount\<rparr>"

definition leg1_view :: "string \<Rightarrow> string \<Rightarrow> TransferView" where
  "leg1_view transferID status =
     \<lparr>view_TransferID = transferID, view_Status = status, view_Reason = [], view_Leg1 = legPosted,
      view_Leg2 = [], view_Leg3 = []\<rparr>"

text \<open>It does not trigger the other legs; its caller does, for a transfer that was created.\<close>

definition SendTransfer ::
  "string \<Rightarrow> string \<Rightarrow> Money \<Rightarrow> string \<Rightarrow> string \<Rightarrow> (TransferView \<times> bool) uow" where
  "SendTransfer tenantID alias amount idempotencyKey fingerprint =
     bindE (existingTransfer tenantID idempotencyKey) (\<lambda>existing.
       case existing of
         Some e \<Rightarrow> ret (leg1_view (ts_TransferID e) (ts_Status e), False)
       | None \<Rightarrow>
           bindE (prepareTransfer tenantID alias) (\<lambda>counterparty.
           bindE (walletAccountID tenantID) (\<lambda>senderWalletID.
           bindE (PostTransfer \<lparr>req_From = senderWalletID, req_To = settlementAccountName,
                    req_Amount = amount, req_IdempotencyKey = idempotencyKey,
                    req_Fingerprint = fingerprint, req_TenantID = tenantID\<rparr>) (\<lambda>_.
           bindE nextID (\<lambda>i.
           bindE clock (\<lambda>now.
           bindE (createTransferState
                    (newTransferState (''xfr_'' @ i) tenantID idempotencyKey now counterparty amount)) (\<lambda>_.
             ret (leg1_view (''xfr_'' @ i) legPending, True))))))))"

text \<open>The handler that calls \<open>SendTransfer\<close> triggers the other legs once it has answered.\<close>

definition TriggerForwardLegs :: "string \<Rightarrow> unit saga" where
  "TriggerForwardLegs transferID = spawn inlineAttemptGraceWindow (ForwardLegsFrom transferID 2)"

section \<open>Movements of the legs\<close>

type_synonym movement = "string \<times> string \<times> string \<times> string"

definition legMovement :: "TransferState \<Rightarrow> int \<Rightarrow> go_error + movement" where
  "legMovement state leg_no =
     (if leg_no = 2 then Inr (platformMirrorAccountID (ts_TenantID state),
         platformMirrorAccountID (ts_CounterpartyTenantID state),
         platformTenantID, ts_IdempotencyKey state @ '':leg2'')
      else if leg_no = 3 then Inr (settlementAccountName, ts_TargetAccountID state,
         ts_CounterpartyTenantID state, ts_IdempotencyKey state @ '':leg3'')
      else Inl (ErrInfra ''unsupported leg number''))"

definition legReverseKey :: "string \<Rightarrow> int \<Rightarrow> string" where
  "legReverseKey idempotencyKey leg_no = idempotencyKey @ '':leg'' @ fmt_int leg_no @ '':reverse''"

definition reverseLeg1Movement :: "TransferState \<Rightarrow> string \<Rightarrow> movement" where
  "reverseLeg1Movement state senderWalletAccountID =
     (settlementAccountName, senderWalletAccountID, ts_TenantID state,
      legReverseKey (ts_IdempotencyKey state) 1)"

definition reverseLeg2Movement :: "TransferState \<Rightarrow> movement" where
  "reverseLeg2Movement state =
     (platformMirrorAccountID (ts_CounterpartyTenantID state),
      platformMirrorAccountID (ts_TenantID state), platformTenantID,
      legReverseKey (ts_IdempotencyKey state) 2)"

definition legFingerprint :: "string \<Rightarrow> string \<Rightarrow> Money \<Rightarrow> string" where
  "legFingerprint from to amount =
     from @ ''|'' @ to @ ''|'' @ fmt_d (minorUnits amount) @ ''|'' @ currency amount"

fun leg_request :: "movement \<Rightarrow> Money \<Rightarrow> TransferRequest" where
  "leg_request (from, to, tenantID, key) amount =
     \<lparr>req_From = from, req_To = to, req_Amount = amount, req_IdempotencyKey = key,
      req_Fingerprint = legFingerprint from to amount, req_TenantID = tenantID\<rparr>"

end
