(* ===== verification/Saga.thy ===== *)
theory Saga
  imports Coordinator
begin

text \<open>
  The rest of \<open>internal/app/transfer_coordinator.go\<close>: claiming a transfer, attempting a leg,
  its retries, the compensation, the reading of a transfer and the retry ticker.
\<close>

section \<open>Units of work of the saga\<close>

text \<open>A claim that is not granted is rolled back and is no error.\<close>

definition claimTransfer :: "string \<Rightarrow> TransferState option uow" where
  "claimTransfer transferID = bindE Begin (\<lambda>_ w.
     case ClaimOne transferID claimLeaseDuration w of
       (Inl e, w') \<Rightarrow> (Inl e, Rollback w')
     | (Inr None, w') \<Rightarrow> (Inr None, Rollback w')
     | (Inr (Some state), w') \<Rightarrow>
         (case Commit w' of
            (Inl e, w'') \<Rightarrow> (Inl e, Rollback w'')
          | (Inr _, w'') \<Rightarrow> (Inr (Some state), w'')))"

definition advanceAfterLegOutcome :: "string \<Rightarrow> string \<Rightarrow> time \<Rightarrow> string \<Rightarrow> unit uow" where
  "advanceAfterLegOutcome transferID status nextAttemptAt reason =
     withUnitOfWork (AdvanceAfterLegOutcome transferID status nextAttemptAt reason)"

definition recordLegSuccess :: "string \<Rightarrow> int \<Rightarrow> unit uow" where
  "recordLegSuccess transferID leg_no =
     bindE clock (\<lambda>now.
       advanceAfterLegOutcome transferID (if leg_no = 3 then statusSettled else legPending) now [])"

definition legPostedStatus :: "string \<Rightarrow> string uow" where
  "legPostedStatus key =
     bindE (idempotency_Lookup key) (\<lambda>found.
       ret (if found \<noteq> None then legPosted else legPending))"

definition leg1DisplayStatus :: "string \<Rightarrow> string uow" where
  "leg1DisplayStatus idempotencyKey =
     bindE (idempotency_Lookup (legReverseKey idempotencyKey 1)) (\<lambda>found.
       ret (if found \<noteq> None then legReversed else legPosted))"

definition leg2DisplayStatus :: "string \<Rightarrow> string uow" where
  "leg2DisplayStatus idempotencyKey =
     bindE (idempotency_Lookup (legReverseKey idempotencyKey 2)) (\<lambda>found.
       if found \<noteq> None then ret legReversed else legPostedStatus (idempotencyKey @ '':leg2''))"

definition GetTransfer :: "string \<Rightarrow> TransferView uow" where
  "GetTransfer transferID =
     withUnitOfWork
       (bindE (transfers_Get transferID) (\<lambda>found. case found of
          None \<Rightarrow> throw ErrTransferNotFound
        | Some state \<Rightarrow>
            bindE (leg1DisplayStatus (ts_IdempotencyKey state)) (\<lambda>leg1Status.
            bindE (leg2DisplayStatus (ts_IdempotencyKey state)) (\<lambda>leg2Status.
            bindE (legPostedStatus (ts_IdempotencyKey state @ '':leg3'')) (\<lambda>leg3Posted.
              ret \<lparr>view_TransferID = ts_TransferID state, view_Status = ts_Status state,
                   view_Reason = ts_Reason state, view_Leg1 = leg1Status, view_Leg2 = leg2Status,
                   view_Leg3 = leg3Posted\<rparr>)))))"

definition reversalPending :: "string \<Rightarrow> bool uow" where
  "reversalPending transferID =
     withUnitOfWork
       (bindE (transfers_Get transferID) (\<lambda>found. case found of
          None \<Rightarrow> ret False
        | Some state \<Rightarrow>
            if ts_Status state \<noteq> statusRetrying then ret False
            else bindE (idempotency_Lookup (legReverseKey (ts_IdempotencyKey state) 2)) (\<lambda>claim.
              ret (claim \<noteq> None))))"

definition dueTransferIDs :: "nat \<Rightarrow> string list uow" where
  "dueTransferIDs batchLimit =
     withUnitOfWork (bindE clock (\<lambda>now. ClaimDue now batchLimit))"

definition nextLegFor :: "string \<Rightarrow> int uow" where
  "nextLegFor transferID =
     withUnitOfWork
       (bindE (transfers_Get transferID) (\<lambda>found. case found of
          None \<Rightarrow> ret 0
        | Some state \<Rightarrow>
            bindE (legPostedStatus (ts_IdempotencyKey state @ '':leg2'')) (\<lambda>leg2Posted.
              if leg2Posted \<noteq> legPosted then ret 2
              else
                bindE (legPostedStatus (ts_IdempotencyKey state @ '':leg3'')) (\<lambda>leg3Posted.
                  if leg3Posted \<noteq> legPosted then ret 3 else ret 0))))"

section \<open>Compensation\<close>

text \<open>The posting of a leg; its result is dropped, its error kept.\<close>

definition post_leg :: "movement \<Rightarrow> Money \<Rightarrow> unit saga" where
  "post_leg m amount = bindE (on_ledger (PostTransfer (leg_request m amount))) (\<lambda>_. ret ())"

definition advance_now :: "string \<Rightarrow> string \<Rightarrow> string \<Rightarrow> unit saga" where
  "advance_now transferID status reason =
     on_ledger (bindE clock (\<lambda>now. advanceAfterLegOutcome transferID status now reason))"

definition onReversalFailed :: "unit saga" where
  "onReversalFailed c = (Inr (), c\<lparr>co_reversalFailed := Suc (co_reversalFailed c)\<rparr>)"

definition markReversalFailed :: "string \<Rightarrow> string \<Rightarrow> unit saga" where
  "markReversalFailed transferID reason =
     bindE (advance_now transferID statusReversalFailed reason) (\<lambda>_. onReversalFailed)"

definition scheduleReversalRetry :: "time \<Rightarrow> task \<Rightarrow> unit saga" where
  "scheduleReversalRetry delay retry = spawn delay retry"

definition handleReversalFailure ::
  "string \<Rightarrow> int \<Rightarrow> go_error \<Rightarrow> string \<Rightarrow> task \<Rightarrow> unit saga" where
  "handleReversalFailure transferID leg_no postErr exhaustedReason retry =
     bindE (recordFailedReversalAttempt transferID leg_no) (\<lambda>failedAttempts.
     bindE rand_Float64 (\<lambda>jitter.
       case backoffForAttempt failedAttempts jitter of (delay, ok) \<Rightarrow>
         if \<not> ok then bindE (markReversalFailed transferID exhaustedReason) (\<lambda>_. throw postErr)
         else bindE (scheduleReversalRetry delay retry) (\<lambda>_. throw postErr)))"

definition postLeg1Reversal :: "string \<Rightarrow> TransferState \<Rightarrow> unit saga" where
  "postLeg1Reversal transferID state =
     bindE (on_ledger (withUnitOfWork (legPostedStatus (ts_IdempotencyKey state)))) (\<lambda>leg1Posted.
       if leg1Posted \<noteq> legPosted then ret ()
       else
         bindE (on_ledger (walletAccountID (ts_TenantID state))) (\<lambda>senderWalletAccountID.
         bindE (consumeInjectedReversalFault transferID 1) (\<lambda>fault.
           if fault then throw ErrSimulatedTransientFault
           else post_leg (reverseLeg1Movement state senderWalletAccountID) (ts_Amount state))))"

definition postLeg2Reversal :: "TransferState \<Rightarrow> unit saga" where
  "postLeg2Reversal state =
     bindE (consumeInjectedReversalFault (ts_TransferID state) 2) (\<lambda>fault.
       if fault then throw ErrSimulatedTransientFault
       else post_leg (reverseLeg2Movement state) (ts_Amount state))"

definition attemptLeg1Reversal :: "string \<Rightarrow> TransferState \<Rightarrow> unit saga" where
  "attemptLeg1Reversal transferID state =
     bindE (attempt (postLeg1Reversal transferID state)) (\<lambda>posted. case posted of
       Inl e \<Rightarrow> handleReversalFailure transferID 1 e reasonLeg1ReversalRetryBudgetExhausted
                  (RetryLeg1Reversal transferID state)
     | Inr _ \<Rightarrow> advance_now transferID statusReversed reasonRetryBudgetExhausted)"

definition reverseLeg1 :: "string \<Rightarrow> TransferState \<Rightarrow> unit saga" where
  "reverseLeg1 transferID state = attemptLeg1Reversal transferID state"

definition reverseLeg2ThenLeg1 :: "string \<Rightarrow> TransferState \<Rightarrow> bool \<Rightarrow> unit saga" where
  "reverseLeg2ThenLeg1 transferID state isInlinePath =
     bindE (attempt (postLeg2Reversal state)) (\<lambda>posted. case posted of
       Inl e \<Rightarrow> handleReversalFailure transferID 2 e reasonLeg2ReversalRetryBudgetExhausted
                  (RetryLeg2ThenLeg1 transferID state isInlinePath)
     | Inr _ \<Rightarrow>
         bindE (if isInlinePath then consumeReversalCrashSimulation transferID else ret False)
           (\<lambda>crash.
              if crash then advance_now transferID statusRetrying reasonRetryBudgetExhausted
              else attemptLeg1Reversal transferID state))"

definition resumeLeg1Reversal :: "string \<Rightarrow> unit saga" where
  "resumeLeg1Reversal transferID =
     bindE (on_ledger (claimTransfer transferID)) (\<lambda>claimed. case claimed of
       None \<Rightarrow> ret ()
     | Some state \<Rightarrow> attemptLeg1Reversal transferID state)"

section \<open>Attempting a leg\<close>

definition scheduleRetry :: "string \<Rightarrow> int \<Rightarrow> time \<Rightarrow> unit saga" where
  "scheduleRetry transferID leg_no delay = spawn delay (ForwardLegsFrom transferID leg_no)"

definition handleLegFailure ::
  "string \<Rightarrow> int \<Rightarrow> TransferState \<Rightarrow> go_error \<Rightarrow> bool \<Rightarrow> unit saga" where
  "handleLegFailure transferID leg_no state postErr isInlinePath =
     bindE (recordFailedAttempt transferID leg_no) (\<lambda>failedAttempts.
     bindE rand_Float64 (\<lambda>jitter.
       case backoffForAttempt failedAttempts jitter of (delay, ok) \<Rightarrow>
         if \<not> ok \<and> leg_no = 2 then bindE (reverseLeg1 transferID state) (\<lambda>_. throw postErr)
         else if \<not> ok \<and> leg_no = 3
         then bindE (reverseLeg2ThenLeg1 transferID state isInlinePath) (\<lambda>_. throw postErr)
         else
           bindE (on_ledger clock) (\<lambda>now.
           bindE (on_ledger (advanceAfterLegOutcome transferID statusRetrying
                    (if ok then now + delay else now) [])) (\<lambda>_.
           bindE (if ok then scheduleRetry transferID leg_no delay else ret ()) (\<lambda>_.
             throw postErr)))))"

definition attemptLeg :: "string \<Rightarrow> int \<Rightarrow> bool \<Rightarrow> unit saga" where
  "attemptLeg transferID leg_no isInlinePath =
     bindE (on_ledger (claimTransfer transferID)) (\<lambda>claimed. case claimed of
       None \<Rightarrow> ret ()
     | Some state \<Rightarrow>
         bindE (if leg_no = 2 \<and> isInlinePath then consumeForwardCrashSimulation transferID
                else ret False) (\<lambda>crash.
           if crash then advance_now transferID (ts_Status state) (ts_Reason state)
           else (case legMovement state leg_no of
             Inl e \<Rightarrow> throw e
           | Inr m \<Rightarrow>
               bindE (attempt (bindE (consumeInjectedLegFault transferID leg_no) (\<lambda>fault.
                        if fault then throw ErrSimulatedTransientFault
                        else post_leg m (ts_Amount state)))) (\<lambda>posted. case posted of
                 Inl postErr \<Rightarrow> handleLegFailure transferID leg_no state postErr isInlinePath
               | Inr _ \<Rightarrow> on_ledger (recordLegSuccess transferID leg_no)))))"

text \<open>A lost claim also answers no error: then leg 3 is tried without leg 2.\<close>

definition attemptForwardLegsFrom :: "string \<Rightarrow> int \<Rightarrow> unit saga" where
  "attemptForwardLegsFrom transferID leg_no =
     bindE (attempt (attemptLeg transferID leg_no True)) (\<lambda>r.
       if (case r of Inl _ \<Rightarrow> True | Inr _ \<Rightarrow> leg_no \<noteq> 2) then ret ()
       else bindE (attempt (attemptLeg transferID 3 True)) (\<lambda>_. ret ()))"

text \<open>A goroutine wakes up.\<close>

fun run_task :: "task \<Rightarrow> unit saga" where
  "run_task (ForwardLegsFrom transferID leg_no) = attemptForwardLegsFrom transferID leg_no"
| "run_task (RetryLeg1Reversal transferID state) =
     bindE (attempt (attemptLeg1Reversal transferID state)) (\<lambda>_. ret ())"
| "run_task (RetryLeg2ThenLeg1 transferID state isInlinePath) =
     bindE (attempt (reverseLeg2ThenLeg1 transferID state isInlinePath)) (\<lambda>_. ret ())"

definition wake :: "nat \<Rightarrow> unit saga" where
  "wake n c =
     (if n < length (co_spawned c)
      then run_task (snd (co_spawned c ! n))
             (c\<lparr>co_spawned := take n (co_spawned c) @ drop (Suc n) (co_spawned c)\<rparr>)
      else (Inr (), c))"

section \<open>The retry ticker\<close>

definition attemptDueLegs :: "string \<Rightarrow> unit saga" where
  "attemptDueLegs transferID =
     bindE (attempt (on_ledger (reversalPending transferID))) (\<lambda>pending.
       if pending = Inr True then bindE (attempt (resumeLeg1Reversal transferID)) (\<lambda>_. ret ())
       else
         bindE (attempt (on_ledger (nextLegFor transferID))) (\<lambda>r. case r of
           Inl _ \<Rightarrow> ret ()
         | Inr leg_no \<Rightarrow>
             if leg_no = 0 then ret ()
             else
               bindE (attempt (attemptLeg transferID leg_no False)) (\<lambda>_.
               bindE (attempt (on_ledger (nextLegFor transferID))) (\<lambda>r'. case r' of
                 Inl _ \<Rightarrow> ret ()
               | Inr nextLeg \<Rightarrow>
                   if nextLeg = 0 \<or> nextLeg = leg_no then ret ()
                   else bindE (attempt (attemptLeg transferID nextLeg False)) (\<lambda>_. ret ())))))"

fun attempt_all :: "string list \<Rightarrow> unit saga" where
  "attempt_all [] = ret ()"
| "attempt_all (x # xs) = bindE (attemptDueLegs x) (\<lambda>_. attempt_all xs)"

definition processDueTransfers :: "nat \<Rightarrow> nat saga" where
  "processDueTransfers batchLimit =
     bindE (on_ledger (dueTransferIDs batchLimit)) (\<lambda>dueIDs.
     bindE (attempt_all dueIDs) (\<lambda>_. ret (length dueIDs)))"

definition ProcessDueTransfersOnce :: "nat saga" where
  "ProcessDueTransfersOnce = processDueTransfers retryBatchLimit"

end
