(* ===== verification/Steps.thy ===== *)
theory Steps
  imports Coordinator
begin

text \<open>
  The abstract specification: what one commit may do to the committed database. The use
  cases are shown to refine it (a unit of work moves the committed database by such steps
  and nothing else), and the invariants of the books are proved of the steps alone.
\<close>

section \<open>The commits the ledger makes\<close>

definition apply_delta :: "string \<Rightarrow> string \<Rightarrow> string \<Rightarrow> int64 \<Rightarrow> account_row \<Rightarrow> account_row" where
  "apply_delta t i c x r =
     (if ar_tenant r = t \<and> ar_id r = i \<and> ar_currency r = c
      then r\<lparr>ar_balance := ar_balance r + x\<rparr> else r)"

text \<open>The entry pair and the balances of one movement.\<close>

definition leg :: "string \<Rightarrow> string \<Rightarrow> string \<Rightarrow> string \<Rightarrow> int64 \<Rightarrow> string \<Rightarrow> time \<Rightarrow> int64 \<Rightarrow> entry_row" where
  "leg t tid a b x c now i = \<lparr>er_tenant = t, er_transaction = tid, er_account = a, er_counterparty = b,
     er_amount = x, er_currency = c, er_recorded_at = now, er_sequence = i\<rparr>"

definition posted ::
  "string \<Rightarrow> string \<Rightarrow> string \<Rightarrow> Money \<Rightarrow> string \<Rightarrow> time \<Rightarrow> string \<Rightarrow> string \<Rightarrow> db \<Rightarrow> db" where
  "posted t a b m tid now k fp d = d\<lparr>
     accounts := map (apply_delta t b (currency m) (minorUnits m))
                   (map (apply_delta t a (currency m) (- minorUnits m)) (accounts d)),
     transactions := transactions d @ [\<lparr>tr_tenant = t, tr_id = tid, tr_recorded_at = now\<rparr>],
     entries := entries d @ [leg t tid a b (- minorUnits m) (currency m) now 0,
                             leg t tid b a (minorUnits m) (currency m) now 1],
     idempotency_keys := idempotency_keys d @ [\<lparr>kr_key = k, kr_fingerprint = fp, kr_transaction = tid\<rparr>]\<rparr>"

text \<open>
  A movement the rulebook allows, read over the integers: a positive amount in the currency
  of both accounts, which the payer can afford if it is a wallet, and no balance that leaves
  the range of \<open>bigint\<close>.
\<close>

definition movable :: "string \<Rightarrow> string \<Rightarrow> string \<Rightarrow> Money \<Rightarrow> db \<Rightarrow> bool" where
  "movable t a b m d \<longleftrightarrow> (case (db_account d t a, db_account d t b) of
     (Some f, Some g) \<Rightarrow>
       0 < sint (minorUnits m) \<and> ar_currency f = currency m \<and> ar_currency g = currency m \<and>
       known_currency (currency m) \<and>
       (ar_kind f = Wallet \<longrightarrow> sint (minorUnits m) \<le> sint (ar_balance f)) \<and>
       (ar_kind g = Wallet \<longrightarrow> 0 \<le> sint (ar_balance g)) \<and>
       in_int64 (sint (ar_balance f) - sint (minorUnits m)) \<and>
       (a \<noteq> b \<longrightarrow> in_int64 (sint (ar_balance g) + sint (minorUnits m)))
   | _ \<Rightarrow> False)"

text \<open>What an update of a \<open>transfer_state\<close> row leaves alone.\<close>

definition same_transfer :: "transfer_row \<Rightarrow> transfer_row \<Rightarrow> bool" where
  "same_transfer r s \<longleftrightarrow> xr_id s = xr_id r \<and> xr_tenant s = xr_tenant r \<and> xr_key s = xr_key r \<and>
     xr_counterparty s = xr_counterparty r \<and> xr_target s = xr_target r \<and>
     xr_amount s = xr_amount r \<and> xr_currency s = xr_currency r"

text \<open>
  What a stored transfer says of itself: one of five statuses, a reason where its end has one, and
  the columns of its legs, which only the row that is created writes.
\<close>

definition outcome_ok :: "string \<Rightarrow> string option \<Rightarrow> bool" where
  "outcome_ok status reason \<longleftrightarrow>
     status \<in> {''pending'', ''retrying''} \<or>
     status = ''settled'' \<and> reason = None \<or>
     status = ''reversed'' \<and> reason = Some ''retry_budget_exhausted'' \<or>
     status = ''reversal_failed'' \<and>
       reason \<in> {Some ''leg1_reversal_retry_budget_exhausted'', Some ''leg2_reversal_retry_budget_exhausted''}"

definition transfer_typed :: "transfer_row \<Rightarrow> bool" where
  "transfer_typed r \<longleftrightarrow> outcome_ok (xr_status r) (xr_reason r) \<and>
     xr_leg1 r = ''posted'' \<and> xr_leg2 r = ''pending'' \<and> xr_leg3 r = ''pending'' \<and>
     xr_attempts1 r = 0 \<and> xr_attempts2 r = 0 \<and> xr_attempts3 r = 0"

text \<open>A request the ledger has an answer for: its key is bound to it by a transaction of its tenant.\<close>

definition stored_transaction :: "db \<Rightarrow> string \<Rightarrow> string \<Rightarrow> transaction_row option" where
  "stored_transaction d t tid = List.find (\<lambda>r. tr_tenant r = t \<and> tr_id r = tid) (transactions d)"

definition answered :: "db \<Rightarrow> TransferRequest \<Rightarrow> bool" where
  "answered d cmd \<longleftrightarrow> (case db_key d (req_IdempotencyKey cmd) of
     None \<Rightarrow> False
   | Some c \<Rightarrow> kr_fingerprint c = req_Fingerprint cmd \<and>
       stored_transaction d (req_TenantID cmd) (kr_transaction c) \<noteq> None)"

text \<open>
  A transfer whose third leg is posted, as the coordinator reads its row, and what a row may say
  of it: only such a transfer is settled.
\<close>

definition leg3_request :: "TransferState \<Rightarrow> TransferRequest" where
  "leg3_request s = leg_request (settlementAccountName, ts_TargetAccountID s, ts_CounterpartyTenantID s,
     ts_IdempotencyKey s @ '':leg3'') (ts_Amount s)"

definition leg3_paid :: "db \<Rightarrow> transfer_row \<Rightarrow> bool" where
  "leg3_paid d r \<longleftrightarrow> (case scanTransferState r of Inl _ \<Rightarrow> False | Inr s \<Rightarrow> answered d (leg3_request s))"

definition told :: "db \<Rightarrow> transfer_row \<Rightarrow> bool" where
  "told d r \<longleftrightarrow> (xr_status r = statusSettled \<longrightarrow> leg3_paid d r)"

inductive commit_step :: "db \<Rightarrow> db \<Rightarrow> bool" where
  step_account: "insert_account r d = Inr ((), d') \<Longrightarrow> ar_balance r = 0 \<Longrightarrow>
     ar_currency r = ledgerCurrency \<Longrightarrow> ar_tenant r \<noteq> [] \<Longrightarrow> commit_step d d'"
| step_post: "movable t a b m d \<Longrightarrow> \<not> transaction_exists d tid \<Longrightarrow> tenant_exists d t \<Longrightarrow>
     db_key d k = None \<Longrightarrow> commit_step d (posted t a b m tid now k fp d)"
| step_tenant: "insert_tenant r d = Inr ((), d') \<Longrightarrow> commit_step d d'"
| step_link: "insert_link r d = Inr ((), d') \<Longrightarrow> lr_a r \<le> lr_b r \<Longrightarrow>
     lr_status r = TenantLinkActive \<Longrightarrow> commit_step d d'"
| step_revoke: "commit_step d (revoke_row l d)"
| step_alias: "insert_alias r d = Inr ((), d') \<Longrightarrow> commit_step d d'"
| step_transfer: "insert_transfer r d = Inr ((), d') \<Longrightarrow> transfer_typed r \<Longrightarrow> told d r \<Longrightarrow> commit_step d d'"
| step_advance: "(\<And>r. same_transfer r (f r)) \<Longrightarrow> (\<And>r. transfer_typed r \<Longrightarrow> transfer_typed (f r)) \<Longrightarrow>
     (\<And>r. db_transfer d x = Some r \<Longrightarrow> told d r \<Longrightarrow> told d (f r)) \<Longrightarrow>
     commit_step d (d\<lparr>transfer_states := map (\<lambda>r. if xr_id r = x then f r else r) (transfer_states d)\<rparr>)"

lemma leg3_paid_same: "same_transfer r s \<Longrightarrow> leg3_paid d s = leg3_paid d r"
  by (auto simp: same_transfer_def leg3_paid_def scanTransferState_def leg3_request_def Let_def
      split: option.splits sum.splits)

lemma told_unsettled: "xr_status r \<noteq> statusSettled \<Longrightarrow> told d r"
  by (simp add: told_def)

lemma told_update:
  assumes "same_transfer r s" and "xr_status s = xr_status r \<or> xr_status s \<noteq> statusSettled"
  shows "told d r \<Longrightarrow> told d s"
  using assms leg3_paid_same [OF assms(1)] by (auto simp: told_def)

abbreviation commit_steps :: "db \<Rightarrow> db \<Rightarrow> bool" where
  "commit_steps \<equiv> commit_step\<^sup>*\<^sup>*"

inductive_cases commit_stepE: "commit_step d d'"

section \<open>Worlds whose other sessions are ledgers too\<close>

definition well_behaved :: "world \<Rightarrow> bool" where
  "well_behaved w \<longleftrightarrow> (\<forall>n d. commit_steps d (w_env w n d))"

lemma env_run_steps:
  assumes "\<And>n d. commit_steps d (env n d)"
  shows "commit_steps d (env_run env i j d)"
proof -
  have "commit_steps d (foldl (\<lambda>d n. env n d) d xs)" for xs
    by (induction xs arbitrary: d) (auto intro: rtranclp_trans assms)
  then show ?thesis by (simp add: env_run_def)
qed

definition moves :: "world \<Rightarrow> world \<Rightarrow> bool" where
  "moves w w' \<longleftrightarrow> same_run w w' \<and> commit_steps (w_committed w) (w_committed w')"

lemma moves_refl [simp]: "moves w w"
  by (simp add: moves_def)

lemma moves_trans: "moves u v \<Longrightarrow> moves v w \<Longrightarrow> moves u w"
  by (auto simp: moves_def intro: same_run_trans rtranclp_trans)

lemma since_moves: "well_behaved w \<Longrightarrow> since w w' \<Longrightarrow> moves w w'"
  by (auto simp: moves_def since_def well_behaved_def intro: env_run_steps)

lemma same_run_well_behaved: "same_run w w' \<Longrightarrow> well_behaved w' = well_behaved w"
  by (simp add: well_behaved_def same_run_def)

text \<open>A step of the shell refines the specification, whatever it answers.\<close>

definition refines :: "'a uow \<Rightarrow> bool" where
  "refines m \<longleftrightarrow> (\<forall>w. well_behaved w \<longrightarrow> moves w (snd (m w)))"

lemma refinesD: "refines m \<Longrightarrow> well_behaved w \<Longrightarrow> moves w (snd (m w))"
  by (simp add: refines_def)

lemma refines_bindE [preserve_intros]:
  assumes "refines m" and "\<And>x. refines (f x)"
  shows "refines (bindE m f)"
  unfolding refines_def
proof (intro allI impI)
  fix w assume w: "well_behaved w"
  obtain r v where v: "m w = (r, v)" by (cases "m w")
  then have m: "moves w v" using refinesD [OF assms(1) w] by simp
  then have "well_behaved v" using w same_run_well_behaved moves_def by blast
  then have "moves v (snd (f x v))" for x using refinesD [OF assms(2)] by blast
  with m v show "moves w (snd (bindE m f w))"
    by (auto simp: bindE_def intro: moves_trans split: sum.splits)
qed

lemma refines_ret [preserve_intros]: "refines (ret x)"
  by (simp add: refines_def ret_def)

lemma refines_throw [preserve_intros]: "refines (throw e)"
  by (simp add: refines_def throw_def)

lemma refines_decide [preserve_intros]: "refines (decide r)"
  by (simp add: decide_def refines_ret refines_throw split: sum.splits)

lemma refines_clock [preserve_intros]: "refines clock"
  by (simp add: refines_def clock_def moves_def same_run_def)

lemma refines_nextID [preserve_intros]: "refines nextID"
  by (simp add: refines_def nextID_def moves_def same_run_def)

lemma refines_case_option [preserve_intros]:
  "refines m \<Longrightarrow> (\<And>x. refines (f x)) \<Longrightarrow> refines (case r of None \<Rightarrow> m | Some x \<Rightarrow> f x)"
  by (cases r) auto

lemma refines_case_sum [preserve_intros]:
  "(\<And>x. refines (f x)) \<Longrightarrow> (\<And>x. refines (g x)) \<Longrightarrow> refines (case r of Inl x \<Rightarrow> f x | Inr x \<Rightarrow> g x)"
  by (cases r) auto

lemma refines_if [preserve_intros]:
  "refines m \<Longrightarrow> refines n \<Longrightarrow> refines (if c then m else n)"
  by simp

lemma refines_attempt [preserve_intros]: "refines m \<Longrightarrow> refines (attempt m)"
  by (auto simp: refines_def attempt_def split: prod.splits)

text \<open>A body of a unit of work: its view is one the specification can reach.\<close>

definition body_ok :: "'a uow \<Rightarrow> bool" where
  "body_ok fn \<longleftrightarrow> (\<forall>v. clean v \<longrightarrow>
     wp fn (\<lambda>_ u. since v u \<and> commit_steps (w_committed u) (w_db u)) (\<lambda>_ u. since v u) v)"

lemma moves_withUnitOfWork:
  assumes w: "well_behaved w"
    and body: "\<And>v. since w v \<Longrightarrow> clean v \<Longrightarrow>
      wp fn (\<lambda>_ u. since v u \<and> commit_steps (w_committed u) (w_db u)) (\<lambda>_ u. since v u) v"
  shows "moves w (snd (withUnitOfWork fn w))"
proof -
  have "wp (withUnitOfWork fn) (\<lambda>_. moves w) (\<lambda>_. moves w) w"
  proof (rule wp_withUnitOfWork)
    fix v assume v: "since w v" "clean v"
    show "wp fn
        (\<lambda>x u. (\<forall>w'. commits u w' \<longrightarrow> moves w w') \<and>
               (faulty u \<longrightarrow> (\<forall>w'. commits u w' \<or> since u w' \<longrightarrow> moves w w')))
        (\<lambda>e u. \<forall>w'. since u w' \<longrightarrow> moves w w') v"
    proof (rule wp_mono [OF body [OF v]])
      fix x u assume u: "since v u \<and> commit_steps (w_committed u) (w_db u)"
      then have wu: "since w u" using v since_trans by blast
      then have "moves w u" using w since_moves by blast
      then have "moves w w'" if "commits u w'" for w'
        using that u by (auto simp: commits_def moves_def intro: same_run_trans rtranclp_trans)
      moreover have "moves w w'" if "since u w'" for w'
        using that wu w since_moves since_trans by blast
      ultimately show "(\<forall>w'. commits u w' \<longrightarrow> moves w w') \<and>
               (faulty u \<longrightarrow> (\<forall>w'. commits u w' \<or> since u w' \<longrightarrow> moves w w'))" by blast
    next
      fix e u assume "since v u"
      then show "\<forall>w'. since u w' \<longrightarrow> moves w w'" using v w since_moves since_trans by blast
    qed
  qed (use w in \<open>blast intro: since_moves\<close>)
  then show ?thesis by (force simp: wp_def split: sum.splits prod.splits)
qed

lemma refines_withUnitOfWork: "body_ok fn \<Longrightarrow> refines (withUnitOfWork fn)"
  unfolding refines_def body_ok_def by (blast intro: moves_withUnitOfWork)

section \<open>Reading\<close>

text \<open>A step that leaves a clean unit of work clean.\<close>

definition reads :: "'a uow \<Rightarrow> bool" where
  "reads m \<longleftrightarrow> (\<forall>v. clean v \<longrightarrow>
     wp m (\<lambda>_ u. since v u \<and> clean u) (\<lambda>_ u. since v u \<and> clean u) v)"

lemma readsD:
  "reads m \<Longrightarrow> clean v \<Longrightarrow> wp m (\<lambda>_ u. since v u \<and> clean u) (\<lambda>_ u. since v u \<and> clean u) v"
  by (simp add: reads_def)

lemma reads_body_ok: "reads m \<Longrightarrow> body_ok m"
  unfolding body_ok_def
  by (intro allI impI, rule wp_mono, erule (1) readsD) (auto simp: clean_def)

lemma reads_bindE [preserve_intros]:
  assumes "reads m" and "\<And>x. reads (f x)"
  shows "reads (bindE m f)"
  unfolding reads_def wp_bindE
proof (intro allI impI)
  fix v assume "clean v"
  show "wp m (\<lambda>x. wp (f x) (\<lambda>_ u. since v u \<and> clean u) (\<lambda>_ u. since v u \<and> clean u))
          (\<lambda>_ u. since v u \<and> clean u) v"
  proof (rule wp_mono [OF readsD [OF assms(1) \<open>clean v\<close>]])
    fix x u assume u: "since v u \<and> clean u"
    show "wp (f x) (\<lambda>_ u. since v u \<and> clean u) (\<lambda>_ u. since v u \<and> clean u) u"
      by (rule wp_mono [OF readsD [OF assms(2)]]) (use u since_trans in blast)+
  qed
qed

text \<open>The last step of a body may write.\<close>

lemma body_ok_bindE [preserve_intros]:
  assumes "reads m" and "\<And>x. body_ok (f x)"
  shows "body_ok (bindE m f)"
  unfolding body_ok_def wp_bindE
proof (intro allI impI)
  fix v assume "clean v"
  show "wp m (\<lambda>x. wp (f x) (\<lambda>_ u. since v u \<and> commit_steps (w_committed u) (w_db u))
           (\<lambda>_ u. since v u)) (\<lambda>_ u. since v u) v"
  proof (rule wp_mono [OF readsD [OF assms(1) \<open>clean v\<close>]])
    fix x u assume u: "since v u \<and> clean u"
    show "wp (f x) (\<lambda>_ u. since v u \<and> commit_steps (w_committed u) (w_db u)) (\<lambda>_ u. since v u) u"
      using assms(2) [of x] u unfolding body_ok_def
      by (auto elim!: wp_mono intro: since_trans)
  qed simp
qed

lemma reads_ret [preserve_intros]: "reads (ret x)"
  by (simp add: reads_def)

lemma reads_throw [preserve_intros]: "reads (throw e)"
  by (simp add: reads_def)

lemma reads_decide [preserve_intros]: "reads (decide r)"
  by (simp add: reads_def split: sum.splits)

lemma reads_clock [preserve_intros]: "reads clock"
  by (simp add: reads_def since_reads)

lemma reads_nextID [preserve_intros]: "reads nextID"
  by (simp add: reads_def since_minted)

lemma reads_query [preserve_intros]: "reads (query f)"
  by (auto simp: reads_def intro: wp_query_clean)

lemma reads_sorted_query [preserve_intros]: "reads (sorted_query f)"
  using reads_query unfolding reads_def wp_sorted_query by blast

lemma reads_attempt [preserve_intros]: "reads m \<Longrightarrow> reads (attempt m)"
  by (auto simp: reads_def)

lemma reads_case_option [preserve_intros]:
  "reads m \<Longrightarrow> (\<And>x. reads (f x)) \<Longrightarrow> reads (case r of None \<Rightarrow> m | Some x \<Rightarrow> f x)"
  by (cases r) auto

lemma reads_case_sum [preserve_intros]:
  "(\<And>x. reads (f x)) \<Longrightarrow> (\<And>x. reads (g x)) \<Longrightarrow> reads (case r of Inl x \<Rightarrow> f x | Inr x \<Rightarrow> g x)"
  by (cases r) auto

lemma reads_case_prod [preserve_intros]:
  "(\<And>x y. reads (f x y)) \<Longrightarrow> reads (case p of (x, y) \<Rightarrow> f x y)"
  by (cases p) auto

lemma reads_if [preserve_intros]: "reads m \<Longrightarrow> reads n \<Longrightarrow> reads (if c then m else n)"
  by simp

end
