(* ===== verification/Refinement.thy ===== *)
theory Refinement
  imports Steps
begin

text \<open>
  Every use case of \<open>usecases.go\<close> refines the specification of theory Steps: whatever fails
  and whatever other sessions do in between, the committed database moves by the steps of
  the specification. Reads first, then the writes, then the posting path.
\<close>

section \<open>Rules for bodies that write last\<close>

lemma body_ok_decide:
  "(\<And>x. r = Inr x \<Longrightarrow> body_ok (f x)) \<Longrightarrow> body_ok (bindE (decide r) f)"
  by (auto simp: body_ok_def split: sum.splits)

lemma wp_commit:
  assumes "clean v"
    and "\<And>u x d. since v u \<Longrightarrow> f (w_committed u) = Inr (x, d) \<Longrightarrow> commit_step (w_committed u) d"
  shows "wp (command f) (\<lambda>_ u. since v u \<and> commit_steps (w_committed u) (w_db u)) (\<lambda>_ u. since v u) v"
proof (rule wp_command_clean [OF assms(1)])
  fix w' x d assume w': "since v w'" and "f (w_committed w') = Inr (x, d)"
  then have "commit_steps (w_committed w') d" using assms(2) by blast
  with w' show "since v (w'\<lparr>w_db := d, w_dirty := True\<rparr>) \<and>
      commit_steps (w_committed (w'\<lparr>w_db := d, w_dirty := True\<rparr>)) (w_db (w'\<lparr>w_db := d, w_dirty := True\<rparr>))"
    by (simp add: since_def same_run_def)
qed

lemma body_ok_command:
  "(\<And>d x d'. f d = Inr (x, d') \<Longrightarrow> commit_step d d') \<Longrightarrow> body_ok (command f)"
  unfolding body_ok_def by (blast intro: wp_commit)

definition silent :: "'a uow \<Rightarrow> bool" where
  "silent m \<longleftrightarrow> (\<forall>v. wp m (\<lambda>_ u. u = v) (\<lambda>_ u. u = v) v)"

lemma silent_ret: "silent (ret x)" and silent_throw: "silent (throw e)"
  by (simp_all add: silent_def)

lemma silent_if: "silent m \<Longrightarrow> silent n \<Longrightarrow> silent (if c then m else n)"
  by simp

lemmas silent_intros = silent_ret silent_throw silent_if

lemma wp_then_silent:
  assumes "wp m (\<lambda>_. R) (\<lambda>_. S) v" and "\<And>u. R u \<Longrightarrow> S u" and "\<And>x. silent (f x)"
  shows "wp (bindE m f) (\<lambda>_. R) (\<lambda>_. S) v"
  unfolding wp_bindE
proof (rule wp_mono [OF assms(1)])
  fix x u assume u: "R u"
  have "wp (f x) (\<lambda>_ w. w = u) (\<lambda>_ w. w = u) u" using assms(3) by (simp add: silent_def)
  then show "wp (f x) (\<lambda>_. R) (\<lambda>_. S) u" by (rule wp_mono) (use u assms(2) in auto)
qed

lemma body_ok_then: "body_ok m \<Longrightarrow> (\<And>x. silent (f x)) \<Longrightarrow> body_ok (bindE m f)"
  unfolding body_ok_def by (blast intro: wp_then_silent)

section \<open>The repositories' reads\<close>

lemma reads_accounts_Get [preserve_intros]: "reads (accounts_Get t i)"
  unfolding accounts_Get_def by (intro preserve_intros)

lemma reads_ExistsAnyTenant [preserve_intros]: "reads (ExistsAnyTenant i)"
  unfolding ExistsAnyTenant_def by (intro preserve_intros)

lemma reads_accounts_All [preserve_intros]: "reads (accounts_All s)"
  unfolding accounts_All_def by (intro preserve_intros)

lemma reads_entriesForTransaction [preserve_intros]: "reads (entriesForTransaction t i)"
  unfolding entriesForTransaction_def by (intro preserve_intros)

lemma reads_transactions_Get [preserve_intros]: "reads (transactions_Get t i)"
  unfolding transactions_Get_def by (intro preserve_intros)

lemma reads_EntriesFor [preserve_intros]: "reads (EntriesFor s i)"
  unfolding EntriesFor_def by (intro preserve_intros)

lemma reads_trial_loop [preserve_intros]: "reads (trial_loop rows s c k h)"
  by (induction rows s c k h rule: trial_loop.induct) (auto intro: preserve_intros)

lemma reads_TrialBalance [preserve_intros]: "reads (TrialBalance s)"
  unfolding TrialBalance_def by (intro preserve_intros)

lemma reads_computed_loop [preserve_intros]: "reads (computed_loop rows b)"
proof (induction rows arbitrary: b)
  case (Cons row rows)
  obtain t a c s n where "row = ((t, a, c), s, n)" by (metis prod_cases3)
  with Cons show ?case by (auto intro!: preserve_intros)
qed (auto intro: preserve_intros)

lemma reads_ComputedBalances [preserve_intros]: "reads (ComputedBalances s)"
  unfolding ComputedBalances_def by (intro preserve_intros)

lemma reads_Lookup [preserve_intros]: "reads (idempotency_Lookup k)"
  unfolding idempotency_Lookup_def by (intro preserve_intros)

lemma reads_tenants_ByName [preserve_intros]: "reads (tenants_ByName n)"
  unfolding tenants_ByName_def by (intro preserve_intros)

lemma reads_tenants_ByID [preserve_intros]: "reads (tenants_ByID t)"
  unfolding tenants_ByID_def by (intro preserve_intros)

lemma reads_links_ActiveByPair [preserve_intros]: "reads (links_ActiveByPair a b)"
  unfolding links_ActiveByPair_def by (intro preserve_intros)

lemma reads_links_ByID [preserve_intros]: "reads (links_ByID l)"
  unfolding links_ByID_def by (intro preserve_intros)

lemma reads_aliases_ByTenantAndAlias [preserve_intros]: "reads (aliases_ByTenantAndAlias t a)"
  unfolding aliases_ByTenantAndAlias_def by (intro preserve_intros)

lemma reads_scan_found [preserve_intros]: "reads (scan_found r)"
  unfolding scan_found_def by (intro preserve_intros)

lemma reads_transfers_Get [preserve_intros]: "reads (transfers_Get x)"
  unfolding transfers_Get_def by (intro preserve_intros)

lemma reads_ByTenantAndIdempotencyKey [preserve_intros]: "reads (ByTenantAndIdempotencyKey t k)"
  unfolding ByTenantAndIdempotencyKey_def by (intro preserve_intros)

lemma reads_ClaimDue [preserve_intros]: "reads (ClaimDue n b)"
  unfolding ClaimDue_def by (intro preserve_intros)

section \<open>The use cases but posting\<close>

lemma reads_accountAlreadyOpen [preserve_intros]: "reads (accountAlreadyOpen t i)"
  unfolding accountAlreadyOpen_def by (intro preserve_intros)

lemma reads_tenantNameAlreadyTaken [preserve_intros]: "reads (tenantNameAlreadyTaken n)"
  unfolding tenantNameAlreadyTaken_def by (intro preserve_intros)

lemma reads_provisionedTenants [preserve_intros]: "reads (provisionedTenants ts)"
  by (induction ts) (auto intro!: preserve_intros)

lemma reads_activeLinkSnapshot [preserve_intros]: "reads (activeLinkSnapshot a b)"
  unfolding activeLinkSnapshot_def by (intro preserve_intros)

lemma reads_tenantLinkSnapshot [preserve_intros]: "reads (tenantLinkSnapshot l)"
  unfolding tenantLinkSnapshot_def by (intro preserve_intros)

text \<open>An account opened at zero in the ledger's currency may be inserted.\<close>

lemma body_ok_accounts_Create:
  assumes "acct_balance a = \<lparr>minorUnits = 0, currency = ledgerCurrency\<rparr>" and "t \<noteq> []"
  shows "body_ok (accounts_Create t a)"
  unfolding accounts_Create_def
  by (rule body_ok_command, rule step_account) (use assms in auto)

lemma OpenAccount_Inr:
  "OpenAccount t i k z taken = Inr a \<Longrightarrow>
     \<not> taken \<and> t \<noteq> [] \<and> a = \<lparr>acct_id = i, acct_kind = k, acct_balance = z, acct_tenantID = t\<rparr>"
  by (auto simp: OpenAccount_def NewAccount_Inr_iff Account_wf_def split: if_splits)

lemma refines_CreateAccount [preserve_intros]: "refines (CreateAccount t i k)"
proof -
  have z: "decide (NewMoney 0 ledgerCurrency) = ret \<lparr>minorUnits = 0, currency = ledgerCurrency\<rparr>"
    by (simp add: NewMoney_eq ledgerCurrency_def decide_def)
  have "refines (withUnitOfWork
      (bindE (accountAlreadyOpen t i) (\<lambda>alreadyOpen.
       bindE (decide (OpenAccount t i k \<lparr>minorUnits = 0, currency = ledgerCurrency\<rparr> alreadyOpen))
         (\<lambda>account. accounts_Create t account))))"
    by (intro refines_withUnitOfWork body_ok_bindE reads_accountAlreadyOpen body_ok_decide
        body_ok_accounts_Create) (auto dest: OpenAccount_Inr)
  then show ?thesis
    unfolding CreateAccount_def z by (simp add: bindE_def ret_def refines_def)
qed

lemma body_ok_tenants_Create: "body_ok (tenants_Create t)"
proof -
  have "body_ok (command (insert_tenant r))" for r
    by (rule body_ok_command, rule step_tenant) simp
  then show ?thesis by (simp add: body_ok_def wp_def tenants_Create_def)
qed

lemma refines_ProvisionTenant [preserve_intros]: "refines (ProvisionTenant n)"
  unfolding ProvisionTenant_def Let_def
  by (intro refines_withUnitOfWork body_ok_bindE preserve_intros body_ok_decide body_ok_then
      body_ok_tenants_Create silent_intros)

lemma refines_AuthorizeTenantPair [preserve_intros]: "refines (AuthorizeTenantPair a b)"
  unfolding AuthorizeTenantPair_def Let_def links_Create_def
  by (intro refines_withUnitOfWork body_ok_bindE preserve_intros body_ok_decide body_ok_then
      body_ok_command silent_intros, rule step_link)
     (auto dest: domain_AuthorizeTenantPair_Inr)

lemma refines_RegisterCounterpartyAlias [preserve_intros]: "refines (RegisterCounterpartyAlias t a tt ta)"
  unfolding RegisterCounterpartyAlias_def aliases_Create_def
  by (intro refines_withUnitOfWork body_ok_bindE preserve_intros body_ok_decide body_ok_then
      body_ok_command silent_intros, rule step_alias) simp

lemma refines_RevokeTenantLink [preserve_intros]: "refines (RevokeTenantLink l)"
  unfolding RevokeTenantLink_def links_Revoke_def
  by (intro refines_withUnitOfWork body_ok_bindE preserve_intros body_ok_decide body_ok_then
      body_ok_command silent_intros) (auto intro: step_revoke)

lemma refines_GetBalance [preserve_intros]: "refines (GetBalance t i)"
  unfolding GetBalance_def by (intro refines_withUnitOfWork reads_body_ok preserve_intros)

lemma refines_GetEntries [preserve_intros]: "refines (GetEntries s i)"
  unfolding GetEntries_def by (intro preserve_intros refines_withUnitOfWork reads_body_ok)

lemma reads_verify_body [preserve_intros]: "reads (verify_body s)"
  unfolding verify_body_def by (intro preserve_intros)

lemma refines_VerifyBooks [preserve_intros]: "refines (VerifyBooks s)"
  unfolding VerifyBooks_def by (intro preserve_intros refines_withUnitOfWork reads_body_ok)

end
