(* ===== verification/PostRefinement.thy ===== *)
theory PostRefinement
  imports Refinement
begin

text \<open>
  The posting path of \<open>usecases.go\<close> refines \<open>step_post\<close>: what the locked snapshots say still
  holds when the writes run, so the six statements of one posting add up to one allowed
  movement, and the retry on a lost claim only repeats that.
\<close>

section \<open>Locking\<close>

lemma clean_iff: "clean u \<longleftrightarrow> \<not> pending u \<and> w_db u = w_committed u"
  by (auto simp: clean_def pending_def)

text \<open>An error other than a lost claim, after which nothing of this unit of work is visible.\<close>

definition calm :: "world \<Rightarrow> go_error \<Rightarrow> world \<Rightarrow> bool" where
  "calm s e u \<longleftrightarrow> since s u \<and> e \<noteq> ErrIdempotencyKeyClaimConflict"

lemma calm_simps [simp]:
  "calm s (ErrInfra x) u \<longleftrightarrow> since s u" "calm s (ErrViolation v) u \<longleftrightarrow> since s u"
  "calm s ErrIdempotencyKeyConflict u \<longleftrightarrow> since s u"
  by (simp_all add: calm_def)

lemma calm_trans: "since s u \<Longrightarrow> calm u e w \<Longrightarrow> calm s e w"
  by (auto simp: calm_def intro: since_trans)

text \<open>Reached from \<open>s\<close>, nothing written; once a row is locked no other session moves.\<close>

definition read_from :: "world \<Rightarrow> world \<Rightarrow> bool" where
  "read_from s u \<longleftrightarrow> since s u \<and> w_db u = w_committed u \<and>
     (pending s \<longrightarrow> pending u \<and> w_committed u = w_committed s)"

lemma read_from_refl: "w_db s = w_committed s \<Longrightarrow> read_from s s"
  by (simp add: read_from_def)

lemma read_from_trans: "read_from s u \<Longrightarrow> read_from u v \<Longrightarrow> read_from s v"
  by (auto simp: read_from_def intro: since_trans)

lemma read_from_ops: "w_db s = w_committed s \<Longrightarrow> read_from s (s\<lparr>w_ops := Suc (w_ops s)\<rparr>)"
  by (auto simp: read_from_def pending_def intro: since_ops)

lemma read_from_locked:
  "read_from s u \<Longrightarrow> read_from s (u\<lparr>w_locks := w_locks u @ ks\<rparr>)"
  by (auto simp: read_from_def pending_def since_def same_run_def)

definition snapshot :: "string \<Rightarrow> db \<Rightarrow> Account \<Rightarrow> bool" where
  "snapshot t d a \<longleftrightarrow> (\<exists>r. db_account d t (acct_id a) = Some r \<and> scanAccount r t = Inr a)"

lemma db_account_key: "db_account d t i = Some r \<Longrightarrow> ar_tenant r = t \<and> ar_id r = i \<and> r \<in> set (accounts d)"
  by (auto simp: db_account_def account_key_def dest!: find_Some_memD)

lemma wp_lockOne:
  assumes s: "w_db s = w_committed s"
  shows "wp (lockOne t i) (\<lambda>x u. read_from s u \<and> (\<forall>a. x = Some a \<longrightarrow> pending u \<and> snapshot t (w_db u) a))
           (calm s) s"
proof -
  let ?Q = "\<lambda>x u. read_from s u \<and> (\<forall>a. x = Some a \<longrightarrow> pending u \<and> snapshot t (w_db u) a)"
  let ?f = "\<lambda>row. case row of None \<Rightarrow> ret None
       | Some r \<Rightarrow> bindE (decide (scanAccount r t)) (\<lambda>a. ret (Some a))"
  have found: "wp (?f (Some r)) ?Q (calm s) u"
    if u: "read_from s u" "pending u" and r: "db_account (w_db u) t i = Some r" for r u
  proof -
    have "snapshot t (w_db u) a" if "scanAccount r t = Inr a" for a
      using that r db_account_key [OF r] by (auto simp: snapshot_def scanAccount_Inr_iff)
    moreover have "since s u" using u by (simp add: read_from_def)
    ultimately show ?thesis using u by (simp split: sum.splits)
  qed
  show ?thesis
  proof (cases "pending s")
    case False
    then have c: "clean s" using s by (simp add: clean_iff)
    have rf: "read_from s u" if "since s u" "clean u" for u
      using that False by (simp add: read_from_def clean_def)
    show ?thesis unfolding lockOne_def wp_bindE
    proof (rule wp_select_for_update_clean [OF c])
      fix u r assume u: "since s u" "clean u" and r: "db_account (w_committed u) t i = Some r"
      have "w_locks u = []" using u(2) by (simp add: clean_def)
      then have "read_from s (u\<lparr>w_locks := [AccountRow t i]\<rparr>)"
        using read_from_locked [OF rf [OF u], of "[AccountRow t i]"] by simp
      then show "wp (?f (Some r)) ?Q (calm s) (u\<lparr>w_locks := [AccountRow t i]\<rparr>)"
        using u r by (intro found) (auto simp: pending_def clean_def)
    qed (simp_all add: rf)
  next
    case True
    let ?u = "s\<lparr>w_ops := Suc (w_ops s)\<rparr>"
    have u: "read_from s ?u" using s by (rule read_from_ops)
    show ?thesis unfolding lockOne_def wp_bindE
    proof (rule wp_select_for_update_pending [OF True])
      fix r assume r: "db_account (w_db s) t i = Some r"
      show "wp (?f (Some r)) ?Q (calm s)
              (s\<lparr>w_ops := Suc (w_ops s), w_locks := w_locks s @ [AccountRow t i]\<rparr>)"
        using read_from_locked [OF u, of "[AccountRow t i]"] r
        by (intro found) (simp_all add: pending_def)
    qed (use u in \<open>simp_all add: read_from_def\<close>)
  qed
qed

definition locked :: "world \<Rightarrow> string \<Rightarrow> Account list \<Rightarrow> world \<Rightarrow> bool" where
  "locked s t as u \<longleftrightarrow> read_from s u \<and> (as \<noteq> [] \<longrightarrow> pending u) \<and> (\<forall>a \<in> set as. snapshot t (w_db u) a)"

lemma wp_lock_loop:
  "w_db s = w_committed s \<Longrightarrow> wp (lock_loop t ids) (locked s t) (calm s) s"
proof (induction ids arbitrary: s)
  case Nil
  then show ?case by (simp add: locked_def read_from_refl)
next
  case (Cons i ids)
  show ?case unfolding lock_loop.simps wp_bindE
  proof (rule wp_mono [OF wp_lockOne [OF Cons.prems]])
    fix x u
    assume u: "read_from s u \<and> (\<forall>a. x = Some a \<longrightarrow> pending u \<and> snapshot t (w_db u) a)"
    then have db: "w_db u = w_committed u" by (simp add: read_from_def)
    show "wp (lock_loop t ids) (\<lambda>as. wp (ret (case x of None \<Rightarrow> as | Some a \<Rightarrow> a # as)) (locked s t)
             (calm s)) (calm s) u"
    proof (rule wp_mono [OF Cons.IH [OF db]])
      fix as v assume v: "locked u t as v"
      then have "read_from s v" using u read_from_trans by (auto simp: locked_def)
      moreover have "pending v \<and> snapshot t (w_db v) a" if "x = Some a" for a
      proof -
        have "pending u" "snapshot t (w_db u) a" "w_db u = w_committed u"
          using that u by (auto simp: read_from_def)
        then show ?thesis using v by (auto simp: locked_def read_from_def)
      qed
      ultimately show "wp (ret (case x of None \<Rightarrow> as | Some a \<Rightarrow> a # as)) (locked s t) (calm s) v"
        using v by (cases x) (auto simp: locked_def)
    next
      fix e v assume "calm u e v" with u show "calm s e v" by (auto simp: read_from_def intro: calm_trans)
    qed
  qed
qed

section \<open>The six writes of a posting\<close>

lemma update_balance_Inr:
  assumes "update_balance t \<delta> d = Inr (n, d')"
  shows "d' = d\<lparr>accounts := map (apply_delta t (d_AccountID \<delta>) (currency (d_Delta \<delta>)) (minorUnits (d_Delta \<delta>)))
                 (accounts d)\<rparr>"
    and "\<And>r. r \<in> set (accounts d) \<Longrightarrow> delta_hits t \<delta> r \<Longrightarrow>
            in_int64 (sint (ar_balance r) + sint (minorUnits (d_Delta \<delta>)))"
  using assms
  by (auto simp: update_balance_def Let_def delta_hits_def apply_delta_def bigint_add_def fun_eq_iff
      split: if_splits intro!: arg_cong [where f = "\<lambda>h. d\<lparr>accounts := map h (accounts d)\<rparr>"])

lemma insert_transaction_Inr:
  "insert_transaction r d = Inr (x, d') \<Longrightarrow> \<not> transaction_exists d (tr_id r) \<and>
     tenant_exists d (tr_tenant r) \<and> d' = d\<lparr>transactions := transactions d @ [r]\<rparr>"
  by (auto simp: insert_transaction_def violates_def split: if_splits)

lemma insert_entry_Inr:
  "insert_entry r d = Inr (x, d') \<Longrightarrow> d' = d\<lparr>entries := entries d @ [r]\<rparr>"
  by (auto simp: insert_entry_def violates_def split: if_splits)

lemma apply_delta_key [simp]:
  "ar_tenant (apply_delta t i c x r) = ar_tenant r" "ar_id (apply_delta t i c x r) = ar_id r"
  "ar_kind (apply_delta t i c x r) = ar_kind r" "ar_currency (apply_delta t i c x r) = ar_currency r"
  "account_key (apply_delta t i c x r) = account_key r"
  by (simp_all add: apply_delta_def account_key_def)

text \<open>The statements of one posting in order, as \<open>Append\<close>, \<open>ApplyDeltas\<close> and \<open>Claim\<close> issue them.\<close>

definition post_writes ::
  "string \<Rightarrow> string \<Rightarrow> string \<Rightarrow> Money \<Rightarrow> string \<Rightarrow> time \<Rightarrow> string \<Rightarrow> string \<Rightarrow> db \<Rightarrow> db \<Rightarrow> bool" where
  "post_writes t a b m tid now k fp d d6 \<longleftrightarrow> (\<exists>d1 d2 d3 n4 d4 n5 d5 n6.
     insert_transaction \<lparr>tr_tenant = t, tr_id = tid, tr_recorded_at = timestamptz now\<rparr> d = Inr ((), d1) \<and>
     insert_entry (leg t tid a b (- minorUnits m) (currency m) (timestamptz now) 0) d1 = Inr ((), d2) \<and>
     insert_entry (leg t tid b a (minorUnits m) (currency m) (timestamptz now) 1) d2 = Inr ((), d3) \<and>
     update_balance t \<lparr>d_AccountID = a, d_Delta = Money_Negate m\<rparr> d3 = Inr (n4, d4) \<and>
     update_balance t \<lparr>d_AccountID = b, d_Delta = m\<rparr> d4 = Inr (n5, d5) \<and>
     insert_key \<lparr>kr_key = k, kr_fingerprint = fp, kr_transaction = tid\<rparr> d5 = Inr (n6, d6) \<and> n6 \<noteq> 0)"

lemma post_writes_posted:
  assumes "post_writes t a b m tid now k fp d d'"
  shows "d' = posted t a b m tid (timestamptz now) k fp d"
    and "\<not> transaction_exists d tid" and "tenant_exists d t" and "db_key d k = None"
proof -
  obtain d1 d2 d3 n4 d4 n5 d5 n6 where
    w1: "insert_transaction \<lparr>tr_tenant = t, tr_id = tid, tr_recorded_at = timestamptz now\<rparr> d = Inr ((), d1)" and
    w2: "insert_entry (leg t tid a b (- minorUnits m) (currency m) (timestamptz now) 0) d1 = Inr ((), d2)" and
    w3: "insert_entry (leg t tid b a (minorUnits m) (currency m) (timestamptz now) 1) d2 = Inr ((), d3)" and
    w4: "update_balance t \<lparr>d_AccountID = a, d_Delta = Money_Negate m\<rparr> d3 = Inr (n4, d4)" and
    w5: "update_balance t \<lparr>d_AccountID = b, d_Delta = m\<rparr> d4 = Inr (n5, d5)" and
    w6: "insert_key \<lparr>kr_key = k, kr_fingerprint = fp, kr_transaction = tid\<rparr> d5 = Inr (n6, d')" and "n6 \<noteq> 0"
    using assms unfolding post_writes_def by blast
  have d1: "d1 = d\<lparr>transactions := transactions d @ [\<lparr>tr_tenant = t, tr_id = tid, tr_recorded_at = timestamptz now\<rparr>]\<rparr>"
    and tx: "\<not> transaction_exists d tid" and tn: "tenant_exists d t"
    using insert_transaction_Inr [OF w1] by simp_all
  have d2: "d2 = d1\<lparr>entries := entries d1 @ [leg t tid a b (- minorUnits m) (currency m) (timestamptz now) 0]\<rparr>"
    using insert_entry_Inr [OF w2] .
  have d3: "d3 = d2\<lparr>entries := entries d2 @ [leg t tid b a (minorUnits m) (currency m) (timestamptz now) 1]\<rparr>"
    using insert_entry_Inr [OF w3] .
  note d4 = update_balance_Inr(1) [OF w4] and d5 = update_balance_Inr(1) [OF w5]
  have d6: "d' = d5\<lparr>idempotency_keys := idempotency_keys d5 @ [\<lparr>kr_key = k, kr_fingerprint = fp, kr_transaction = tid\<rparr>]\<rparr>"
    and key: "db_key d5 k = None"
    using w6 \<open>n6 \<noteq> 0\<close> by (auto simp: insert_key_def violates_def split: if_splits)
  show "d' = posted t a b m tid (timestamptz now) k fp d"
    unfolding d6 d5 d4 d3 d2 d1 by (simp add: posted_def)
  show "\<not> transaction_exists d tid" "tenant_exists d t" using tx tn .
  show "db_key d k = None" using key by (simp add: d5 d4 d3 d2 d1 db_key_def)
qed

text \<open>What the rulebook accepted on the locked snapshots is a movement the specification allows.\<close>

lemma find_apply_delta:
  "List.find (\<lambda>r. account_key r = k) (map (apply_delta t i c x) rs) =
     map_option (apply_delta t i c x) (List.find (\<lambda>r. account_key r = k) rs)"
  by (rule find_map_keep) simp

lemma Post_writes_movable:
  assumes post: "Post \<lparr>cmd_From = a, cmd_To = b, cmd_Amount = m, cmd_TenantID = t\<rparr> as now tid = Inr p"
    and snap: "\<forall>x \<in> set as. snapshot t d x"
    and writes: "post_writes t a b m tid now k fp d d'"
  shows "movable t a b m d"
proof -
  obtain f' g' where fg: "findAccount as a = Some f'" "findAccount as b = Some g'"
      "0 < sint (minorUnits m)" "\<exists>x. Account_Apply f' (Money_Negate m) = Inr x" "\<exists>x. Account_Apply g' m = Inr x"
    using post by (auto simp: Post_eq split: if_splits option.splits sum.splits)
  then have ids: "f' \<in> set as" "acct_id f' = a" "g' \<in> set as" "acct_id g' = b"
    using findAccount_Some by blast+
  then obtain f g where f: "db_account d t a = Some f" "scanAccount f t = Inr f'"
      and g: "db_account d t b = Some g" "scanAccount g t = Inr g'"
    using snap unfolding snapshot_def by metis
  have cf: "ar_currency f = currency m" and cg: "ar_currency g = currency m"
    and known: "known_currency (currency m)"
    and wf: "ar_kind f = Wallet \<longrightarrow> 0 \<le> sint (ar_balance f - minorUnits m) \<and> 0 \<le> sint (ar_balance f)"
    and wg: "ar_kind g = Wallet \<longrightarrow> 0 \<le> sint (ar_balance g)"
    using fg(4,5) f(2) g(2) by (auto simp: scanAccount_Inr_iff Account_Apply_Inr_iff)
  obtain d1 d2 d3 n4 d4 n5 d5 where
    w1: "insert_transaction \<lparr>tr_tenant = t, tr_id = tid, tr_recorded_at = timestamptz now\<rparr> d = Inr ((), d1)" and
    w2: "insert_entry (leg t tid a b (- minorUnits m) (currency m) (timestamptz now) 0) d1 = Inr ((), d2)" and
    w3: "insert_entry (leg t tid b a (minorUnits m) (currency m) (timestamptz now) 1) d2 = Inr ((), d3)" and
    w4: "update_balance t \<lparr>d_AccountID = a, d_Delta = Money_Negate m\<rparr> d3 = Inr (n4, d4)" and
    w5: "update_balance t \<lparr>d_AccountID = b, d_Delta = m\<rparr> d4 = Inr (n5, d5)"
    using writes unfolding post_writes_def by blast
  have acc: "accounts d3 = accounts d"
    using insert_transaction_Inr [OF w1] insert_entry_Inr [OF w2] insert_entry_Inr [OF w3] by simp
  note fk = db_account_key [OF f(1)] and gk = db_account_key [OF g(1)]
  have neg: "sint (- minorUnits m) = - sint (minorUnits m)" using fg(3) by (rule sint_minus_pos)
  have rf: "in_int64 (sint (ar_balance f) - sint (minorUnits m))"
    using update_balance_Inr(2) [OF w4, of f] fk cf neg by (simp add: delta_hits_def acc)
  have rg: "in_int64 (sint (ar_balance g) + sint (minorUnits m))" if "a \<noteq> b"
  proof -
    have "apply_delta t a (currency m) (- minorUnits m) g = g" using gk that by (simp add: apply_delta_def)
    then have "g \<in> set (accounts d4)"
      using gk update_balance_Inr(1) [OF w4] acc by (auto simp: image_iff intro!: bexI [of _ g])
    then show ?thesis using update_balance_Inr(2) [OF w5, of g] gk cg by (simp add: delta_hits_def)
  qed
  have "sint (ar_balance f - minorUnits m) = sint (ar_balance f) - sint (minorUnits m)"
    using rf sint_add_exact [of "ar_balance f" "- minorUnits m"] neg by simp
  then show ?thesis using f g fg(3) cf cg known wf wg rf rg by (simp add: movable_def)
qed

section \<open>The body of the unit of work\<close>

definition posting_of :: "TransferRequest \<Rightarrow> string \<Rightarrow> time \<Rightarrow> Posting" where
  "posting_of cmd tid now =
     \<lparr>p_Transaction = \<lparr>txn_id = tid, txn_recordedAt = now\<rparr>,
      p_Entries = [\<lparr>e_transactionID = tid, e_accountID = req_From cmd, e_counterparty = req_To cmd,
          e_amount = Money_Negate (req_Amount cmd), e_recordedAt = now, e_sequence = 0\<rparr>,
        \<lparr>e_transactionID = tid, e_accountID = req_To cmd, e_counterparty = req_From cmd,
          e_amount = req_Amount cmd, e_recordedAt = now, e_sequence = 1\<rparr>],
      p_Deltas = [\<lparr>d_AccountID = req_From cmd, d_Delta = Money_Negate (req_Amount cmd)\<rparr>,
        \<lparr>d_AccountID = req_To cmd, d_Delta = req_Amount cmd\<rparr>]\<rparr>"

lemma Post_Inr_posting_of:
  "Post \<lparr>cmd_From = req_From cmd, cmd_To = req_To cmd, cmd_Amount = req_Amount cmd, cmd_TenantID = t\<rparr>
     as now tid = Inr p \<Longrightarrow> p = posting_of cmd tid now"
  by (auto simp: Post_eq posting_of_def split: if_splits option.splits sum.splits)

text \<open>What a first write of the request has done to the state \<open>d\<close> it found.\<close>

definition first_write :: "TransferRequest \<Rightarrow> string \<Rightarrow> time \<Rightarrow> db \<Rightarrow> db \<Rightarrow> bool" where
  "first_write cmd tid now d d' \<longleftrightarrow>
     movable (req_TenantID cmd) (req_From cmd) (req_To cmd) (req_Amount cmd) d \<and>
     \<not> transaction_exists d tid \<and> tenant_exists d (req_TenantID cmd) \<and>
     db_key d (req_IdempotencyKey cmd) = None \<and>
     d' = posted (req_TenantID cmd) (req_From cmd) (req_To cmd) (req_Amount cmd) tid (timestamptz now)
            (req_IdempotencyKey cmd) (req_Fingerprint cmd) d"

lemma first_write_step: "first_write cmd tid now d d' \<Longrightarrow> commit_step d d'"
  by (auto simp: first_write_def intro: step_post)

definition write_phase :: "TransferRequest \<Rightarrow> string \<Rightarrow> Posting \<Rightarrow> Result uow" where
  "write_phase cmd tid p =
     bindE (Append (req_TenantID cmd) p) (\<lambda>_.
     bindE (ApplyDeltas (req_TenantID cmd) (p_Deltas p)) (\<lambda>_.
     bindE (idempotency_Claim (req_IdempotencyKey cmd) (req_Fingerprint cmd) tid) (\<lambda>_.
       ret \<lparr>res_Posting = p, res_Replayed = False\<rparr>)))"

text \<open>A constraint violation is never mistaken for a lost claim.\<close>

lemma insert_not_conflict:
  "insert_transaction r d \<noteq> Inl ErrIdempotencyKeyClaimConflict"
  "insert_entry e d \<noteq> Inl ErrIdempotencyKeyClaimConflict"
  "update_balance t x d \<noteq> Inl ErrIdempotencyKeyClaimConflict"
  "insert_key c d \<noteq> Inl ErrIdempotencyKeyClaimConflict"
  by (auto simp: insert_defs insert_key_def update_balance_def Let_def)

lemma insert_key_rows:
  "insert_key c d = Inr (n, d') \<Longrightarrow> n = 0 \<longleftrightarrow> db_key d (kr_key c) \<noteq> None"
  by (auto simp: insert_key_def violates_def split: if_splits)

lemma post_chain_key:
  assumes "insert_transaction r d = Inr (u0, d1)" "insert_entry e d1 = Inr (u1, d2)"
    "insert_entry f d2 = Inr (u2, d3)" "update_balance t x d3 = Inr (n4, d4)"
    "update_balance t y d4 = Inr (n5, d5)"
  shows "db_key d5 k = db_key d k"
  using insert_transaction_Inr [OF assms(1)] insert_entry_Inr [OF assms(2)]
    insert_entry_Inr [OF assms(3)] update_balance_Inr(1) [OF assms(4)] update_balance_Inr(1) [OF assms(5)]
  by (simp add: db_key_def)

lemma wp_write_phase:
  assumes "holding v d u"
  shows "wp (write_phase cmd tid (posting_of cmd tid now))
     (\<lambda>res u'. \<exists>d'. holding v d' u' \<and> res = \<lparr>res_Posting = posting_of cmd tid now, res_Replayed = False\<rparr> \<and>
        post_writes (req_TenantID cmd) (req_From cmd) (req_To cmd) (req_Amount cmd) tid now
          (req_IdempotencyKey cmd) (req_Fingerprint cmd) d d')
     (\<lambda>e u'. since v u' \<and> w_committed u' = w_committed v \<and>
        (e = ErrIdempotencyKeyClaimConflict \<longrightarrow> db_key d (req_IdempotencyKey cmd) \<noteq> None)) u"
proof -
  note H = wp_command_holding
  have stay: "holding v d' x \<Longrightarrow> since v x \<and> w_committed x = w_committed v" for d' x
    by (simp add: holding_def)
  show ?thesis
    unfolding write_phase_def Append_def ApplyDeltas_def idempotency_Claim_def wp_bindE
      posting_of_def Posting.simps Transaction.simps forE.simps entry_to_row_def Entry.simps
      Money_Negate_sel leg_def [symmetric]
    apply (rule H [OF assms])
    subgoal for w1 _ d1
      apply (erule H)
      subgoal for w2 _ d2
        apply (erule H)
        subgoal for w3 _ d3
          apply simp
          apply (erule H)
          subgoal for w4 n4 d4
            apply (simp add: stay)
            apply (rule impI)
            apply (erule H)
            subgoal for w5 n5 d5
              apply (simp add: stay)
              apply (rule impI)
              apply (erule H)
              subgoal for w6 n6 d6
                apply (frule insert_key_rows)
                apply (frule (4) post_chain_key [where k = "req_IdempotencyKey cmd"])
                apply (auto simp: stay post_writes_def)
                done
              by (auto simp: stay insert_not_conflict)
            by (auto simp: stay insert_not_conflict)
          by (auto simp: stay insert_not_conflict)
        by (auto simp: stay insert_not_conflict)
      by (auto simp: stay insert_not_conflict)
    by (auto simp: stay insert_not_conflict)
qed

text \<open>A posting as \<open>transactionRepository.Get\<close> reads it back.\<close>

definition stored_entries :: "db \<Rightarrow> string \<Rightarrow> string \<Rightarrow> entry_row list" where
  "stored_entries d t tid = sort_key (\<lambda>r. sint (er_sequence r))
     (filter (\<lambda>r. er_tenant r = t \<and> er_transaction r = tid) (entries d))"

text \<open>The transaction row was read at one moment, its entries at the last one.\<close>

definition posting_read :: "world \<Rightarrow> string \<Rightarrow> string \<Rightarrow> Posting \<Rightarrow> world \<Rightarrow> bool" where
  "posting_read v t tid p u \<longleftrightarrow> clean u \<and> (\<exists>u1 r. since v u1 \<and> since u1 u \<and>
     stored_transaction (w_committed u1) t tid = Some r \<and>
     p_Transaction p = \<lparr>txn_id = tid, txn_recordedAt = tr_recorded_at r\<rparr> \<and>
     scanEntries (stored_entries (w_committed u) t tid) tid = Inr (p_Entries p) \<and> p_Deltas p = [])"

lemma wp_entriesForTransaction:
  assumes "clean v"
  shows "wp (entriesForTransaction t tid)
     (\<lambda>es u. since v u \<and> clean u \<and> scanEntries (stored_entries (w_committed u) t tid) tid = Inr es)
     (calm v) v"
  unfolding entriesForTransaction_def stored_entries_def [symmetric] wp_bindE
  by (rule wp_query_clean [OF assms]) (auto split: sum.splits)

lemma wp_transactions_Get:
  assumes "clean v"
  shows "wp (transactions_Get t tid) (\<lambda>p u. since v u \<and> posting_read v t tid p u) (calm v) v"
  unfolding transactions_Get_def stored_transaction_def [symmetric] wp_bindE
proof (rule wp_query_clean [OF assms], goal_cases)
  case (1 u1)
  have "wp (entriesForTransaction t tid) (\<lambda>es u. since v u \<and> posting_read v t tid
          \<lparr>p_Transaction = \<lparr>txn_id = tid, txn_recordedAt = tr_recorded_at r\<rparr>, p_Entries = es, p_Deltas = []\<rparr> u)
          (calm v) u1"
    if r: "stored_transaction (w_committed u1) t tid = Some r" for r
  proof (rule wp_mono [OF wp_entriesForTransaction [OF 1(2)]])
    fix es u
    assume u: "since u1 u \<and> clean u \<and> scanEntries (stored_entries (w_committed u) t tid) tid = Inr es"
    then have "posting_read v t tid
        \<lparr>p_Transaction = \<lparr>txn_id = tid, txn_recordedAt = tr_recorded_at r\<rparr>, p_Entries = es, p_Deltas = []\<rparr> u"
      unfolding posting_read_def using 1(1) r by (intro conjI exI [of _ u1] exI [of _ r]) simp_all
    then show "since v u \<and> posting_read v t tid
        \<lparr>p_Transaction = \<lparr>txn_id = tid, txn_recordedAt = tr_recorded_at r\<rparr>, p_Entries = es, p_Deltas = []\<rparr> u"
      using u 1(1) since_trans by blast
  next
    fix e u assume "calm u1 e u" then show "calm v e u" using 1(1) calm_trans by blast
  qed
  then show ?case using 1 by (simp add: NewTransaction_def split: option.splits)
qed simp

text \<open>What the body of \<open>PostTransfer\<close> answers and leaves in its view, on both success paths.\<close>

definition replay_of :: "TransferRequest \<Rightarrow> world \<Rightarrow> Posting \<Rightarrow> world \<Rightarrow> bool" where
  "replay_of cmd v p u \<longleftrightarrow> (\<exists>u1 c. since v u1 \<and>
     db_key (w_committed u1) (req_IdempotencyKey cmd) = Some c \<and>
     kr_fingerprint c = req_Fingerprint cmd \<and>
     posting_read u1 (req_TenantID cmd) (kr_transaction c) p u)"

definition body_result :: "TransferRequest \<Rightarrow> world \<Rightarrow> Result \<Rightarrow> world \<Rightarrow> bool" where
  "body_result cmd v res u \<longleftrightarrow> since v u \<and>
     (if res_Replayed res then replay_of cmd v (res_Posting res) u
      else \<exists>tid now. res_Posting res = posting_of cmd tid now \<and>
             first_write cmd tid now (w_committed u) (w_db u))"

lemma wp_replay:
  assumes u: "since v u" "clean u" and c: "db_key (w_committed u) (req_IdempotencyKey cmd) = Some c"
    and fp: "kr_fingerprint c = req_Fingerprint cmd"
  shows "wp (transactions_Get (req_TenantID cmd) (kr_transaction c))
     (\<lambda>p. body_result cmd v \<lparr>res_Posting = p, res_Replayed = True\<rparr>) (calm v) u"
proof (rule wp_mono [OF wp_transactions_Get [OF u(2)]])
  fix p :: Posting and w
  assume P: "since u w \<and> posting_read u (req_TenantID cmd) (kr_transaction c) p w"
  then have "since v w" using u(1) since_trans by blast
  moreover have "replay_of cmd v p w"
    unfolding replay_of_def using P u(1) c fp by (intro exI [of _ u] exI [of _ c] conjI) blast+
  ultimately show "body_result cmd v \<lparr>res_Posting = p, res_Replayed = True\<rparr> w"
    by (simp add: body_result_def)
next
  fix e w assume "calm u e w" then show "calm v e w" using u calm_trans by blast
qed

text \<open>A lost claim: the key was free when it was looked up and is taken now.\<close>

definition body_error :: "TransferRequest \<Rightarrow> world \<Rightarrow> go_error \<Rightarrow> world \<Rightarrow> bool" where
  "body_error cmd v e u \<longleftrightarrow> since v u \<and> (e = ErrIdempotencyKeyClaimConflict \<longrightarrow>
     db_key (w_committed u) (req_IdempotencyKey cmd) \<noteq> None \<and>
     (\<exists>u1. since v u1 \<and> db_key (w_committed u1) (req_IdempotencyKey cmd) = None))"

lemma calm_body_error: "calm v e u \<Longrightarrow> body_error cmd v e u"
  by (simp add: calm_def body_error_def)

lemma wp_first_write:
  assumes u: "since v u" "locked u (req_TenantID cmd) as u'"
    and post: "Post \<lparr>cmd_From = req_From cmd, cmd_To = req_To cmd, cmd_Amount = req_Amount cmd,
                cmd_TenantID = req_TenantID cmd\<rparr> as now tid = Inr p"
    and w: "since u' w" "pending w = pending u'" "w_db w = w_db u'" "w_committed w = w_committed u'"
    and free: "db_key (w_committed u) (req_IdempotencyKey cmd) = None"
  shows "wp (write_phase cmd tid p) (body_result cmd v) (body_error cmd v) w"
proof -
  have p: "p = posting_of cmd tid now" using post by (rule Post_Inr_posting_of)
  have "as \<noteq> []" using post by (auto simp: Post_eq split: if_splits)
  then have "pending w" and snap: "\<forall>a \<in> set as. snapshot (req_TenantID cmd) (w_db w) a"
    and db: "w_db w = w_committed w"
    using u w by (auto simp: locked_def read_from_def)
  then have h: "holding w (w_db w) w" by (simp add: holding_def)
  have "since u u'" using u(2) by (simp add: locked_def read_from_def)
  then have vw: "since v w" using since_trans [OF since_trans [OF u(1)] w(1)] by blast
  show ?thesis unfolding p
  proof (rule wp_mono [OF wp_write_phase [OF h]])
    fix res x
    assume "\<exists>d'. holding w d' x \<and> res = \<lparr>res_Posting = posting_of cmd tid now, res_Replayed = False\<rparr> \<and>
      post_writes (req_TenantID cmd) (req_From cmd) (req_To cmd) (req_Amount cmd) tid now
        (req_IdempotencyKey cmd) (req_Fingerprint cmd) (w_db w) d'"
    then obtain d' where x: "holding w d' x"
        "res = \<lparr>res_Posting = posting_of cmd tid now, res_Replayed = False\<rparr>"
      and pw: "post_writes (req_TenantID cmd) (req_From cmd) (req_To cmd) (req_Amount cmd) tid now
        (req_IdempotencyKey cmd) (req_Fingerprint cmd) (w_db w) d'" by blast
    have "first_write cmd tid now (w_committed w) d'"
      using Post_writes_movable [OF post snap pw] post_writes_posted [OF pw] db
      by (simp add: first_write_def)
    then show "body_result cmd v res x"
      using x since_trans [OF vw] by (auto simp: body_result_def holding_def)
  next
    fix e x
    assume "since w x \<and> w_committed x = w_committed w \<and>
      (e = ErrIdempotencyKeyClaimConflict \<longrightarrow> db_key (w_db w) (req_IdempotencyKey cmd) \<noteq> None)"
    then show "body_error cmd v e x"
      using since_trans [OF vw] db free u(1) by (auto simp: body_error_def)
  qed
qed

lemma wp_post_body:
  assumes "clean v"
  shows "wp (post_body cmd) (body_result cmd v) (body_error cmd v) v"
  unfolding post_body_def write_phase_def [symmetric] idempotency_Lookup_def wp_bindE wp_ret
proof (rule wp_query_clean [OF assms], goal_cases)
  case (1 u)
  show ?case
  proof (cases "db_key (w_committed u) (req_IdempotencyKey cmd)")
    case (Some c)
    show ?thesis
    proof (cases "kr_fingerprint c = req_Fingerprint cmd")
      case True
      show ?thesis using True wp_mono [OF wp_replay [OF 1 Some True] _ calm_body_error] by (simp add: Some)
    next
      case False
      then show ?thesis using 1 by (simp add: Some body_error_def)
    qed
  next
    case None
    have db: "w_db u = w_committed u" using 1 by (simp add: clean_def)
    show ?thesis unfolding None option.map option.case wp_bindE LockForUpdate_def
    proof (rule wp_mono [OF wp_lock_loop [OF db]])
      fix as u' assume L: "locked u (req_TenantID cmd) as u'"
      let ?w = "u'\<lparr>w_reads := Suc (w_reads u'), w_minted := Suc (w_minted u')\<rparr>"
      let ?tid = "w_ids u' (w_minted u')" and ?now = "w_clock u' (w_reads u')"
      have uw: "since u' ?w" by (simp add: since_def same_run_def)
      have "since u u'" using L by (simp add: locked_def read_from_def)
      then have vw: "since v ?w" using since_trans [OF since_trans [OF 1(1)] uw] by blast
      have "wp (write_phase cmd ?tid p) (body_result cmd v) (body_error cmd v) ?w"
        if "Post \<lparr>cmd_From = req_From cmd, cmd_To = req_To cmd, cmd_Amount = req_Amount cmd,
            cmd_TenantID = req_TenantID cmd\<rparr> as ?now ?tid = Inr p" for p
        by (rule wp_first_write [OF 1(1) L that uw]) (simp_all add: pending_def None)
      then show "wp clock (\<lambda>x. wp nextID (\<lambda>xa. wp (decide (Post \<lparr>cmd_From = req_From cmd,
          cmd_To = req_To cmd, cmd_Amount = req_Amount cmd, cmd_TenantID = req_TenantID cmd\<rparr> as x xa))
          (\<lambda>x. wp (write_phase cmd xa x) (body_result cmd v) (body_error cmd v)) (body_error cmd v))
          (body_error cmd v)) (body_error cmd v) u'"
        using vw by (auto simp: body_error_def split: sum.splits)
    next
      fix e x assume "calm u e x"
      then show "body_error cmd v e x" using calm_body_error calm_trans 1(1) by blast
    qed
  qed
qed (simp add: body_error_def)

lemma body_ok_post_body: "body_ok (post_body cmd)"
  unfolding body_ok_def
proof (intro allI impI)
  fix v assume c: "clean v"
  show "wp (post_body cmd) (\<lambda>_ u. since v u \<and> commit_steps (w_committed u) (w_db u)) (\<lambda>_ u. since v u) v"
    by (rule wp_mono [OF wp_post_body [OF c]])
       (auto simp: body_result_def body_error_def replay_of_def posting_read_def clean_def split: if_splits dest: first_write_step)
qed

lemma PostTransfer_loop_induct:
  assumes step: "\<And>cmd w r s. s = withUnitOfWork (post_body cmd) w \<Longrightarrow>
      fst s = Inl ErrIdempotencyKeyClaimConflict \<Longrightarrow> P cmd (snd s) r \<Longrightarrow> P cmd w r"
    and last: "\<And>cmd w s. s = withUnitOfWork (post_body cmd) w \<Longrightarrow>
      fst s \<noteq> Inl ErrIdempotencyKeyClaimConflict \<Longrightarrow> P cmd w s"
    and run: "PostTransfer_loop cmd w = Some r"
  shows "P cmd w r"
proof (rule PostTransfer_loop.raw_induct [OF _ run, of P])
  fix loop :: "TransferRequest \<Rightarrow> world \<Rightarrow> ((go_error + Result) \<times> world) option" and cmd w r
  assume IH: "\<And>c v y. loop c v = Some y \<Longrightarrow> P c v y"
    and r: "(let r = withUnitOfWork (post_body cmd) w
        in if fst r = Inl ErrIdempotencyKeyClaimConflict then loop cmd (snd r) else Some r) = Some r"
  show "P cmd w r"
  proof (cases "fst (withUnitOfWork (post_body cmd) w) = Inl ErrIdempotencyKeyClaimConflict")
    case True
    then have "loop cmd (snd (withUnitOfWork (post_body cmd) w)) = Some r" using r by simp
    then show ?thesis using step [OF refl True] IH by blast
  next
    case False
    then show ?thesis using r last [OF refl False] by (simp add: Let_def)
  qed
qed

lemma PostTransfer_loop_refines:
  assumes "PostTransfer_loop cmd w = Some r"
  shows "well_behaved w \<Longrightarrow> moves w (snd r)"
  using assms
proof (induction rule: PostTransfer_loop_induct [rotated 2, consumes 1, case_names again last])
  case (again cmd w r s)
  then have "moves w (snd s)"
    using refinesD [OF refines_withUnitOfWork [OF body_ok_post_body]] by blast
  then show ?case using again moves_trans same_run_well_behaved moves_def by blast
next
  case (last cmd w s)
  then show ?case using refinesD [OF refines_withUnitOfWork [OF body_ok_post_body]] by blast
qed

lemma refines_PostTransfer [preserve_intros]: "refines (PostTransfer cmd)"
  by (auto simp: refines_def PostTransfer_def split: option.splits dest: PostTransfer_loop_refines)

end
