(* ===== verification/Books.thy ===== *)
theory Books
  imports PostRefinement
begin

text \<open>
  The invariants of the books, proved of the steps of the specification and, through the
  locale \<open>commit_invariant\<close>, of every use case: the schema's keys and references, I1 (every
  transaction sums to zero), I3 (a stored balance is the sum of its entries), I4 (a wallet is
  never negative), the single currency, and that history is only ever appended to (D7).
\<close>

section \<open>Invariants of the specification\<close>

locale commit_invariant =
  fixes I :: "db \<Rightarrow> bool"
  assumes step: "commit_step d d' \<Longrightarrow> I d \<Longrightarrow> I d'"
begin

lemma steps: "commit_steps d d' \<Longrightarrow> I d \<Longrightarrow> I d'"
  by (induction rule: rtranclp_induct) (auto intro: step)

lemma moved: "moves w w' \<Longrightarrow> I (w_committed w) \<Longrightarrow> I (w_committed w')"
  unfolding moves_def by (blast intro: steps)

lemma kept: "refines m \<Longrightarrow> well_behaved w \<Longrightarrow> I (w_committed w) \<Longrightarrow> I (w_committed (snd (m w)))"
  using refinesD moved by blast

lemma since_kept: "well_behaved w \<Longrightarrow> since w w' \<Longrightarrow> I (w_committed w) \<Longrightarrow> I (w_committed w')"
  using since_moves moved by blast

end

text \<open>Two invariants of the steps hold together.\<close>

locale commit_invariants = one: commit_invariant I + other: commit_invariant J
  for I :: "db \<Rightarrow> bool" and J :: "db \<Rightarrow> bool"

sublocale commit_invariants \<subseteq> both: commit_invariant "\<lambda>d. I d \<and> J d"
  by unfold_locales (blast intro: one.step other.step)

text \<open>A preorder every step respects is an invariant of what came before.\<close>

locale commit_preorder =
  fixes R :: "db \<Rightarrow> db \<Rightarrow> bool"
  assumes refl: "R d d" and trans: "R a b \<Longrightarrow> R b c \<Longrightarrow> R a c"
    and step: "commit_step d d' \<Longrightarrow> R d d'"

sublocale commit_preorder \<subseteq> start: commit_invariant "R d" for d
  by unfold_locales (blast intro: trans step)

context commit_preorder
begin

lemma moved: "moves w w' \<Longrightarrow> R (w_committed w) (w_committed w')"
  using start.moved refl by blast

lemma kept: "refines m \<Longrightarrow> well_behaved w \<Longrightarrow> R (w_committed w) (w_committed (snd (m w)))"
  using start.kept refl by blast

lemma since_kept: "well_behaved w \<Longrightarrow> since w w' \<Longrightarrow> R (w_committed w) (w_committed w')"
  using start.since_kept refl by blast

end

section \<open>What a step does to each table\<close>

lemma account_exists_iff: "account_exists d t i \<longleftrightarrow> (t, i) \<in> account_key ` set (accounts d)"
  by (simp add: account_exists_def db_account_def acct_tab.lookup_None)

lemma tenant_exists_iff: "tenant_exists d t \<longleftrightarrow> t \<in> tn_id ` set (tenants d)"
  by (simp add: tenant_exists_def db_tenant_def tenant_tab.lookup_None)

lemma key_absent_iff: "db_key d k = None \<longleftrightarrow> k \<notin> kr_key ` set (idempotency_keys d)"
  by (simp add: db_key_def key_tab.lookup_None)

lemma posted_tables [simp]:
  "accounts (posted t a b m tid now k fp d) = map (apply_delta t b (currency m) (minorUnits m))
     (map (apply_delta t a (currency m) (- minorUnits m)) (accounts d))"
  "transactions (posted t a b m tid now k fp d) =
     transactions d @ [\<lparr>tr_tenant = t, tr_id = tid, tr_recorded_at = now\<rparr>]"
  "entries (posted t a b m tid now k fp d) = entries d @
     [leg t tid a b (- minorUnits m) (currency m) now 0, leg t tid b a (minorUnits m) (currency m) now 1]"
  "idempotency_keys (posted t a b m tid now k fp d) =
     idempotency_keys d @ [\<lparr>kr_key = k, kr_fingerprint = fp, kr_transaction = tid\<rparr>]"
  "tenants (posted t a b m tid now k fp d) = tenants d"
  "tenant_links (posted t a b m tid now k fp d) = tenant_links d"
  "counterparty_aliases (posted t a b m tid now k fp d) = counterparty_aliases d"
  "transfer_states (posted t a b m tid now k fp d) = transfer_states d"
  by (simp_all add: posted_def)

lemma revoke_tables [simp]:
  "accounts (revoke_row l d) = accounts d" "transactions (revoke_row l d) = transactions d"
  "entries (revoke_row l d) = entries d" "idempotency_keys (revoke_row l d) = idempotency_keys d"
  "tenants (revoke_row l d) = tenants d" "counterparty_aliases (revoke_row l d) = counterparty_aliases d"
  "transfer_states (revoke_row l d) = transfer_states d"
  by (simp_all add: revoke_row_def)

lemma leg_sel [simp]:
  "er_tenant (leg t tid a b x c now i) = t" "er_transaction (leg t tid a b x c now i) = tid"
  "er_account (leg t tid a b x c now i) = a" "er_counterparty (leg t tid a b x c now i) = b"
  "er_amount (leg t tid a b x c now i) = x" "er_currency (leg t tid a b x c now i) = c"
  "er_recorded_at (leg t tid a b x c now i) = now" "er_sequence (leg t tid a b x c now i) = i"
  by (simp_all add: leg_def)

lemma insert_account_Inr:
  "insert_account r d = Inr (u, d') \<longleftrightarrow> \<not> account_exists d (ar_tenant r) (ar_id r) \<and>
     tenant_exists d (ar_tenant r) \<and> d' = d\<lparr>accounts := accounts d @ [r]\<rparr>"
  by (auto simp: insert_account_def violates_def)

lemma insert_tenant_Inr:
  "insert_tenant r d = Inr (u, d') \<longleftrightarrow> \<not> tenant_exists d (tn_id r) \<and>
     tn_name r \<notin> tn_name ` set (tenants d) \<and> tn_hash r \<notin> tn_hash ` set (tenants d) \<and>
     d' = d\<lparr>tenants := tenants d @ [r]\<rparr>"
  by (auto simp: insert_tenant_def violates_def)

lemma insert_link_Inr:
  "insert_link r d = Inr (u, d') \<longleftrightarrow> db_link d (lr_id r) = None \<and> tenant_exists d (lr_a r) \<and>
     tenant_exists d (lr_b r) \<and>
     \<not> (lr_status r = TenantLinkActive \<and> active_pair_taken d (lr_a r) (lr_b r)) \<and>
     d' = d\<lparr>tenant_links := tenant_links d @ [r]\<rparr>"
  by (auto simp: insert_link_def violates_def)

lemma insert_alias_Inr:
  "insert_alias r d = Inr (u, d') \<longleftrightarrow> db_alias d (al_tenant r) (al_alias r) = None \<and>
     tenant_exists d (al_tenant r) \<and> db_link d (al_link r) \<noteq> None \<and>
     tenant_exists d (al_target_tenant r) \<and>
     account_exists d (al_target_tenant r) (al_target_account r) \<and>
     d' = d\<lparr>counterparty_aliases := counterparty_aliases d @ [r]\<rparr>"
  by (auto simp: insert_alias_def violates_def)

lemma insert_transfer_Inr:
  "insert_transfer r d = Inr (u, d') \<longleftrightarrow> db_transfer d (xr_id r) = None \<and>
     (\<forall>x \<in> set (transfer_states d). \<not> (xr_tenant x = xr_tenant r \<and> xr_key x = xr_key r)) \<and>
     tenant_exists d (xr_tenant r) \<and>
     (\<forall>t. xr_counterparty r = Some t \<longrightarrow> tenant_exists d t) \<and>
     d' = d\<lparr>transfer_states := transfer_states d @ [r]\<rparr>"
  by (auto simp: insert_transfer_def violates_def split: option.splits)

lemmas inserted = insert_account_Inr insert_tenant_Inr insert_link_Inr insert_alias_Inr insert_transfer_Inr

section \<open>Append only (D7)\<close>

text \<open>
  Nothing recorded is altered or erased: entries, transactions, claims, tenants and aliases
  are only appended to; an account keeps its owner, name, kind and currency; a link keeps its
  pair and stays revoked once it is; a transfer keeps what it is about.
\<close>

definition account_identity :: "account_row \<Rightarrow> string \<times> string \<times> AccountKind \<times> string" where
  "account_identity r = (ar_tenant r, ar_id r, ar_kind r, ar_currency r)"

definition transfer_identity ::
  "transfer_row \<Rightarrow> string \<times> string \<times> string \<times> string option \<times> string option \<times> int64 \<times> string option" where
  "transfer_identity r = (xr_id r, xr_tenant r, xr_key r, xr_counterparty r, xr_target r, xr_amount r, xr_currency r)"

definition link_extends :: "link_row list \<Rightarrow> link_row list \<Rightarrow> bool" where
  "link_extends ls ls' \<longleftrightarrow> (\<exists>f new. ls' = map f ls @ new \<and>
     (\<forall>l. lr_id (f l) = lr_id l \<and> lr_a (f l) = lr_a l \<and> lr_b (f l) = lr_b l \<and>
          (lr_status l = TenantLinkRevoked \<longrightarrow> f l = l)))"

definition extends :: "db \<Rightarrow> db \<Rightarrow> bool" where
  "extends d d' \<longleftrightarrow> prefix (entries d) (entries d') \<and> prefix (transactions d) (transactions d') \<and>
     prefix (idempotency_keys d) (idempotency_keys d') \<and> prefix (tenants d) (tenants d') \<and>
     prefix (counterparty_aliases d) (counterparty_aliases d') \<and>
     prefix (map account_identity (accounts d)) (map account_identity (accounts d')) \<and>
     prefix (map transfer_identity (transfer_states d)) (map transfer_identity (transfer_states d')) \<and>
     link_extends (tenant_links d) (tenant_links d')"

lemma link_extends_refl: "link_extends ls ls"
  unfolding link_extends_def by (rule exI [of _ id]) simp

lemma link_extends_append: "link_extends ls (ls @ new)"
  unfolding link_extends_def by (rule exI [of _ id]) simp

lemma link_extends_trans: "link_extends a b \<Longrightarrow> link_extends b c \<Longrightarrow> link_extends a c"
proof -
  assume "link_extends a b" and "link_extends b c"
  then obtain f fs g gs where b: "b = map f a @ fs" and c: "c = map g b @ gs"
    and f: "\<And>l. lr_id (f l) = lr_id l \<and> lr_a (f l) = lr_a l \<and> lr_b (f l) = lr_b l \<and>
          (lr_status l = TenantLinkRevoked \<longrightarrow> f l = l)"
    and g: "\<And>l. lr_id (g l) = lr_id l \<and> lr_a (g l) = lr_a l \<and> lr_b (g l) = lr_b l \<and>
          (lr_status l = TenantLinkRevoked \<longrightarrow> g l = l)"
    unfolding link_extends_def by blast
  have "c = map (g \<circ> f) a @ (map g fs @ gs)" by (simp add: b c)
  then show ?thesis unfolding link_extends_def
    by (intro exI [of _ "g \<circ> f"] exI [of _ "map g fs @ gs"]) (simp add: f g)
qed

lemma link_extends_revoke: "link_extends (tenant_links d) (tenant_links (revoke_row l d))"
  unfolding link_extends_def
  by (intro exI [of _ "\<lambda>r. if lr_id r = l then r\<lparr>lr_status := TenantLinkRevoked\<rparr> else r"] exI [of _ "[]"])
     (simp add: revoke_row_def)

lemma apply_delta_identity [simp]: "account_identity (apply_delta t i c x r) = account_identity r"
  by (simp add: account_identity_def)

lemma transfer_identity_map:
  "(\<And>r. same_transfer r (f r)) \<Longrightarrow>
     map transfer_identity (map (\<lambda>r. if xr_id r = x then f r else r) rs) = map transfer_identity rs"
  by (auto simp: transfer_identity_def same_transfer_def)

lemma commit_step_extends:
  assumes "commit_step d d'"
  shows "extends d d'"
  using assms
proof (induction rule: commit_step.induct)
  case (step_post t a b m d tid k now fp)
  then show ?case by (simp add: extends_def link_extends_refl comp_def)
next
  case (step_revoke d l)
  then show ?case by (simp add: extends_def link_extends_revoke)
next
  case (step_advance f d x)
  then show ?case
    using transfer_identity_map [of f x "transfer_states d"]
    by (simp add: extends_def link_extends_refl del: map_map)
qed (auto simp: extends_def inserted link_extends_refl link_extends_append)

interpretation history: commit_preorder extends
proof
  show "extends d d" for d by (simp add: extends_def link_extends_refl)
  show "extends a b \<Longrightarrow> extends b c \<Longrightarrow> extends a c" for a b c
    unfolding extends_def by (blast intro: prefix_order.trans link_extends_trans)
  show "commit_step d d' \<Longrightarrow> extends d d'" for d d' by (rule commit_step_extends)
qed

lemma extends_db_key: "extends d d' \<Longrightarrow> db_key d k = Some c \<Longrightarrow> db_key d' k = Some c"
  by (auto simp: extends_def prefix_def db_key_def find_append)

lemma extends_stored_transaction:
  "extends d d' \<Longrightarrow> stored_transaction d t x = Some r \<Longrightarrow> stored_transaction d' t x = Some r"
  by (auto simp: extends_def prefix_def stored_transaction_def find_append)

lemma extends_account_exists: "extends d d' \<Longrightarrow> account_exists d t i \<Longrightarrow> account_exists d' t i"
proof -
  assume "extends d d'" and i: "account_exists d t i"
  then obtain zs where "map account_identity (accounts d') = map account_identity (accounts d) @ zs"
    by (auto simp: extends_def prefix_def)
  then have "account_identity ` set (accounts d) \<subseteq> account_identity ` set (accounts d')"
    by (metis Un_upper1 list.set_map set_append)
  moreover have "(\<lambda>(t, i, _). (t, i)) ` account_identity ` rs = account_key ` rs" for rs
    by (simp add: image_image account_key_def account_identity_def)
  ultimately have "account_key ` set (accounts d) \<subseteq> account_key ` set (accounts d')"
    by (metis image_mono)
  then show ?thesis using i by (auto simp: account_exists_iff)
qed

lemma extends_tenant_exists: "extends d d' \<Longrightarrow> tenant_exists d t \<Longrightarrow> tenant_exists d' t"
  by (auto simp: extends_def prefix_def tenant_exists_iff)

lemma extends_transaction_exists: "extends d d' \<Longrightarrow> transaction_exists d x \<Longrightarrow> transaction_exists d' x"
  by (auto simp: extends_def prefix_def transaction_exists_def)

section \<open>The books\<close>

text \<open>The keys and references the schema declares.\<close>

definition schema :: "db \<Rightarrow> bool" where
  "schema d \<longleftrightarrow> distinct (map account_key (accounts d)) \<and> distinct (map tr_id (transactions d)) \<and>
     distinct (map kr_key (idempotency_keys d)) \<and> distinct (map tn_id (tenants d)) \<and>
     distinct (map tn_name (tenants d)) \<and> distinct (map tn_hash (tenants d))"

definition references :: "db \<Rightarrow> bool" where
  "references d \<longleftrightarrow>
     (\<forall>r \<in> set (accounts d). tenant_exists d (ar_tenant r) \<and> ar_tenant r \<noteq> []) \<and>
     (\<forall>e \<in> set (entries d). transaction_exists d (er_transaction e) \<and>
        account_exists d (er_tenant e) (er_account e) \<and>
        account_exists d (er_tenant e) (er_counterparty e)) \<and>
     (\<forall>c \<in> set (idempotency_keys d). transaction_exists d (kr_transaction c))"

text \<open>I1: the entries of every transaction sum to zero, over the integers.\<close>

definition amounts :: "entry_row list \<Rightarrow> int" where
  "amounts es = sum_list (map (\<lambda>e. sint (er_amount e)) es)"

definition balanced :: "db \<Rightarrow> bool" where
  "balanced d \<longleftrightarrow> (\<forall>x. amounts (filter (\<lambda>e. er_transaction e = x) (entries d)) = 0)"

text \<open>I3: a stored balance is what the entries of the account sum to.\<close>

definition entry_total :: "db \<Rightarrow> string \<Rightarrow> string \<Rightarrow> int" where
  "entry_total d t i = amounts (filter (\<lambda>e. er_tenant e = t \<and> er_account e = i) (entries d))"

definition derived :: "db \<Rightarrow> bool" where
  "derived d \<longleftrightarrow> (\<forall>r \<in> set (accounts d). sint (ar_balance r) = entry_total d (ar_tenant r) (ar_id r))"

text \<open>I4: no wallet is negative. And one currency.\<close>

definition floored :: "db \<Rightarrow> bool" where
  "floored d \<longleftrightarrow> (\<forall>r \<in> set (accounts d). ar_kind r = Wallet \<longrightarrow> 0 \<le> sint (ar_balance r))"

definition single_currency :: "db \<Rightarrow> bool" where
  "single_currency d \<longleftrightarrow> (\<forall>r \<in> set (accounts d). ar_currency r = ledgerCurrency) \<and>
     (\<forall>e \<in> set (entries d). er_currency e = ledgerCurrency)"

definition books :: "db \<Rightarrow> bool" where
  "books d \<longleftrightarrow> schema d \<and> references d \<and> balanced d \<and> derived d \<and> floored d \<and> single_currency d"

lemma amounts_simps [simp]:
  "amounts [] = 0" "amounts (e # es) = sint (er_amount e) + amounts es"
  "amounts (es @ fs) = amounts es + amounts fs"
  by (simp_all add: amounts_def)

lemma amounts_filter_sum:
  "amounts es = amounts (filter P es) + amounts (filter (\<lambda>e. \<not> P e) es)"
  unfolding amounts_def by (rule sum_list_filter_map_update)

lemma movable_rows:
  assumes "movable t a b m d"
  obtains f g where "db_account d t a = Some f" "db_account d t b = Some g"
    "0 < sint (minorUnits m)" "ar_currency f = currency m" "ar_currency g = currency m"
    "ar_kind f = Wallet \<Longrightarrow> sint (minorUnits m) \<le> sint (ar_balance f)"
    "ar_kind g = Wallet \<Longrightarrow> 0 \<le> sint (ar_balance g)"
    "sint (ar_balance f - minorUnits m) = sint (ar_balance f) - sint (minorUnits m)"
    "a \<noteq> b \<Longrightarrow> sint (ar_balance g + minorUnits m) = sint (ar_balance g) + sint (minorUnits m)"
    "sint (- minorUnits m) = - sint (minorUnits m)"
proof -
  from assms obtain f g where fg: "db_account d t a = Some f" "db_account d t b = Some g"
    and m: "0 < sint (minorUnits m)" and c: "ar_currency f = currency m" "ar_currency g = currency m"
    and wf: "ar_kind f = Wallet \<longrightarrow> sint (minorUnits m) \<le> sint (ar_balance f)"
    and wg: "ar_kind g = Wallet \<longrightarrow> 0 \<le> sint (ar_balance g)"
    and rf: "in_int64 (sint (ar_balance f) - sint (minorUnits m))"
    and rg: "a \<noteq> b \<longrightarrow> in_int64 (sint (ar_balance g) + sint (minorUnits m))"
    by (auto simp: movable_def split: option.splits)
  have neg: "sint (- minorUnits m) = - sint (minorUnits m)" using m by (rule sint_minus_pos)
  have "sint (ar_balance f - minorUnits m) = sint (ar_balance f) - sint (minorUnits m)"
    using rf sint_add_exact [of "ar_balance f" "- minorUnits m"] neg by simp
  moreover have "sint (ar_balance g + minorUnits m) = sint (ar_balance g) + sint (minorUnits m)" if "a \<noteq> b"
    using rg that by (simp add: sint_add_exact)
  ultimately show ?thesis using that fg m c wf wg neg by blast
qed

text \<open>The row of an account is the only one with its key.\<close>

lemma schema_account_unique:
  "schema d \<Longrightarrow> db_account d t i = Some f \<Longrightarrow> r \<in> set (accounts d) \<Longrightarrow> ar_tenant r = t \<Longrightarrow>
     ar_id r = i \<Longrightarrow> r = f"
  using acct_tab.lookup_Some_iff [of "accounts d" "(t, i)" r]
  by (simp add: schema_def db_account_def account_key_def)

lemma account_taken_iff:
  "account_exists d (ar_tenant r) (ar_id r) \<longleftrightarrow> account_key r \<in> account_key ` set (accounts d)"
  by (simp add: account_exists_iff account_key_def)

lemma schema_step:
  assumes "commit_step d d'"
  shows "schema d \<Longrightarrow> schema d'"
  using assms
  by (induction rule: commit_step.induct)
     (auto simp: schema_def inserted comp_def transaction_exists_def key_absent_iff account_taken_iff
        tenant_exists_iff revoke_row_def)

lemma references_step:
  assumes "commit_step d d'" and "references d"
  shows "references d'"
proof -
  have e: "extends d d'" using assms(1) by (rule commit_step_extends)
  note up = extends_tenant_exists [OF e] extends_account_exists [OF e] extends_transaction_exists [OF e]
  from assms show ?thesis
  proof (cases rule: commit_step.cases)
    case (step_post t a b m tid k now fp)
    have "account_exists d t a" "account_exists d t b"
      using step_post(2) by (auto simp: movable_def account_exists_def split: option.splits)
    moreover have "transaction_exists d' tid" using step_post(1) by (simp add: transaction_exists_def)
    ultimately show ?thesis using assms(2) up step_post(1)
      by (auto simp: references_def)
  qed (use assms(2) up in \<open>auto simp: references_def inserted revoke_row_def\<close>)
qed

lemma balanced_step:
  assumes "commit_step d d'" and "references d" and "balanced d"
  shows "balanced d'"
  using assms
proof (cases rule: commit_step.cases)
  case (step_post t a b m tid k now fp)
  then show ?thesis using assms(3) sint_minus_pos [of "minorUnits m"]
    by (auto simp: balanced_def elim: movable_rows)
qed (use assms(3) in \<open>auto simp: balanced_def inserted revoke_row_def\<close>)

lemma floored_step:
  assumes "commit_step d d'" and "schema d" and "floored d"
  shows "floored d'"
  using assms
proof (cases rule: commit_step.cases)
  case (step_post t a b m tid k now fp)
  obtain f g where fg: "db_account d t a = Some f" "db_account d t b = Some g"
    "0 < sint (minorUnits m)"
    "ar_kind f = Wallet \<Longrightarrow> sint (minorUnits m) \<le> sint (ar_balance f)"
    "ar_kind g = Wallet \<Longrightarrow> 0 \<le> sint (ar_balance g)"
    "sint (ar_balance f - minorUnits m) = sint (ar_balance f) - sint (minorUnits m)"
    "a \<noteq> b \<Longrightarrow> sint (ar_balance g + minorUnits m) = sint (ar_balance g) + sint (minorUnits m)"
    using step_post(2) by (rule movable_rows) blast
  note uf = schema_account_unique [OF assms(2) fg(1)] and ug = schema_account_unique [OF assms(2) fg(2)]
  have "0 \<le> sint (ar_balance (apply_delta t b (currency m) (minorUnits m)
          (apply_delta t a (currency m) (- minorUnits m) r)))"
    if r: "r \<in> set (accounts d)" "ar_kind r = Wallet" for r
  proof (cases "ar_tenant r = t")
    case True
    have "0 \<le> sint (ar_balance r)" using r assms(3) by (simp add: floored_def)
    then show ?thesis
      using True r uf [OF r(1) True] ug [OF r(1) True] fg(3-7)
      by (cases "a = b"; cases "ar_id r = a"; cases "ar_id r = b") (auto simp: apply_delta_def)
  qed (use r assms(3) in \<open>simp add: apply_delta_def floored_def\<close>)
  then show ?thesis using step_post(1) by (auto simp: floored_def)
qed (use assms(3) in \<open>auto simp: floored_def inserted revoke_row_def\<close>)

lemma derived_step:
  assumes "commit_step d d'" and "schema d" and "references d" and "derived d"
  shows "derived d'"
  using assms
proof (cases rule: commit_step.cases)
  case (step_account r)
  have "entry_total d (ar_tenant r) (ar_id r) = 0"
  proof -
    have "filter (\<lambda>e. er_tenant e = ar_tenant r \<and> er_account e = ar_id r) (entries d) = []"
      using step_account(1) assms(3) by (auto simp: filter_empty_conv inserted references_def)
    then show ?thesis unfolding entry_total_def by (simp only: amounts_simps)
  qed
  then show ?thesis using step_account assms(4) by (auto simp: derived_def inserted entry_total_def)
next
  case (step_post t a b m tid k now fp)
  obtain f g where fg: "db_account d t a = Some f" "db_account d t b = Some g"
    "0 < sint (minorUnits m)" "ar_currency f = currency m" "ar_currency g = currency m"
    "sint (ar_balance f - minorUnits m) = sint (ar_balance f) - sint (minorUnits m)"
    "a \<noteq> b \<Longrightarrow> sint (ar_balance g + minorUnits m) = sint (ar_balance g) + sint (minorUnits m)"
    "sint (- minorUnits m) = - sint (minorUnits m)"
    using step_post(2) by (rule movable_rows) blast
  note uf = schema_account_unique [OF assms(2) fg(1)] and ug = schema_account_unique [OF assms(2) fg(2)]
  have "sint (ar_balance (apply_delta t b (currency m) (minorUnits m)
          (apply_delta t a (currency m) (- minorUnits m) r))) = entry_total d' (ar_tenant r) (ar_id r)"
    if r: "r \<in> set (accounts d)" for r
  proof -
    have "sint (ar_balance r) = entry_total d (ar_tenant r) (ar_id r)"
      using r assms(4) by (simp add: derived_def)
    then show ?thesis
      using r uf [OF r] ug [OF r] fg(3-8)
      by (cases "ar_tenant r = t"; cases "a = b"; cases "ar_id r = a"; cases "ar_id r = b")
         (auto simp: apply_delta_def entry_total_def step_post(1))
  qed
  then show ?thesis using step_post(1) by (auto simp: derived_def)
qed (use assms(4) in \<open>auto simp: derived_def entry_total_def inserted revoke_row_def\<close>)

lemma single_currency_step:
  assumes "commit_step d d'" and "single_currency d"
  shows "single_currency d'"
  using assms
proof (cases rule: commit_step.cases)
  case (step_post t a b m tid k now fp)
  obtain f where "db_account d t a = Some f" "ar_currency f = currency m"
    using step_post(2) by (rule movable_rows) blast
  then have "currency m = ledgerCurrency"
    using db_account_key assms(2) by (fastforce simp: single_currency_def)
  then show ?thesis using step_post(1) assms(2) by (auto simp: single_currency_def)
qed (use assms(2) in \<open>auto simp: single_currency_def inserted revoke_row_def\<close>)

interpretation books: commit_invariant books
proof
  show "commit_step d d' \<Longrightarrow> books d \<Longrightarrow> books d'" for d d'
    unfolding books_def
    by (blast intro: schema_step references_step balanced_step derived_step floored_step
        single_currency_step)
qed

lemma books_migrated: "books migrated_db"
  by (simp add: books_def schema_def references_def balanced_def derived_def floored_def
      single_currency_def migrated_db_def)

end
