(* ===== verification/PostProps.thy ===== *)
theory PostProps
  imports Books
begin

text \<open>
  What a call of \<open>PostTransfer\<close> does from the caller's side: its outcome under arbitrary
  faults and interference, that it returns, and that a key once claimed answers every retry.
\<close>

section \<open>The outcome of a call\<close>

definition outcome :: "TransferRequest \<Rightarrow> world \<Rightarrow> go_error + Result \<Rightarrow> world \<Rightarrow> bool" where
  "outcome cmd w r w' \<longleftrightarrow> (case r of
     Inr res \<Rightarrow>
       if res_Replayed res
       then \<exists>u. since w u \<and> replay_of cmd w (res_Posting res) u \<and> since u w'
       else \<exists>u tid now. since w u \<and> res_Posting res = posting_of cmd tid now \<and>
              first_write cmd tid now (w_committed u) (w_committed w')
   | Inl e \<Rightarrow> since w w' \<or>
       (faulty w \<and> (\<exists>u tid now. since w u \<and> first_write cmd tid now (w_committed u) (w_committed w'))))"

text \<open>A lost claim race: the key is bound by then, and it was free before.\<close>

definition lost_race :: "TransferRequest \<Rightarrow> world \<Rightarrow> world \<Rightarrow> bool" where
  "lost_race cmd w w' \<longleftrightarrow> since w w' \<and>
     (\<exists>u. since w u \<and> since u w' \<and> db_key (w_committed u) (req_IdempotencyKey cmd) \<noteq> None) \<and>
     (\<exists>u. since w u \<and> db_key (w_committed u) (req_IdempotencyKey cmd) = None)"

lemma commits_clean_since: "clean u \<Longrightarrow> commits u w' \<Longrightarrow> since u w'"
  by (simp add: clean_def commits_def since_def)

lemma replay_of_clean: "replay_of cmd v p u \<Longrightarrow> clean u"
  by (auto simp: replay_of_def posting_read_def)

lemma replay_of_from: "since w v \<Longrightarrow> replay_of cmd v p u \<Longrightarrow> replay_of cmd w p u"
  unfolding replay_of_def by (blast intro: since_trans)

lemma outcome_from: "since w v \<Longrightarrow> outcome cmd v r w' \<Longrightarrow> outcome cmd w r w'"
  unfolding outcome_def
  by (auto split: sum.splits if_splits simp: since_faulty intro: since_trans replay_of_from)

lemma wp_attempt_once:
  "wp (withUnitOfWork (post_body cmd)) (\<lambda>res w'. outcome cmd w (Inr res) w')
     (\<lambda>e w'. outcome cmd w (Inl e) w' \<and> (e = ErrIdempotencyKeyClaimConflict \<longrightarrow> lost_race cmd w w')) w"
proof (rule wp_withUnitOfWork)
  fix v assume v: "since w v" "clean v"
  show "wp (post_body cmd)
      (\<lambda>x u. (\<forall>w'. commits u w' \<longrightarrow> outcome cmd w (Inr x) w') \<and>
             (faulty u \<longrightarrow> (\<forall>w'. commits u w' \<or> since u w' \<longrightarrow> outcome cmd w (Inl (ErrInfra ''commit'')) w' \<and>
               (ErrInfra ''commit'' = ErrIdempotencyKeyClaimConflict \<longrightarrow> lost_race cmd w w'))))
      (\<lambda>e u. \<forall>w'. since u w' \<longrightarrow> outcome cmd w (Inl e) w' \<and>
               (e = ErrIdempotencyKeyClaimConflict \<longrightarrow> lost_race cmd w w')) v"
  proof (rule wp_mono [OF wp_post_body [OF v(2)]])
    fix res u assume res: "body_result cmd v res u"
    then have wu: "since w u" using v(1) since_trans by (auto simp: body_result_def)
    have err: "outcome cmd w (Inl e) w'" if "since u w'" for e w'
      using that since_trans [OF wu] by (simp add: outcome_def)
    show "(\<forall>w'. commits u w' \<longrightarrow> outcome cmd w (Inr res) w') \<and>
        (faulty u \<longrightarrow> (\<forall>w'. commits u w' \<or> since u w' \<longrightarrow> outcome cmd w (Inl (ErrInfra ''commit'')) w' \<and>
          (ErrInfra ''commit'' = ErrIdempotencyKeyClaimConflict \<longrightarrow> lost_race cmd w w')))"
    proof (cases "res_Replayed res")
      case True
      then have r: "replay_of cmd w (res_Posting res) u"
        using res v(1) replay_of_from by (auto simp: body_result_def)
      then have "since u w'" if "commits u w'" for w'
        using that commits_clean_since replay_of_clean by blast
      then show ?thesis using wu r True err by (auto simp: outcome_def)
    next
      case False
      then obtain tid now where "res_Posting res = posting_of cmd tid now"
          "first_write cmd tid now (w_committed u) (w_db u)"
        using res by (auto simp: body_result_def)
      then show ?thesis
        using wu False err since_faulty [OF wu] by (auto simp: outcome_def commits_def)
    qed
  next
    fix e u assume e: "body_error cmd v e u"
    then have wu: "since w u" using v(1) since_trans by (auto simp: body_error_def)
    show "\<forall>w'. since u w' \<longrightarrow> outcome cmd w (Inl e) w' \<and>
               (e = ErrIdempotencyKeyClaimConflict \<longrightarrow> lost_race cmd w w')"
    proof (intro allI impI conjI)
      fix w' assume u': "since u w'"
      then show "outcome cmd w (Inl e) w'" using since_trans [OF wu] by (simp add: outcome_def)
      assume "e = ErrIdempotencyKeyClaimConflict"
      then obtain u1 where "since v u1" "db_key (w_committed u1) (req_IdempotencyKey cmd) = None"
          "db_key (w_committed u) (req_IdempotencyKey cmd) \<noteq> None"
        using e by (auto simp: body_error_def)
      then show "lost_race cmd w w'"
        unfolding lost_race_def using u' wu v(1) since_trans by blast
    qed
  qed
qed (simp add: outcome_def)

lemma attempt_outcome:
  assumes "s = withUnitOfWork (post_body cmd) w"
  shows "outcome cmd w (fst s) (snd s)"
    and "fst s = Inl ErrIdempotencyKeyClaimConflict \<Longrightarrow> lost_race cmd w (snd s)"
  using wp_attempt_once [of cmd w] assms
  by (cases s; cases "fst s"; auto simp: wp_def)+

lemma PostTransfer_loop_outcome:
  assumes "PostTransfer_loop cmd w = Some r"
  shows "outcome cmd w (fst r) (snd r)"
  using assms
proof (induction rule: PostTransfer_loop_induct [rotated 2, consumes 1, case_names again last])
  case (again cmd w r s)
  then have "lost_race cmd w (snd s)" using attempt_outcome(2) by blast
  then show ?case using again outcome_from by (auto simp: lost_race_def)
next
  case (last cmd w s)
  then show ?case using attempt_outcome(1) by blast
qed

lemma PostTransfer_outcome: "PostTransfer cmd w = (r, w') \<Longrightarrow> outcome cmd w r w'"
  by (auto simp: PostTransfer_def split: option.splits dest: PostTransfer_loop_outcome)
     (simp add: outcome_def)

section \<open>It returns\<close>

lemma since_keeps_key:
  "well_behaved w \<Longrightarrow> since w w' \<Longrightarrow> db_key (w_committed w) k = Some c \<Longrightarrow>
     db_key (w_committed w') k = Some c"
  by (blast intro: extends_db_key history.since_kept)

lemma since_well_behaved: "since w w' \<Longrightarrow> well_behaved w \<Longrightarrow> well_behaved w'"
  using since_same_run same_run_well_behaved by blast

text \<open>
  After a lost race the key is bound, and stays bound as other sessions are ledgers too;
  so the second attempt finds it and cannot lose again.
\<close>

lemma PostTransfer_returns:
  assumes "well_behaved w"
  shows "\<exists>r. PostTransfer_loop cmd w = Some r"
proof -
  let ?s = "withUnitOfWork (post_body cmd) w"
  let ?k = "req_IdempotencyKey cmd"
  show ?thesis
  proof (cases "fst ?s = Inl ErrIdempotencyKeyClaimConflict")
    case False
    then show ?thesis by (subst PostTransfer_loop.simps) (simp add: Let_def)
  next
    case True
    let ?w = "snd ?s"
    let ?s2 = "withUnitOfWork (post_body cmd) ?w"
    have race: "lost_race cmd w ?w" using attempt_outcome(2) True by blast
    then obtain u c where u: "since w u" "since u ?w" "db_key (w_committed u) ?k = Some c"
      by (auto simp: lost_race_def)
    have wb: "well_behaved u" "well_behaved ?w"
      using u assms since_well_behaved by blast+
    have key: "db_key (w_committed ?w) ?k = Some c" using since_keeps_key wb(1) u by blast
    have "fst ?s2 \<noteq> Inl ErrIdempotencyKeyClaimConflict"
    proof
      assume "fst ?s2 = Inl ErrIdempotencyKeyClaimConflict"
      then obtain v where "since ?w v" "db_key (w_committed v) ?k = None"
        using attempt_outcome(2) [of ?s2 cmd ?w] by (auto simp: lost_race_def)
      then show False using since_keeps_key [OF wb(2) _ key] by fastforce
    qed
    then have "PostTransfer_loop cmd ?w = Some ?s2"
      by (subst PostTransfer_loop.simps) (simp add: Let_def)
    then show ?thesis using True by (subst PostTransfer_loop.simps) (simp add: Let_def)
  qed
qed

section \<open>A claimed key answers every retry\<close>

lemma stored_entries_kept:
  "commit_step d d' \<Longrightarrow> transaction_exists d x \<Longrightarrow>
     transaction_exists d' x \<and> stored_entries d' t x = stored_entries d t x"
  by (erule commit_stepE)
     (auto simp: stored_entries_def transaction_exists_def inserted revoke_row_def)

text \<open>The entries of a recorded transaction never change.\<close>

definition entries_fixed :: "db \<Rightarrow> db \<Rightarrow> bool" where
  "entries_fixed d d' \<longleftrightarrow> (\<forall>x t. transaction_exists d x \<longrightarrow>
     transaction_exists d' x \<and> stored_entries d' t x = stored_entries d t x)"

interpretation fixed: commit_preorder entries_fixed
  by unfold_locales (simp_all add: entries_fixed_def stored_entries_kept)

definition row_entry :: "string \<Rightarrow> entry_row \<Rightarrow> Entry" where
  "row_entry tid r = \<lparr>e_transactionID = tid, e_accountID = er_account r, e_counterparty = er_counterparty r,
     e_amount = \<lparr>minorUnits = er_amount r, currency = er_currency r\<rparr>,
     e_recordedAt = er_recorded_at r, e_sequence = er_sequence r\<rparr>"

definition stored_posting :: "db \<Rightarrow> string \<Rightarrow> transaction_row \<Rightarrow> Posting" where
  "stored_posting d t r =
     \<lparr>p_Transaction = \<lparr>txn_id = tr_id r, txn_recordedAt = tr_recorded_at r\<rparr>,
      p_Entries = map (row_entry (tr_id r)) (stored_entries d t (tr_id r)), p_Deltas = []\<rparr>"

lemma scanEntries_books:
  "single_currency d \<Longrightarrow> set es \<subseteq> set (entries d) \<Longrightarrow> scanEntries es tid = Inr (map (row_entry tid) es)"
  unfolding scanEntries_def
  by (rule scan_all_map)
     (auto simp: entryFromRow_def NewMoney_eq single_currency_def ledgerCurrency_def NewEntry_def row_entry_def)

lemma stored_entries_subset: "set (stored_entries d t x) \<subseteq> set (entries d)"
  by (auto simp: stored_entries_def)

lemma stored_transaction_id: "stored_transaction d t x = Some r \<Longrightarrow> tr_id r = x \<and> transaction_exists d x"
  by (auto simp: stored_transaction_def transaction_exists_def dest!: find_Some_memD)

lemma wp_replay_body:
  assumes v: "clean v" "well_behaved v" "\<not> faulty v" "books (w_committed v)"
    and c: "db_key (w_committed v) (req_IdempotencyKey cmd) = Some c"
    and r: "stored_transaction (w_committed v) (req_TenantID cmd) (kr_transaction c) = Some r"
    and fp: "kr_fingerprint c = req_Fingerprint cmd"
  shows "wp (post_body cmd) (\<lambda>res u. since v u \<and> clean u \<and>
      res = \<lparr>res_Posting = stored_posting (w_committed v) (req_TenantID cmd) r, res_Replayed = True\<rparr>)
      (\<lambda>_ _. False) v"
  unfolding post_body_def idempotency_Lookup_def transactions_Get_def entriesForTransaction_def
    stored_transaction_def [symmetric] stored_entries_def [symmetric] wp_bindE
proof (rule wp_query_clean [OF v(1)], goal_cases)
  case (1 u)
  have cu: "db_key (w_committed u) (req_IdempotencyKey cmd) = Some c"
    using since_keeps_key [OF v(2) 1(1) c] .
  show ?case
    unfolding cu wp_ret option.map option.case
    apply (simp add: fp NewTransaction_def)
    apply (rule wp_query_clean [OF 1(2)])
     prefer 2 using v(3) 1(1) since_faulty since_trans apply blast
    subgoal for u1
    proof -
      assume u1: "since u u1" "clean u1"
      have s1: "since v u1" using 1(1) u1(1) by (rule since_trans)
      have "extends (w_committed v) (w_committed u1)" using history.since_kept [OF v(2) s1] .
      then have ru: "stored_transaction (w_committed u1) (req_TenantID cmd) (kr_transaction c) = Some r"
        using r by (rule extends_stored_transaction)
      have "wp (query (\<lambda>d. stored_entries d (req_TenantID cmd) (kr_transaction c)))
          (\<lambda>x u. case scanEntries x (kr_transaction c) of Inl v \<Rightarrow> False
             | Inr es \<Rightarrow> since v u \<and> clean u \<and>
                \<lparr>p_Transaction = \<lparr>txn_id = kr_transaction c, txn_recordedAt = tr_recorded_at r\<rparr>,
                 p_Entries = es, p_Deltas = []\<rparr> = stored_posting (w_committed v) (req_TenantID cmd) r)
          (\<lambda>_ _. False) u1"
      proof (rule wp_query_clean [OF u1(2)])
        fix u2 assume u2: "since u1 u2" "clean u2"
        have s2: "since v u2" using s1 u2(1) by (rule since_trans)
        have "scanEntries (stored_entries (w_committed v) (req_TenantID cmd) (kr_transaction c)) (kr_transaction c)
            = Inr (map (row_entry (kr_transaction c))
                (stored_entries (w_committed v) (req_TenantID cmd) (kr_transaction c)))"
          using v(4) stored_entries_subset by (intro scanEntries_books) (auto simp: books_def)
        moreover have "stored_entries (w_committed u2) (req_TenantID cmd) (kr_transaction c) =
            stored_entries (w_committed v) (req_TenantID cmd) (kr_transaction c)"
          using fixed.since_kept [OF v(2) s2] stored_transaction_id [OF r] by (simp add: entries_fixed_def)
        ultimately show "case scanEntries (stored_entries (w_committed u2) (req_TenantID cmd) (kr_transaction c))
            (kr_transaction c) of Inl v \<Rightarrow> False
             | Inr es \<Rightarrow> since v u2 \<and> clean u2 \<and>
                \<lparr>p_Transaction = \<lparr>txn_id = kr_transaction c, txn_recordedAt = tr_recorded_at r\<rparr>,
                 p_Entries = es, p_Deltas = []\<rparr> = stored_posting (w_committed v) (req_TenantID cmd) r"
          using s2 u2(2) stored_transaction_id [OF r] by (simp add: stored_posting_def)
      next
        fix w assume "since u1 w" "faulty w" then show False using v(3) s1 since_faulty by blast
      qed
      then show ?thesis
        unfolding ru option.case
        by (simp, rule wp_mono) (auto split: sum.splits)
    qed
    done
next
  case (2 w)
  then show ?case using v(3) since_faulty by blast
qed

text \<open>A unit of work in a world without faults: only its body's answer matters.\<close>

lemma withUnitOfWork_reliable:
  assumes nf: "\<not> faulty w"
    and body: "\<And>v. since w v \<Longrightarrow> clean v \<Longrightarrow> wp fn (\<lambda>x u. same_run v u \<and> (\<forall>w'. commits u w' \<longrightarrow> Q x w'))
      (\<lambda>e u. \<forall>w'. since u w' \<longrightarrow> E e w') v"
  shows "wp (withUnitOfWork fn) Q E w"
proof (rule wp_withUnitOfWork)
  fix v assume v: "since w v" "clean v"
  then have nv: "\<not> faulty v" using nf since_faulty by blast
  show "wp fn (\<lambda>x u. (\<forall>w'. commits u w' \<longrightarrow> Q x w') \<and>
             (faulty u \<longrightarrow> (\<forall>w'. commits u w' \<or> since u w' \<longrightarrow> E (ErrInfra ''commit'') w')))
      (\<lambda>e u. \<forall>w'. since u w' \<longrightarrow> E e w') v"
  proof (rule wp_mono [OF body [OF v]])
    fix x u assume u: "same_run v u \<and> (\<forall>w'. commits u w' \<longrightarrow> Q x w')"
    then have "\<not> faulty u" using nv by (simp add: same_run_def faulty_def)
    then show "(\<forall>w'. commits u w' \<longrightarrow> Q x w') \<and>
        (faulty u \<longrightarrow> (\<forall>w'. commits u w' \<or> since u w' \<longrightarrow> E (ErrInfra ''commit'') w'))" using u by blast
  qed
qed (use nf since_faulty in blast)

lemma PostTransfer_first_attempt:
  "withUnitOfWork (post_body cmd) w = (r, w') \<Longrightarrow> r \<noteq> Inl ErrIdempotencyKeyClaimConflict \<Longrightarrow>
     PostTransfer cmd w = (r, w')"
  by (simp add: PostTransfer_def PostTransfer_loop.simps Let_def)

lemma wp_PostTransfer:
  assumes "wp (withUnitOfWork (post_body cmd)) Q E w"
    and "\<And>w'. E ErrIdempotencyKeyClaimConflict w' \<Longrightarrow> False"
  shows "wp (PostTransfer cmd) Q E w"
proof -
  obtain r w' where r: "withUnitOfWork (post_body cmd) w = (r, w')" by fastforce
  moreover from this have "r \<noteq> Inl ErrIdempotencyKeyClaimConflict" using assms by (auto simp: wp_def)
  ultimately show ?thesis using assms(1) PostTransfer_first_attempt by (simp add: wp_def)
qed

lemma wp_conj:
  "wp m Q E w \<Longrightarrow> wp m Q' E' w \<Longrightarrow> wp m (\<lambda>x u. Q x u \<and> Q' x u) (\<lambda>e u. E e u \<and> E' e u) w"
  by (cases "m w"; cases "fst (m w)") (auto simp: wp_def)

lemma wp_False_Inl: "wp m Q (\<lambda>_ _. False) w \<Longrightarrow> \<exists>x w'. m w = (Inr x, w') \<and> Q x w'"
  by (cases "m w"; cases "fst (m w)") (auto simp: wp_def)

lemma wp_False_Inr: "wp m (\<lambda>_ _. False) E w \<Longrightarrow> \<exists>e w'. m w = (Inl e, w') \<and> E e w'"
  by (cases "m w"; cases "fst (m w)") (auto simp: wp_def)

lemma PostTransfer_replays:
  assumes w: "well_behaved w" "\<not> faulty w" "books (w_committed w)"
    and c: "db_key (w_committed w) (req_IdempotencyKey cmd) = Some c"
    and r: "stored_transaction (w_committed w) (req_TenantID cmd) (kr_transaction c) = Some r"
    and fp: "kr_fingerprint c = req_Fingerprint cmd"
  shows "\<exists>w'. PostTransfer cmd w =
      (Inr \<lparr>res_Posting = stored_posting (w_committed w) (req_TenantID cmd) r, res_Replayed = True\<rparr>, w') \<and>
      since w w'"
proof -
  let ?t = "req_TenantID cmd"
  have "wp (withUnitOfWork (post_body cmd))
      (\<lambda>res w'. since w w' \<and>
         res = \<lparr>res_Posting = stored_posting (w_committed w) ?t r, res_Replayed = True\<rparr>) (\<lambda>_ _. False) w"
  proof (rule withUnitOfWork_reliable [OF w(2)])
    fix v assume v: "since w v" "clean v"
    have wb: "well_behaved v" "\<not> faulty v" "books (w_committed v)"
      using w v(1) since_well_behaved since_faulty books.since_kept by blast+
    have cv: "db_key (w_committed v) (req_IdempotencyKey cmd) = Some c"
      using since_keeps_key [OF w(1) v(1) c] .
    have rv: "stored_transaction (w_committed v) ?t (kr_transaction c) = Some r"
      using extends_stored_transaction [OF history.since_kept [OF w(1) v(1)] r] .
    have same: "stored_posting (w_committed v) ?t r = stored_posting (w_committed w) ?t r"
      using fixed.since_kept [OF w(1) v(1)] stored_transaction_id [OF r]
      by (simp add: stored_posting_def entries_fixed_def)
    show "wp (post_body cmd) (\<lambda>x u. same_run v u \<and> (\<forall>w'. commits u w' \<longrightarrow> since w w' \<and>
         x = \<lparr>res_Posting = stored_posting (w_committed w) ?t r, res_Replayed = True\<rparr>))
         (\<lambda>e u. \<forall>w'. since u w' \<longrightarrow> False) v"
    proof (rule wp_mono [OF wp_replay_body [OF v(2) wb cv rv fp]])
      fix x u
      assume u: "since v u \<and> clean u \<and> x = \<lparr>res_Posting = stored_posting (w_committed v) ?t r, res_Replayed = True\<rparr>"
      have "since w w'" if "commits u w'" for w'
        using that u v(1) commits_clean_since since_trans by blast
      then show "same_run v u \<and> (\<forall>w'. commits u w' \<longrightarrow> since w w' \<and>
          x = \<lparr>res_Posting = stored_posting (w_committed w) ?t r, res_Replayed = True\<rparr>)"
        using u same since_same_run by auto
    qed simp
  qed
  then have "wp (PostTransfer cmd) (\<lambda>res w'. since w w' \<and>
         res = \<lparr>res_Posting = stored_posting (w_committed w) ?t r, res_Replayed = True\<rparr>) (\<lambda>_ _. False) w"
    by (rule wp_PostTransfer)
  then show ?thesis by (auto dest: wp_False_Inl)
qed

text \<open>A key bound to another request refuses, and nothing is written.\<close>

lemma PostTransfer_conflict:
  assumes w: "well_behaved w" "\<not> faulty w"
    and c: "db_key (w_committed w) (req_IdempotencyKey cmd) = Some c"
    and fp: "kr_fingerprint c \<noteq> req_Fingerprint cmd"
  shows "\<exists>w'. PostTransfer cmd w = (Inl ErrIdempotencyKeyConflict, w') \<and> since w w'"
proof -
  have "wp (withUnitOfWork (post_body cmd)) (\<lambda>_ _. False)
      (\<lambda>e w'. since w w' \<and> e = ErrIdempotencyKeyConflict) w"
  proof (rule withUnitOfWork_reliable [OF w(2)])
    fix v assume v: "since w v" "clean v"
    show "wp (post_body cmd) (\<lambda>x u. same_run v u \<and> (\<forall>w'. commits u w' \<longrightarrow> False))
        (\<lambda>e u. \<forall>w'. since u w' \<longrightarrow> since w w' \<and> e = ErrIdempotencyKeyConflict) v"
      unfolding post_body_def idempotency_Lookup_def wp_bindE
    proof (rule wp_query_clean [OF v(2)], goal_cases)
      case (1 u)
      then have wu: "since w u" using v(1) since_trans by blast
      have "db_key (w_committed u) (req_IdempotencyKey cmd) = Some c"
        using since_keeps_key [OF w(1) wu c] .
      then show ?case using fp since_trans [OF wu] by simp
    next
      case (2 u)
      then show ?case using w(2) v(1) since_faulty by blast
    qed
  qed
  then have "wp (PostTransfer cmd) (\<lambda>_ _. False) (\<lambda>e w'. since w w' \<and> e = ErrIdempotencyKeyConflict) w"
    by (rule wp_PostTransfer) simp
  then show ?thesis by (auto dest: wp_False_Inr)
qed

text \<open>Whatever fails, what is answered under a claimed key is the transaction that claimed it.\<close>

lemma claimed_key_replayed:
  assumes w: "well_behaved w" and c: "db_key (w_committed w) (req_IdempotencyKey cmd) = Some c"
    and run: "PostTransfer cmd w = (Inr res, w')"
  shows "res_Replayed res \<and> kr_fingerprint c = req_Fingerprint cmd \<and>
    txn_id (p_Transaction (res_Posting res)) = kr_transaction c \<and> since w w'"
proof (cases "res_Replayed res")
  case True
  then obtain u v c' where u: "since w u" "db_key (w_committed v) (req_IdempotencyKey cmd) = Some c'"
      "since w v" "kr_fingerprint c' = req_Fingerprint cmd"
      "posting_read v (req_TenantID cmd) (kr_transaction c') (res_Posting res) u" "since u w'"
    using PostTransfer_outcome [OF run] by (auto simp: outcome_def replay_of_def)
  have "c' = c" using since_keeps_key [OF w u(3) c] u(2) by simp
  moreover have "since w w'" using u(1,6) by (rule since_trans)
  ultimately show ?thesis using True u(4,5) by (auto simp: posting_read_def)
next
  case False
  then obtain u tid now where u: "since w u" "first_write cmd tid now (w_committed u) (w_committed w')"
    using PostTransfer_outcome [OF run] by (auto simp: outcome_def)
  show ?thesis using since_keeps_key [OF w u(1) c] u(2) by (simp add: first_write_def)
qed

section \<open>A world that leaves the call alone\<close>

definition quiet :: "world \<Rightarrow> bool" where
  "quiet w \<longleftrightarrow> \<not> faulty w \<and> (\<forall>n d. w_env w n d = d)"

lemma quiet_since: "quiet w \<Longrightarrow> since w w' \<Longrightarrow> quiet w' \<and> w_committed w' = w_committed w"
  by (auto simp: quiet_def since_def same_run_def faulty_def env_run_id)

lemma quiet_well_behaved: "quiet w \<Longrightarrow> well_behaved w"
  by (simp add: quiet_def well_behaved_def)

lemma wp_query_quiet:
  assumes "quiet w" "clean w"
    and "\<And>u. since w u \<Longrightarrow> clean u \<Longrightarrow> w_committed u = w_committed w \<Longrightarrow> quiet u \<Longrightarrow> Q (f (w_committed w)) u"
  shows "wp (query f) Q E w"
proof (rule wp_query_clean [OF assms(2)])
  fix u assume u: "since w u" "clean u"
  then have q: "quiet u" "w_committed u = w_committed w" using quiet_since [OF assms(1)] by blast+
  then show "Q (f (w_committed u)) u" using assms(3) u by simp
next
  fix u assume "since w u" "faulty u"
  then show "E (ErrInfra ''statement'') u" using assms(1) since_faulty by (auto simp: quiet_def)
qed

lemma wp_command_ok:
  assumes "holding v d u" and "\<not> faulty v" and "f d = Inr (x, d')"
    and "\<And>u'. holding v d' u' \<Longrightarrow> Q x u'"
  shows "wp (command f) Q E u"
  using assms since_faulty by (intro wp_command_holding [OF assms(1)]) (auto simp: holding_def)

text \<open>The accounts a lock of these ids finds.\<close>

definition found_account :: "db \<Rightarrow> string \<Rightarrow> string \<Rightarrow> Account option" where
  "found_account d t i = (case db_account d t i of
     None \<Rightarrow> None
   | Some r \<Rightarrow> Some \<lparr>acct_id = i, acct_kind = ar_kind r,
       acct_balance = \<lparr>minorUnits = ar_balance r, currency = ar_currency r\<rparr>, acct_tenantID = t\<rparr>)"

lemma books_scanAccount:
  assumes "books d" and "db_account d t i = Some r"
  shows "scanAccount r t = Inr (the (found_account d t i))"
  using assms db_account_key [OF assms(2)]
  by (auto simp: scanAccount_Inr_iff found_account_def books_def references_def floored_def
      single_currency_def ledgerCurrency_def)

lemma wp_lock_loop_quiet:
  assumes "quiet s" and "w_db s = w_committed s" and "books (w_committed s)"
  shows "wp (lock_loop t ids) (\<lambda>as u. read_from s u \<and> w_committed u = w_committed s \<and> quiet u \<and>
     as = List.map_filter (found_account (w_committed s) t) ids \<and> (as \<noteq> [] \<longrightarrow> pending u)) (\<lambda>_ _. False) s"
  using assms
proof (induction ids arbitrary: s)
  case Nil
  then show ?case by (simp add: read_from_refl map_filter_simps)
next
  case (Cons i ids)
  let ?d = "w_committed s"
  have one: "wp (lockOne t i) (\<lambda>x u. read_from s u \<and> w_committed u = ?d \<and> quiet u \<and>
      x = found_account ?d t i \<and> (x \<noteq> None \<longrightarrow> pending u)) (\<lambda>_ _. False) s"
  proof -
    have "wp (lockOne t i) (\<lambda>x u. (read_from s u \<and> (\<forall>a. x = Some a \<longrightarrow> pending u \<and> snapshot t (w_db u) a)))
        (calm s) s"
      using Cons.prems(2) by (rule wp_lockOne)
    moreover have "wp (lockOne t i) (\<lambda>x u. x = found_account ?d t i) (\<lambda>_ _. False) s"
    proof -
      have body: "wp (case db_account ?d t i of None \<Rightarrow> ret None
          | Some r \<Rightarrow> bindE (decide (scanAccount r t)) (\<lambda>a. ret (Some a)))
          (\<lambda>x u. x = found_account ?d t i) (\<lambda>_ _. False) u" for u
        using books_scanAccount [OF Cons.prems(3)]
        by (auto simp: found_account_def split: option.splits)
      have nf: "\<not> faulty u" if "since s u" for u
        using that Cons.prems(1) since_faulty by (simp add: quiet_def)
      show ?thesis unfolding lockOne_def wp_bindE
      proof (cases "pending s")
        case True
        show "wp (select_for_update (AccountRow t i) (\<lambda>d. db_account d t i))
            (\<lambda>x. wp (case x of None \<Rightarrow> ret None | Some r \<Rightarrow> bindE (decide (scanAccount r t)) (\<lambda>a. ret (Some a)))
               (\<lambda>x u. x = found_account ?d t i) (\<lambda>_ _. False)) (\<lambda>_ _. False) s"
          by (rule wp_select_for_update_pending [OF True])
             (use body Cons.prems(2) nf [OF since_refl] in \<open>auto simp: faulty_def split: option.splits\<close>)
      next
        case False
        then have c: "clean s" using Cons.prems(2) by (simp add: clean_iff)
        show "wp (select_for_update (AccountRow t i) (\<lambda>d. db_account d t i))
            (\<lambda>x. wp (case x of None \<Rightarrow> ret None | Some r \<Rightarrow> bindE (decide (scanAccount r t)) (\<lambda>a. ret (Some a)))
               (\<lambda>x u. x = found_account ?d t i) (\<lambda>_ _. False)) (\<lambda>_ _. False) s"
        proof (rule wp_select_for_update_clean [OF c], goal_cases)
          case (1 u)
          then show ?case using quiet_since [OF Cons.prems(1) 1(1)] body [of u] by simp
        next
          case (2 u r)
          then show ?case
            using quiet_since [OF Cons.prems(1) 2(1)] body [of "u\<lparr>w_locks := [AccountRow t i]\<rparr>"] by simp
        next
          case (3 u)
          then show ?case using nf by blast
        qed
      qed
    qed
    ultimately have "wp (lockOne t i) (\<lambda>x u. (read_from s u \<and> (\<forall>a. x = Some a \<longrightarrow> pending u \<and> snapshot t (w_db u) a))
        \<and> x = found_account ?d t i) (\<lambda>e u. calm s e u \<and> False) s"
      by (rule wp_conj)
    then show ?thesis
    proof (rule wp_mono)
      fix x u
      assume u: "(read_from s u \<and> (\<forall>a. x = Some a \<longrightarrow> pending u \<and> snapshot t (w_db u) a))
        \<and> x = found_account ?d t i"
      then have su: "since s u" by (simp add: read_from_def)
      show "read_from s u \<and> w_committed u = ?d \<and> quiet u \<and> x = found_account ?d t i \<and>
          (x \<noteq> None \<longrightarrow> pending u)"
        using quiet_since [OF Cons.prems(1) su] u by blast
    qed simp
  qed
  show ?case unfolding lock_loop.simps wp_bindE
  proof (rule wp_mono [OF one])
    fix x u
    assume u: "read_from s u \<and> w_committed u = ?d \<and> quiet u \<and> x = found_account ?d t i \<and> (x \<noteq> None \<longrightarrow> pending u)"
    then have db: "w_db u = w_committed u" by (simp add: read_from_def)
    have eq: "w_committed u = ?d" and q: "quiet u" using u by simp_all
    have "books (w_committed u)" using eq Cons.prems(3) by simp
    note IH = Cons.IH [OF q db this, unfolded eq]
    have "wp (lock_loop t ids) (\<lambda>as v. read_from u v \<and> w_committed v = ?d \<and> quiet v \<and>
       as = List.map_filter (found_account ?d t) ids \<and> (as \<noteq> [] \<longrightarrow> pending v)) (\<lambda>_ _. False) u"
      by (rule IH)
    then show "wp (lock_loop t ids) (\<lambda>as. wp (ret (case x of None \<Rightarrow> as | Some a \<Rightarrow> a # as))
        (\<lambda>as u. read_from s u \<and> w_committed u = ?d \<and> quiet u \<and>
           as = List.map_filter (found_account ?d t) (i # ids) \<and> (as \<noteq> [] \<longrightarrow> pending u)) (\<lambda>_ _. False))
        (\<lambda>_ _. False) u"
    proof (rule wp_mono)
      fix as v
      assume v: "read_from u v \<and> w_committed v = ?d \<and> quiet v \<and>
        as = List.map_filter (found_account ?d t) ids \<and> (as \<noteq> [] \<longrightarrow> pending v)"
      have "read_from s v" using u v read_from_trans by blast
      moreover have "pending v" if "x \<noteq> None" using that u v by (simp add: read_from_def)
      ultimately show "wp (ret (case x of None \<Rightarrow> as | Some a \<Rightarrow> a # as))
          (\<lambda>as u. read_from s u \<and> w_committed u = ?d \<and> quiet u \<and>
             as = List.map_filter (found_account ?d t) (i # ids) \<and> (as \<noteq> [] \<longrightarrow> pending u)) (\<lambda>_ _. False) v"
        using u v by (cases "found_account ?d t i") (auto simp: map_filter_simps)
    qed
  qed
qed

section \<open>What is movable moves, what is not is refused\<close>

lemma findAccount_map_filter:
  "(\<And>i a. g i = Some a \<Longrightarrow> acct_id a = i) \<Longrightarrow>
     findAccount (List.map_filter g ids) i = (if i \<in> set ids then g i else None)"
  by (induction ids) (auto simp: map_filter_simps split: option.splits)

lemma found_account_id: "found_account d t i = Some a \<Longrightarrow> acct_id a = i"
  by (auto simp: found_account_def split: option.splits)

text \<open>The answer of the rulebook on what a lock of both accounts finds.\<close>

definition decision :: "TransferRequest \<Rightarrow> db \<Rightarrow> time \<Rightarrow> string \<Rightarrow> Violation + Posting" where
  "decision cmd d now tid = Post \<lparr>cmd_From = req_From cmd, cmd_To = req_To cmd,
      cmd_Amount = req_Amount cmd, cmd_TenantID = req_TenantID cmd\<rparr>
    (List.map_filter (found_account d (req_TenantID cmd)) (dedupedSorted [req_From cmd, req_To cmd])) now tid"

lemma decision_accounts:
  fixes cmd d
  defines "as \<equiv> List.map_filter (found_account d (req_TenantID cmd)) (dedupedSorted [req_From cmd, req_To cmd])"
  shows "findAccount as (req_From cmd) = found_account d (req_TenantID cmd) (req_From cmd)"
    and "findAccount as (req_To cmd) = found_account d (req_TenantID cmd) (req_To cmd)"
  unfolding as_def by (simp_all add: findAccount_map_filter found_account_id)

lemma wp_post_body_quiet:
  assumes v: "clean v" "quiet v" "books (w_committed v)"
    and free: "db_key (w_committed v) (req_IdempotencyKey cmd) = None"
    and no: "\<And>now tid x k. decision cmd (w_committed v) now tid = Inl x \<Longrightarrow> R (Inl (ErrViolation x)) k (w_committed v)"
    and yes: "\<And>u now tid. w_committed u = w_committed v \<Longrightarrow> quiet u \<Longrightarrow> pending u \<Longrightarrow>
        w_db u = w_committed u \<Longrightarrow> since v u \<Longrightarrow> tid \<in> w_ids v ` {w_minted v ..< w_minted u} \<Longrightarrow>
        decision cmd (w_committed v) now tid = Inr (posting_of cmd tid now) \<Longrightarrow>
        wp (write_phase cmd tid (posting_of cmd tid now))
          (\<lambda>res u. same_run v u \<and> R (Inr res) (w_minted u) (w_db u)) (\<lambda>_ _. False) u"
  shows "wp (post_body cmd) (\<lambda>res u. same_run v u \<and> R (Inr res) (w_minted u) (w_db u))
     (\<lambda>e u. since v u \<and> R (Inl e) (w_minted u) (w_committed u)) v"
  unfolding post_body_def write_phase_def [symmetric] idempotency_Lookup_def wp_bindE
proof (rule wp_query_quiet [OF v(2,1)], goal_cases)
  case (1 u)
  have db: "w_db u = w_committed u" using 1 by (simp add: clean_def)
  have bk: "books (w_committed u)" using 1 v(3) by simp
  note L = wp_lock_loop_quiet [OF 1(4) db bk, of "req_TenantID cmd"
      "dedupedSorted [req_From cmd, req_To cmd]", unfolded 1(3)]
  show ?case unfolding free option.map option.case wp_bindE wp_ret LockForUpdate_def
  proof (rule wp_mono [OF L])
    fix as u'
    assume u': "read_from u u' \<and> w_committed u' = w_committed v \<and> quiet u' \<and>
      as = List.map_filter (found_account (w_committed v) (req_TenantID cmd))
             (dedupedSorted [req_From cmd, req_To cmd]) \<and> (as \<noteq> [] \<longrightarrow> pending u')"
    let ?w = "u'\<lparr>w_reads := Suc (w_reads u'), w_minted := Suc (w_minted u')\<rparr>"
    let ?tid = "w_ids u' (w_minted u')" and ?now = "w_clock u' (w_reads u')"
    have vu: "since v u'" using 1(1) u' since_trans by (blast intro: since_trans dest: read_from_def [THEN iffD1])
    then have vw: "since v ?w" by (intro since_trans [OF vu]) (simp add: since_def same_run_def)
    have dec: "Post \<lparr>cmd_From = req_From cmd, cmd_To = req_To cmd, cmd_Amount = req_Amount cmd,
        cmd_TenantID = req_TenantID cmd\<rparr> as ?now ?tid = decision cmd (w_committed v) ?now ?tid"
      using u' by (simp add: decision_def)
    have r: "?tid \<in> w_ids v ` {w_minted v ..< w_minted ?w}" using vu by (auto simp: since_def same_run_def)
    have dbw: "w_db ?w = w_committed ?w" using u' by (simp add: read_from_def)
    show "wp clock (\<lambda>x. wp nextID (\<lambda>xa. wp (decide (Post \<lparr>cmd_From = req_From cmd,
        cmd_To = req_To cmd, cmd_Amount = req_Amount cmd, cmd_TenantID = req_TenantID cmd\<rparr> as x xa))
        (\<lambda>x. wp (write_phase cmd xa x) (\<lambda>res u. same_run v u \<and> R (Inr res) (w_minted u) (w_db u))
          (\<lambda>e u. since v u \<and> R (Inl e) (w_minted u) (w_committed u)))
        (\<lambda>e u. since v u \<and> R (Inl e) (w_minted u) (w_committed u))) (\<lambda>e u. since v u \<and> R (Inl e) (w_minted u) (w_committed u)))
        (\<lambda>e u. since v u \<and> R (Inl e) (w_minted u) (w_committed u)) u'"
    proof (cases "decision cmd (w_committed v) ?now ?tid")
      case (Inl x)
      then show ?thesis using no [OF Inl] vw u' dec by simp
    next
      case (Inr p)
      then have p: "p = posting_of cmd ?tid ?now" using Post_Inr_posting_of dec by metis
      have "as \<noteq> []" using Inr dec by (auto simp: Post_eq split: if_splits)
      then have "pending ?w" using u' by (simp add: pending_def)
      moreover have "quiet ?w" using u' by (simp add: quiet_def faulty_def)
      ultimately have "wp (write_phase cmd ?tid (posting_of cmd ?tid ?now))
          (\<lambda>res u. same_run v u \<and> R (Inr res) (w_minted u) (w_db u)) (\<lambda>_ _. False) ?w"
        using yes [of ?w ?tid ?now] u' vw r Inr p dbw by simp
      then show ?thesis using Inr p dec by (auto elim: wp_mono)
    qed
  qed simp
qed

text \<open>A unit of work whose body ends so answers so, and commits so.\<close>

lemma PostTransfer_quiet:
  assumes w: "quiet w" "books (w_committed w)"
    and free: "db_key (w_committed w) (req_IdempotencyKey cmd) = None"
    and no: "\<And>now tid x k. decision cmd (w_committed w) now tid = Inl x \<Longrightarrow> R (Inl (ErrViolation x)) k (w_committed w)"
    and yes: "\<And>v u now tid. since w v \<Longrightarrow> w_committed u = w_committed w \<Longrightarrow> quiet u \<Longrightarrow> pending u \<Longrightarrow>
        w_db u = w_committed u \<Longrightarrow> since v u \<Longrightarrow> tid \<in> w_ids w ` {w_minted w ..< w_minted u} \<Longrightarrow>
        decision cmd (w_committed w) now tid = Inr (posting_of cmd tid now) \<Longrightarrow>
        wp (write_phase cmd tid (posting_of cmd tid now))
          (\<lambda>res u. same_run v u \<and> R (Inr res) (w_minted u) (w_db u)) (\<lambda>_ _. False) u"
    and real: "\<And>k d. \<not> R (Inl ErrIdempotencyKeyClaimConflict) k d"
    and mono: "\<And>r k k' d. R r k d \<Longrightarrow> k \<le> k' \<Longrightarrow> R r k' d"
  shows "\<exists>r w'. PostTransfer cmd w = (r, w') \<and> R r (w_minted w') (w_committed w')"
proof -
  have nf: "\<not> faulty w" using w(1) by (simp add: quiet_def)
  have "wp (withUnitOfWork (post_body cmd)) (\<lambda>res w'. R (Inr res) (w_minted w') (w_committed w'))
     (\<lambda>e w'. R (Inl e) (w_minted w') (w_committed w')) w"
  proof (rule withUnitOfWork_reliable [OF nf])
    fix v assume v: "since w v" "clean v"
    then have q: "quiet v" "w_committed v = w_committed w" using quiet_since [OF w(1)] by blast+
    have ids: "w_ids v = w_ids w" and mint: "w_minted w \<le> w_minted v"
      using v(1) by (simp_all add: since_def same_run_def)
    have "wp (post_body cmd) (\<lambda>res u. same_run v u \<and> R (Inr res) (w_minted u) (w_db u))
        (\<lambda>e u. since v u \<and> R (Inl e) (w_minted u) (w_committed u)) v"
    proof (rule wp_post_body_quiet [OF v(2) q(1)])
      fix u now tid
      assume u: "w_committed u = w_committed v" "quiet u" "pending u" "w_db u = w_committed u" "since v u"
        "tid \<in> w_ids v ` {w_minted v ..< w_minted u}"
        "decision cmd (w_committed v) now tid = Inr (posting_of cmd tid now)"
      have "tid \<in> w_ids w ` {w_minted w ..< w_minted u}" using u(6) ids mint by auto
      then show "wp (write_phase cmd tid (posting_of cmd tid now))
          (\<lambda>res u. same_run v u \<and> R (Inr res) (w_minted u) (w_db u)) (\<lambda>_ _. False) u"
        using u(1-5,7) q(2) by (intro yes [OF v(1)]) simp_all
    qed (use q(2) w(2) free no in simp_all)
    then show "wp (post_body cmd) (\<lambda>x u. same_run v u \<and> (\<forall>w'. commits u w' \<longrightarrow> R (Inr x) (w_minted w') (w_committed w')))
        (\<lambda>e u. \<forall>w'. since u w' \<longrightarrow> R (Inl e) (w_minted w') (w_committed w')) v"
    proof (rule wp_mono)
      fix e u assume u: "since v u \<and> R (Inl e) (w_minted u) (w_committed u)"
      then have "quiet u" using quiet_since [OF q(1)] by blast
      show "\<forall>w'. since u w' \<longrightarrow> R (Inl e) (w_minted w') (w_committed w')"
      proof (intro allI impI)
        fix w' assume w': "since u w'"
        have "w_committed w' = w_committed u" using quiet_since [OF \<open>quiet u\<close> w'] by simp
        moreover have "w_minted u \<le> w_minted w'" using since_same_run [OF w'] by (simp add: same_run_def)
        ultimately show "R (Inl e) (w_minted w') (w_committed w')"
          using u mono [of "Inl e" "w_minted u" "w_committed u" "w_minted w'"] by simp
      qed
    next
      fix x u assume u: "same_run v u \<and> R (Inr x) (w_minted u) (w_db u)"
      then show "same_run v u \<and> (\<forall>w'. commits u w' \<longrightarrow> R (Inr x) (w_minted w') (w_committed w'))"
        using mono [of "Inr x" "w_minted u" "w_db u"] by (simp add: commits_def same_run_def)
    qed
  qed
  then have "wp (PostTransfer cmd) (\<lambda>res w'. R (Inr res) (w_minted w') (w_committed w'))
     (\<lambda>e w'. R (Inl e) (w_minted w') (w_committed w')) w"
    by (rule wp_PostTransfer) (use real in blast)
  then show ?thesis
    by (cases "PostTransfer cmd w"; cases "fst (PostTransfer cmd w)") (auto simp: wp_def)
qed

lemma PostTransfer_refused:
  assumes "quiet w" "books (w_committed w)"
    and "db_key (w_committed w) (req_IdempotencyKey cmd) = None"
    and x: "\<And>now tid. decision cmd (w_committed w) now tid = Inl x"
  shows "\<exists>w'. PostTransfer cmd w = (Inl (ErrViolation x), w') \<and> w_committed w' = w_committed w"
proof -
  have "\<exists>r w'. PostTransfer cmd w = (r, w') \<and> r = Inl (ErrViolation x) \<and> w_committed w' = w_committed w"
    by (rule PostTransfer_quiet [OF assms(1-3)]) (simp_all add: x)
  then show ?thesis by blast
qed

text \<open>The six writes of an allowed movement all succeed.\<close>

lemma filter_eq_single: "distinct xs \<Longrightarrow> f \<in> set xs \<Longrightarrow> filter (\<lambda>r. r = f) xs = [f]"
  by (induction xs) (auto simp: filter_empty_conv)

lemma balance_hits:
  assumes "schema d" and "db_account d t i = Some f" and "ar_currency f = currency m"
  shows "filter (delta_hits t \<lparr>d_AccountID = i, d_Delta = m\<rparr>) (accounts d) = [f]"
proof -
  have f: "f \<in> set (accounts d)" "ar_tenant f = t" "ar_id f = i"
    using db_account_key [OF assms(2)] by auto
  have d: "distinct (accounts d)" using assms(1) by (simp add: schema_def distinct_map)
  have "delta_hits t \<lparr>d_AccountID = i, d_Delta = m\<rparr> r \<longleftrightarrow> r = f" if "r \<in> set (accounts d)" for r
  proof
    assume "delta_hits t \<lparr>d_AccountID = i, d_Delta = m\<rparr> r"
    then show "r = f"
      using schema_account_unique [OF assms(1,2) that] by (simp add: delta_hits_def)
  next
    assume "r = f"
    then show "delta_hits t \<lparr>d_AccountID = i, d_Delta = m\<rparr> r" using f assms(3) by (simp add: delta_hits_def)
  qed
  then have "filter (delta_hits t \<lparr>d_AccountID = i, d_Delta = m\<rparr>) (accounts d) = filter (\<lambda>r. r = f) (accounts d)"
    by (rule filter_cong [OF refl])
  also have "\<dots> = [f]" using d f(1) by (rule filter_eq_single)
  finally show ?thesis .
qed

lemma update_balance_ok:
  assumes "schema d" and "db_account d t i = Some f" and "ar_currency f = currency m"
    and "in_int64 (sint (ar_balance f) + sint (minorUnits m))"
  shows "update_balance t \<lparr>d_AccountID = i, d_Delta = m\<rparr> d =
     Inr (1, d\<lparr>accounts := map (apply_delta t i (currency m) (minorUnits m)) (accounts d)\<rparr>)"
proof -
  have "(\<lambda>r. if delta_hits t \<lparr>d_AccountID = i, d_Delta = m\<rparr> r
           then r\<lparr>ar_balance := ar_balance r + minorUnits (d_Delta \<lparr>d_AccountID = i, d_Delta = m\<rparr>)\<rparr> else r) = apply_delta t i (currency m) (minorUnits m)"
    by (auto simp: delta_hits_def apply_delta_def fun_eq_iff)
  then show ?thesis
    using balance_hits [OF assms(1-3)] assms(4) by (simp only: update_balance_def Let_def) (simp add: bigint_add_def)
qed

lemma schema_apply_delta:
  "schema d \<Longrightarrow> schema (d\<lparr>accounts := map (apply_delta t i c x) (accounts d)\<rparr>)"
  by (simp add: schema_def comp_def)

lemma post_writes_exist:
  assumes bk: "books d" and mv: "movable t a b m d" and ab: "a \<noteq> b"
    and tid: "\<not> transaction_exists d tid" and free: "db_key d k = None"
  obtains d1 d2 d3 d4 d5 where
    "insert_transaction \<lparr>tr_tenant = t, tr_id = tid, tr_recorded_at = timestamptz now\<rparr> d = Inr ((), d1)"
    "insert_entry (leg t tid a b (- minorUnits m) (currency m) (timestamptz now) 0) d1 = Inr ((), d2)"
    "insert_entry (leg t tid b a (minorUnits m) (currency m) (timestamptz now) 1) d2 = Inr ((), d3)"
    "update_balance t \<lparr>d_AccountID = a, d_Delta = Money_Negate m\<rparr> d3 = Inr (1, d4)"
    "update_balance t \<lparr>d_AccountID = b, d_Delta = m\<rparr> d4 = Inr (1, d5)"
    "insert_key \<lparr>kr_key = k, kr_fingerprint = fp, kr_transaction = tid\<rparr> d5 =
       Inr (1, posted t a b m tid (timestamptz now) k fp d)"
proof -
  have sc: "schema d" and rf: "references d" using bk by (simp_all add: books_def)
  obtain f g where fg: "db_account d t a = Some f" "db_account d t b = Some g"
    "0 < sint (minorUnits m)" "ar_currency f = currency m" "ar_currency g = currency m"
    "sint (- minorUnits m) = - sint (minorUnits m)"
    using mv by (rule movable_rows) blast
  have ranges: "in_int64 (sint (ar_balance f) - sint (minorUnits m))"
    "in_int64 (sint (ar_balance g) + sint (minorUnits m))"
    using mv ab fg by (simp_all add: movable_def)
  have tn: "tenant_exists d t" using db_account_key [OF fg(1)] rf by (auto simp: references_def)
  have none: "\<forall>e \<in> set (entries d). er_transaction e \<noteq> tid" using rf tid by (auto simp: references_def)
  have acc: "account_exists d t a" "account_exists d t b" using fg by (simp_all add: account_exists_def)
  let ?d1 = "d\<lparr>transactions := transactions d @ [\<lparr>tr_tenant = t, tr_id = tid, tr_recorded_at = timestamptz now\<rparr>]\<rparr>"
  let ?e0 = "leg t tid a b (- minorUnits m) (currency m) (timestamptz now) 0"
  let ?e1 = "leg t tid b a (minorUnits m) (currency m) (timestamptz now) 1"
  let ?d2 = "?d1\<lparr>entries := entries d @ [?e0]\<rparr>"
  let ?d3 = "?d1\<lparr>entries := entries d @ [?e0, ?e1]\<rparr>"
  let ?d4 = "?d3\<lparr>accounts := map (apply_delta t a (currency m) (- minorUnits m)) (accounts d)\<rparr>"
  let ?d5 = "?d4\<lparr>accounts := map (apply_delta t b (currency m) (minorUnits m)) (accounts ?d4)\<rparr>"
  have w1: "insert_transaction \<lparr>tr_tenant = t, tr_id = tid, tr_recorded_at = timestamptz now\<rparr> d = Inr ((), ?d1)"
    using tid tn by (simp add: insert_transaction_def)
  have w2: "insert_entry ?e0 ?d1 = Inr ((), ?d2)"
    using none acc tn
    by (simp add: insert_entry_def account_exists_iff tenant_exists_iff transaction_exists_def)
  have w3: "insert_entry ?e1 ?d2 = Inr ((), ?d3)"
    using none acc tn
    by (simp add: insert_entry_def account_exists_iff tenant_exists_iff transaction_exists_def)
  have s3: "schema ?d3" using sc tid by (simp add: schema_def transaction_exists_def)
  have f3: "db_account ?d3 t a = Some f" using fg(1) by (simp add: db_account_def)
  have w4: "update_balance t \<lparr>d_AccountID = a, d_Delta = Money_Negate m\<rparr> ?d3 = Inr (1, ?d4)"
    using update_balance_ok [OF s3 f3, of "Money_Negate m"] fg ranges by simp
  have s4: "schema ?d4" using schema_apply_delta [OF s3] by simp
  have "apply_delta t a (currency m) (- minorUnits m) g = g"
    using db_account_key [OF fg(2)] ab by (simp add: apply_delta_def)
  then have g4: "db_account ?d4 t b = Some g"
    using fg(2) by (simp add: db_account_def find_apply_delta)
  have w5: "update_balance t \<lparr>d_AccountID = b, d_Delta = m\<rparr> ?d4 = Inr (1, ?d5)"
    using update_balance_ok [OF s4 g4, of m] fg ranges by simp
  have w6: "insert_key \<lparr>kr_key = k, kr_fingerprint = fp, kr_transaction = tid\<rparr> ?d5 =
       Inr (1, posted t a b m tid (timestamptz now) k fp d)"
    using free by (simp add: insert_key_def db_key_def transaction_exists_def posted_def)
  show thesis by (rule that [OF w1 w2 w3 w4 w5 w6])
qed

lemma wp_write_phase_ok:
  assumes "holding u d u" "\<not> faulty u" "books d"
    and "movable (req_TenantID cmd) (req_From cmd) (req_To cmd) (req_Amount cmd) d"
    and "req_From cmd \<noteq> req_To cmd" "\<not> transaction_exists d tid"
    and "db_key d (req_IdempotencyKey cmd) = None"
  shows "wp (write_phase cmd tid (posting_of cmd tid now))
     (\<lambda>res u'. same_run u u' \<and> res = \<lparr>res_Posting = posting_of cmd tid now, res_Replayed = False\<rparr> \<and>
        w_db u' = posted (req_TenantID cmd) (req_From cmd) (req_To cmd) (req_Amount cmd) tid
          (timestamptz now) (req_IdempotencyKey cmd) (req_Fingerprint cmd) d) (\<lambda>_ _. False) u"
proof -
  obtain d1 d2 d3 d4 d5 where W:
    "insert_transaction \<lparr>tr_tenant = req_TenantID cmd, tr_id = tid, tr_recorded_at = timestamptz now\<rparr> d = Inr ((), d1)"
    "insert_entry (leg (req_TenantID cmd) tid (req_From cmd) (req_To cmd) (- minorUnits (req_Amount cmd))
       (currency (req_Amount cmd)) (timestamptz now) 0) d1 = Inr ((), d2)"
    "insert_entry (leg (req_TenantID cmd) tid (req_To cmd) (req_From cmd) (minorUnits (req_Amount cmd))
       (currency (req_Amount cmd)) (timestamptz now) 1) d2 = Inr ((), d3)"
    "update_balance (req_TenantID cmd) \<lparr>d_AccountID = req_From cmd, d_Delta = Money_Negate (req_Amount cmd)\<rparr> d3
       = Inr (1, d4)"
    "update_balance (req_TenantID cmd) \<lparr>d_AccountID = req_To cmd, d_Delta = req_Amount cmd\<rparr> d4 = Inr (1, d5)"
    "insert_key \<lparr>kr_key = req_IdempotencyKey cmd, kr_fingerprint = req_Fingerprint cmd, kr_transaction = tid\<rparr> d5
       = Inr (1, posted (req_TenantID cmd) (req_From cmd) (req_To cmd) (req_Amount cmd) tid
          (timestamptz now) (req_IdempotencyKey cmd) (req_Fingerprint cmd) d)"
    using post_writes_exist [OF assms(3-7)] by metis
  note ok = wp_command_ok [OF _ assms(2)]
  show ?thesis
    unfolding write_phase_def Append_def ApplyDeltas_def idempotency_Claim_def wp_bindE
      posting_of_def Posting.simps Transaction.simps forE.simps entry_to_row_def Entry.simps
      Money_Negate_sel leg_def [symmetric]
    apply (rule ok, rule assms(1), rule W(1))
    apply (rule ok, assumption, rule W(2))
    apply (rule ok, assumption, rule W(3))
    apply simp
    apply (rule ok, assumption, simp add: W(4))
    apply simp
    apply (rule ok, assumption, simp add: W(5))
    apply simp
    apply (rule ok, assumption, simp add: W(6))
    apply (auto simp: holding_def dest: since_same_run)
    done
qed

text \<open>The rulebook accepts what the specification allows.\<close>

lemma decision_movable:
  assumes mv: "movable (req_TenantID cmd) (req_From cmd) (req_To cmd) (req_Amount cmd) d"
    and ab: "req_From cmd \<noteq> req_To cmd"
  shows "decision cmd d now tid = Inr (posting_of cmd tid now)"
proof -
  let ?m = "minorUnits (req_Amount cmd)"
  obtain f g where fg: "db_account d (req_TenantID cmd) (req_From cmd) = Some f"
    "db_account d (req_TenantID cmd) (req_To cmd) = Some g"
    "0 < sint ?m" "ar_currency f = currency (req_Amount cmd)" "ar_currency g = currency (req_Amount cmd)"
    "ar_kind f = Wallet \<Longrightarrow> sint ?m \<le> sint (ar_balance f)"
    "ar_kind g = Wallet \<Longrightarrow> 0 \<le> sint (ar_balance g)"
    "sint (ar_balance f - ?m) = sint (ar_balance f) - sint ?m"
    "sint (ar_balance g + ?m) = sint (ar_balance g) + sint ?m"
    using mv by (rule movable_rows) (use ab in blast)
  then show ?thesis
    unfolding decision_def Post_eq TransferCommand.simps decision_accounts
    by (auto simp: found_account_def posting_of_def Account_Apply_def Money_Add_def)
qed

lemma PostTransfer_succeeds:
  assumes w: "quiet w" "books (w_committed w)"
    and mv: "movable (req_TenantID cmd) (req_From cmd) (req_To cmd) (req_Amount cmd) (w_committed w)"
    and ab: "req_From cmd \<noteq> req_To cmd"
    and free: "db_key (w_committed w) (req_IdempotencyKey cmd) = None"
    and ids: "\<And>n. w_minted w \<le> n \<Longrightarrow> \<not> transaction_exists (w_committed w) (w_ids w n)"
  shows "\<exists>tid now w'. PostTransfer cmd w =
      (Inr \<lparr>res_Posting = posting_of cmd tid now, res_Replayed = False\<rparr>, w') \<and>
      tid \<in> w_ids w ` {w_minted w ..< w_minted w'} \<and>
      w_committed w' = posted (req_TenantID cmd) (req_From cmd) (req_To cmd) (req_Amount cmd) tid
        (timestamptz now) (req_IdempotencyKey cmd) (req_Fingerprint cmd) (w_committed w)"
proof -
  let ?R = "\<lambda>r k d. \<exists>tid now. r = Inr \<lparr>res_Posting = posting_of cmd tid now, res_Replayed = False\<rparr> \<and>
     tid \<in> w_ids w ` {w_minted w ..< k} \<and>
     d = posted (req_TenantID cmd) (req_From cmd) (req_To cmd) (req_Amount cmd) tid
        (timestamptz now) (req_IdempotencyKey cmd) (req_Fingerprint cmd) (w_committed w)"
  have "\<exists>r w'. PostTransfer cmd w = (r, w') \<and> ?R r (w_minted w') (w_committed w')"
  proof (rule PostTransfer_quiet [OF w free])
    fix v u now tid
    assume u: "w_committed u = w_committed w" "quiet u" "pending u" "w_db u = w_committed u" "since v u"
      and tid: "tid \<in> w_ids w ` {w_minted w ..< w_minted u}"
    have "holding u (w_committed w) u" using u by (simp add: holding_def)
    moreover have "\<not> faulty u" using u(2) by (simp add: quiet_def)
    moreover have "\<not> transaction_exists (w_committed w) tid" using tid ids by auto
    ultimately have "wp (write_phase cmd tid (posting_of cmd tid now))
       (\<lambda>res u'. same_run u u' \<and> res = \<lparr>res_Posting = posting_of cmd tid now, res_Replayed = False\<rparr> \<and>
          w_db u' = posted (req_TenantID cmd) (req_From cmd) (req_To cmd) (req_Amount cmd) tid
            (timestamptz now) (req_IdempotencyKey cmd) (req_Fingerprint cmd) (w_committed w)) (\<lambda>_ _. False) u"
      by (intro wp_write_phase_ok w(2) mv ab free)
    then show "wp (write_phase cmd tid (posting_of cmd tid now))
          (\<lambda>res u. same_run v u \<and> ?R (Inr res) (w_minted u) (w_db u)) (\<lambda>_ _. False) u"
    proof (rule wp_mono)
      fix res u'
      assume r: "same_run u u' \<and> res = \<lparr>res_Posting = posting_of cmd tid now, res_Replayed = False\<rparr> \<and>
          w_db u' = posted (req_TenantID cmd) (req_From cmd) (req_To cmd) (req_Amount cmd) tid
            (timestamptz now) (req_IdempotencyKey cmd) (req_Fingerprint cmd) (w_committed w)"
      then have "w_minted u \<le> w_minted u'" by (simp add: same_run_def)
      then have "tid \<in> w_ids w ` {w_minted w ..< w_minted u'}" using tid by auto
      then show "same_run v u' \<and> ?R (Inr res) (w_minted u') (w_db u')"
        using r same_run_trans [OF since_same_run [OF u(5)]] by blast
    qed simp
  next
    fix r k k' d
    assume r: "?R r k d" and k: "k \<le> (k' :: nat)"
    have "w_ids w ` {w_minted w ..< k} \<subseteq> w_ids w ` {w_minted w ..< k'}" using k by auto
    then show "?R r k' d" using r by blast
  qed (simp_all add: decision_movable [OF mv ab])
  then show ?thesis by blast
qed

end
