(* ===== verification/SagaUnits.thy ===== *)
theory SagaUnits
  imports Saga PostProps
begin

text \<open>
  The units of work of the saga refine the specification of theory Steps: bodies that read and
  write in turns, the preparation and recording of a transfer, its claims and its outcomes.
\<close>

section \<open>Bodies that read and write in turns\<close>

definition working :: "world \<Rightarrow> bool" where
  "working w \<longleftrightarrow> (clean w \<or> pending w) \<and> commit_steps (w_committed w) (w_db w)"

definition works :: "'a uow \<Rightarrow> bool" where
  "works m \<longleftrightarrow> (\<forall>v. working v \<longrightarrow> wp m (\<lambda>_ u. since v u \<and> working u) (\<lambda>_ u. since v u \<and> working u) v)"

lemma clean_working: "clean w \<Longrightarrow> working w"
  by (simp add: working_def clean_def)

lemma working_ops: "working w \<Longrightarrow> working (w\<lparr>w_ops := n\<rparr>)"
  by (auto simp: working_def clean_def pending_def)

lemma works_body_ok: "works m \<Longrightarrow> body_ok m"
  unfolding works_def body_ok_def
  by (blast intro: clean_working wp_mono dest: working_def [THEN iffD1])

lemma works_bindE [preserve_intros]:
  assumes "works m" and "\<And>x. works (f x)"
  shows "works (bindE m f)"
  unfolding works_def wp_bindE
proof (intro allI impI)
  fix v assume "working v"
  then have "wp m (\<lambda>_ u. since v u \<and> working u) (\<lambda>_ u. since v u \<and> working u) v"
    using assms(1) by (simp add: works_def)
  then show "wp m (\<lambda>x. wp (f x) (\<lambda>_ u. since v u \<and> working u) (\<lambda>_ u. since v u \<and> working u))
          (\<lambda>_ u. since v u \<and> working u) v"
  proof (rule wp_mono)
    fix x u assume u: "since v u \<and> working u"
    then have "wp (f x) (\<lambda>_ w. since u w \<and> working w) (\<lambda>_ w. since u w \<and> working w) u"
      using assms(2) by (simp add: works_def)
    then show "wp (f x) (\<lambda>_ w. since v w \<and> working w) (\<lambda>_ w. since v w \<and> working w) u"
      by (rule wp_mono) (use u since_trans in blast)+
  qed
qed

lemma works_ret [preserve_intros]: "works (ret x)"
  by (simp add: works_def)

lemma works_throw [preserve_intros]: "works (throw e)"
  by (simp add: works_def)

lemma works_decide [preserve_intros]: "works (decide r)"
  by (simp add: works_def split: sum.splits)

lemma works_attempt [preserve_intros]: "works m \<Longrightarrow> works (attempt m)"
  by (simp add: works_def)

lemma works_query [preserve_intros]: "works (query f)"
  unfolding works_def
proof (intro allI impI)
  fix v assume v: "working v"
  have ops: "since v (v\<lparr>w_ops := Suc (w_ops v)\<rparr>)" by (rule since_ops) simp
  show "wp (query f) (\<lambda>_ u. since v u \<and> working u) (\<lambda>_ u. since v u \<and> working u) v"
  proof (cases "clean v")
    case True
    then show ?thesis by (rule wp_query_clean) (auto intro: clean_working)
  next
    case False
    then have "pending v" using v by (simp add: working_def)
    then show ?thesis by (rule wp_query_pending) (use ops v working_ops in auto)
  qed
qed

lemma works_command:
  assumes "\<And>d x d'. f d = Inr (x, d') \<Longrightarrow> commit_step d d'"
  shows "works (command f)"
  unfolding works_def
proof (intro allI impI)
  fix v assume v: "working v"
  have ops: "since v (v\<lparr>w_ops := Suc (w_ops v)\<rparr>)" by (rule since_ops) simp
  show "wp (command f) (\<lambda>_ u. since v u \<and> working u) (\<lambda>_ u. since v u \<and> working u) v"
  proof (cases "clean v")
    case True
    then show ?thesis
    proof (rule wp_command_clean)
      fix w' x d assume w': "since v w'" and "f (w_committed w') = Inr (x, d)"
      then have "commit_steps (w_committed w') d" using assms by blast
      then show "since v (w'\<lparr>w_db := d, w_dirty := True\<rparr>) \<and> working (w'\<lparr>w_db := d, w_dirty := True\<rparr>)"
        using w' by (simp add: working_def pending_def since_def same_run_def)
    qed (auto intro: clean_working)
  next
    case False
    then have p: "pending v" using v by (simp add: working_def)
    then show ?thesis
    proof (rule wp_command_pending)
      fix x d assume "f (w_db v) = Inr (x, d)"
      then have "commit_step (w_db v) d" using assms by blast
      then have "commit_steps (w_committed v) d" using v by (auto simp: working_def)
      then show "since v (v\<lparr>w_ops := Suc (w_ops v), w_db := d, w_dirty := True\<rparr>) \<and>
          working (v\<lparr>w_ops := Suc (w_ops v), w_db := d, w_dirty := True\<rparr>)"
        by (simp add: working_def pending_def since_def same_run_def)
    qed (use ops v working_ops in auto)
  qed
qed

lemma works_case_option [preserve_intros]:
  "works m \<Longrightarrow> (\<And>x. works (f x)) \<Longrightarrow> works (case r of None \<Rightarrow> m | Some x \<Rightarrow> f x)"
  by (cases r) auto

lemma works_case_sum [preserve_intros]:
  "(\<And>x. works (f x)) \<Longrightarrow> (\<And>x. works (g x)) \<Longrightarrow> works (case r of Inl x \<Rightarrow> f x | Inr x \<Rightarrow> g x)"
  by (cases r) auto

lemma works_case_prod [preserve_intros]:
  "(\<And>x y. works (f x y)) \<Longrightarrow> works (case p of (x, y) \<Rightarrow> f x y)"
  by (cases p) auto

lemma works_if [preserve_intros]: "works m \<Longrightarrow> works n \<Longrightarrow> works (if c then m else n)"
  by simp

lemma works_decide_bind:
  "(\<And>x. r = Inr x \<Longrightarrow> works (f x)) \<Longrightarrow> works (bindE (decide r) f)"
  by (cases r) (auto simp: works_def)

section \<open>The units of work of the saga\<close>

lemma works_accounts_Get [preserve_intros]: "works (accounts_Get t i)"
  unfolding accounts_Get_def by (intro preserve_intros)

lemma works_ensureAccount [preserve_intros]: "works (ensureAccount t i)"
proof -
  have "works (accounts_Create t a)"
    if "NewAccount t i System \<lparr>minorUnits = 0, currency = ledgerCurrency\<rparr> = Inr a" for a
    unfolding accounts_Create_def
    by (rule works_command, rule step_account)
       (use that in \<open>auto simp: NewAccount_def split: if_splits\<close>)
  then have "works (bindE (decide (NewAccount t i System \<lparr>minorUnits = 0, currency = ledgerCurrency\<rparr>))
      (\<lambda>account. accounts_Create t account))"
    by (rule works_decide_bind)
  moreover have "bindE (decide (zeroMoney ledgerCurrency)) f = f \<lparr>minorUnits = 0, currency = ledgerCurrency\<rparr>"
    for f :: "Money \<Rightarrow> unit uow"
    by (simp add: bindE_def decide_def ret_def zeroMoney_def NewMoney_eq ledgerCurrency_def fun_eq_iff)
  ultimately have "works (bindE (decide (zeroMoney ledgerCurrency)) (\<lambda>opening.
      bindE (decide (NewAccount t i System opening)) (\<lambda>account. accounts_Create t account)))"
    by simp
  then show ?thesis unfolding ensureAccount_def
    by (intro works_bindE [of "attempt _"] works_attempt works_accounts_Get works_case_sum works_ret
        works_if works_throw)
qed

lemma reads_linkSnapshotFor [preserve_intros]: "reads (linkSnapshotFor a)"
  unfolding linkSnapshotFor_def by (intro preserve_intros)

lemma body_ok_case_prod: "(\<And>x y. body_ok (f x y)) \<Longrightarrow> body_ok (case p of (x, y) \<Rightarrow> f x y)"
  by (cases p) auto

lemma refines_prepareTransfer [preserve_intros]: "refines (prepareTransfer t a)"
  unfolding prepareTransfer_def ensureSettlementAccount_def ensurePlatformMirrorAccount_def
  by (intro refines_withUnitOfWork body_ok_bindE preserve_intros body_ok_decide body_ok_case_prod
      works_body_ok)

lemma refines_existingTransfer [preserve_intros]: "refines (existingTransfer t k)"
  unfolding existingTransfer_def by (intro refines_withUnitOfWork reads_body_ok preserve_intros)

lemma refines_walletAccountID [preserve_intros]: "refines (walletAccountID t)"
  unfolding walletAccountID_def by (intro refines_withUnitOfWork reads_body_ok preserve_intros)

lemma refines_createTransferState:
  "transfer_typed (transfer_to_row s) \<Longrightarrow> ts_Status s \<noteq> statusSettled \<Longrightarrow> refines (createTransferState s)"
  unfolding createTransferState_def transfers_Create_def
  by (intro refines_withUnitOfWork body_ok_command step_transfer told_unsettled)
    (assumption | simp add: transfer_to_row_def)+

lemma typed_newTransferState [intro]: "transfer_typed (transfer_to_row (newTransferState x t k now c m))"
  by (simp add: transfer_typed_def outcome_ok_def transfer_to_row_def newTransferState_def legPending_def legPosted_def)

lemma unsettled_newTransferState [intro]: "ts_Status (newTransferState x t k now c m) \<noteq> statusSettled"
  by (simp add: newTransferState_def legPending_def statusSettled_def)

lemma refines_SendTransfer [preserve_intros]: "refines (SendTransfer t a m k fp)"
  unfolding SendTransfer_def
  by (intro preserve_intros refines_createTransferState typed_newTransferState unsettled_newTransferState)

lemma update_transfer_step:
  assumes "update_transfer x f d = Inr (n, d')" and "\<And>r. same_transfer r (f r)"
    and "\<And>r. transfer_typed r \<Longrightarrow> transfer_typed (f r)"
    and "\<And>r. db_transfer d x = Some r \<Longrightarrow> told d r \<Longrightarrow> told d (f r)"
  shows "commit_step d d'"
proof -
  have "d' = d\<lparr>transfer_states := map (\<lambda>r. if xr_id r = x then f r else r) (transfer_states d)\<rparr>"
    using assms(1) by (simp add: update_transfer_def)
  then show ?thesis using step_advance [OF assms(2,3,4)] by simp
qed

lemma refines_advance:
  "outcome_ok s (toNullableString r) \<Longrightarrow> s \<noteq> statusSettled \<Longrightarrow> refines (advanceAfterLegOutcome x s n r)"
  unfolding advanceAfterLegOutcome_def AdvanceAfterLegOutcome_def
  by (intro refines_withUnitOfWork body_ok_then body_ok_command silent_intros)
     (erule update_transfer_step, simp_all add: same_transfer_def transfer_typed_def told_def)

text \<open>Every outcome the coordinator records is one of these.\<close>

lemmas status_defs = legPending_def statusRetrying_def statusSettled_def statusReversed_def
  statusReversalFailed_def reasonRetryBudgetExhausted_def reasonLeg1ReversalRetryBudgetExhausted_def
  reasonLeg2ReversalRetryBudgetExhausted_def

lemma outcomes [simp]:
  "outcome_ok legPending r" "outcome_ok statusRetrying r" "outcome_ok statusSettled (toNullableString [])"
  "outcome_ok (if final then statusSettled else legPending) (toNullableString [])"
  "outcome_ok statusReversed (toNullableString reasonRetryBudgetExhausted)"
  "outcome_ok statusReversalFailed (toNullableString reasonLeg1ReversalRetryBudgetExhausted)"
  "outcome_ok statusReversalFailed (toNullableString reasonLeg2ReversalRetryBudgetExhausted)"
  by (simp_all add: outcome_ok_def status_defs toNullableString_def)

lemma unsettled [simp]:
  "legPending \<noteq> statusSettled" "statusRetrying \<noteq> statusSettled" "statusReversed \<noteq> statusSettled"
  "statusReversalFailed \<noteq> statusSettled" "''pending'' \<noteq> statusSettled" "''retrying'' \<noteq> statusSettled"
  by (simp_all add: status_defs)

lemma refines_recordLegSuccess: "l \<noteq> 3 \<Longrightarrow> refines (recordLegSuccess x l)"
  unfolding recordLegSuccess_def by (intro preserve_intros refines_advance) simp_all

lemma reads_legPostedStatus [preserve_intros]: "reads (legPostedStatus k)"
  unfolding legPostedStatus_def by (intro preserve_intros)

lemma reads_leg1DisplayStatus [preserve_intros]: "reads (leg1DisplayStatus k)"
  unfolding leg1DisplayStatus_def by (intro preserve_intros)

lemma reads_leg2DisplayStatus [preserve_intros]: "reads (leg2DisplayStatus k)"
  unfolding leg2DisplayStatus_def by (intro preserve_intros)

lemma refines_GetTransfer [preserve_intros]: "refines (GetTransfer x)"
  unfolding GetTransfer_def by (intro refines_withUnitOfWork reads_body_ok preserve_intros)

lemma refines_reversalPending [preserve_intros]: "refines (reversalPending x)"
  unfolding reversalPending_def by (intro refines_withUnitOfWork reads_body_ok preserve_intros)

lemma refines_dueTransferIDs [preserve_intros]: "refines (dueTransferIDs n)"
  unfolding dueTransferIDs_def by (intro refines_withUnitOfWork reads_body_ok preserve_intros)

lemma refines_nextLegFor [preserve_intros]: "refines (nextLegFor x)"
  unfolding nextLegFor_def by (intro refines_withUnitOfWork reads_body_ok preserve_intros)

section \<open>Claims\<close>

text \<open>A claim leaves the world as a unit of work does that fails where nothing was claimed.\<close>

lemma claimTransfer_world:
  "snd (claimTransfer x w) =
     snd (withUnitOfWork (bindE (ClaimOne x claimLeaseDuration) (\<lambda>r. case r of
            None \<Rightarrow> throw ErrTransferNotFound | Some s \<Rightarrow> ret s)) w)"
proof (cases "Begin w")
  case (Pair r v)
  then show ?thesis
    by (cases r; cases "ClaimOne x claimLeaseDuration v"; cases "fst (ClaimOne x claimLeaseDuration v)")
       (auto simp: claimTransfer_def withUnitOfWork_def bindE_def throw_def ret_def
             split: option.splits sum.splits prod.splits)
qed

lemma works_select_for_update [preserve_intros]: "works (select_for_update k f)"
  unfolding works_def
proof (intro allI impI)
  fix v assume v: "working v"
  have ops: "since v (v\<lparr>w_ops := Suc (w_ops v)\<rparr>)" by (rule since_ops) simp
  show "wp (select_for_update k f) (\<lambda>_ u. since v u \<and> working u) (\<lambda>_ u. since v u \<and> working u) v"
  proof (cases "clean v")
    case True
    then show ?thesis
    proof (rule wp_select_for_update_clean)
      fix w' assume "since v w'" "clean w'"
      then show "since v (w'\<lparr>w_locks := [k]\<rparr>) \<and> working (w'\<lparr>w_locks := [k]\<rparr>)"
        by (simp add: working_def pending_def clean_def since_def same_run_def)
    qed (auto intro: clean_working)
  next
    case False
    then have p: "pending v" using v by (simp add: working_def)
    show ?thesis
      by (rule wp_select_for_update_pending [OF p])
         (use v in \<open>auto simp: working_def pending_def clean_def since_def same_run_def\<close>)
  qed
qed

lemma works_clock [preserve_intros]: "works clock"
  by (auto simp: works_def working_def clean_def pending_def since_def same_run_def)

lemma works_ClaimOne: "works (ClaimOne x d)"
  unfolding ClaimOne_def transferStateIsDue_def scan_found_def Let_def
  by (intro preserve_intros works_command) (erule update_transfer_step, simp_all add: same_transfer_def transfer_typed_def,
      erule told_update [rotated 2], simp_all add: same_transfer_def)

lemma refines_claimTransfer [preserve_intros]: "refines (claimTransfer x)"
  unfolding refines_def claimTransfer_world
  by (intro allI impI refinesD [OF refines_withUnitOfWork] works_body_ok preserve_intros works_ClaimOne)

end
