(* ===== verification/Settling.thy ===== *)
theory Settling
  imports SagaUnits
begin

text \<open>
  Why a transfer is settled only once it is paid: a posting that answers leaves its key bound to
  the request, a claim reads the row it leaves, and what both say of the transfer stays true
  until its outcome is recorded.
\<close>

section \<open>A posting that answers is on record\<close>

lemma posted_key:
  "db_key (posted u a b m tid now k fp d) k' =
     (case db_key d k' of Some r \<Rightarrow> Some r
      | None \<Rightarrow> if k = k' then Some \<lparr>kr_key = k, kr_fingerprint = fp, kr_transaction = tid\<rparr> else None)"
  by (simp add: db_key_def posted_def find_append split: option.splits)

lemma stored_transaction_new:
  assumes "\<not> transaction_exists d tid"
  shows "stored_transaction (posted t a b m tid now k fp d) t tid =
    Some \<lparr>tr_tenant = t, tr_id = tid, tr_recorded_at = now\<rparr>"
proof -
  have "List.find (\<lambda>r. tr_tenant r = t \<and> tr_id r = tid) (transactions d) = None"
    using assms by (auto simp: transaction_exists_def find_None_ball)
  then show ?thesis by (simp add: stored_transaction_def find_append)
qed

lemma answered_step: "commit_step d d' \<Longrightarrow> answered d cmd \<Longrightarrow> answered d' cmd"
  using extends_db_key [OF history.step] extends_stored_transaction [OF history.step]
  by (fastforce simp: answered_def split: option.splits)

interpretation answers: commit_invariant "\<lambda>d. answered d cmd" for cmd
  by unfold_locales (rule answered_step)

lemma first_write_answered: "first_write cmd tid now d d' \<Longrightarrow> answered d' cmd"
  by (auto simp: first_write_def answered_def posted_key stored_transaction_new split: option.splits)

lemma replay_answered:
  assumes "replay_of cmd w p u" and "well_behaved w"
  shows "answered (w_committed u) cmd"
proof -
  obtain v c v' r where v: "since w v" "db_key (w_committed v) (req_IdempotencyKey cmd) = Some c"
      "kr_fingerprint c = req_Fingerprint cmd" and v': "since v v'" "since v' u"
      "stored_transaction (w_committed v') (req_TenantID cmd) (kr_transaction c) = Some r"
    using assms(1) by (auto simp: replay_of_def posting_read_def)
  have wb: "well_behaved v" "well_behaved v'" using assms(2) v(1) v'(1) since_well_behaved by blast+
  have "db_key (w_committed v') (req_IdempotencyKey cmd) = Some c"
    using since_keeps_key [OF wb(1) v'(1) v(2)] .
  then have "answered (w_committed v') cmd" using v(3) v'(3) by (simp add: answered_def)
  then show ?thesis using answers.since_kept [OF wb(2) v'(2)] by blast
qed

lemma PostTransfer_answered:
  assumes "PostTransfer cmd w = (Inr res, w')" and "well_behaved w"
  shows "answered (w_committed w') cmd"
proof (cases "res_Replayed res")
  case True
  then obtain u where u: "since w u" "replay_of cmd w (res_Posting res) u" "since u w'"
    using PostTransfer_outcome [OF assms(1)] by (auto simp: outcome_def)
  have "well_behaved u" using u(1) assms(2) since_well_behaved by blast
  then show ?thesis using answers.since_kept [OF _ u(3)] replay_answered [OF u(2) assms(2)] by blast
next
  case False
  then show ?thesis
    using PostTransfer_outcome [OF assms(1)] first_write_answered by (fastforce simp: outcome_def)
qed

section \<open>A claim reads the row it leaves\<close>

text \<open>The row of a transfer is the one a claimed state was read from, up to its progress.\<close>

definition claimed :: "string \<Rightarrow> TransferState \<Rightarrow> db \<Rightarrow> bool" where
  "claimed x s d \<longleftrightarrow> (\<exists>r s'. db_transfer d x = Some r \<and> scanTransferState r = Inr s' \<and>
     leg3_request s' = leg3_request s)"

lemma scan_same:
  assumes "same_transfer r r'" and "scanTransferState r = Inr s"
  shows "\<exists>s'. scanTransferState r' = Inr s' \<and> leg3_request s' = leg3_request s"
  using assms by (auto simp: same_transfer_def scanTransferState_def leg3_request_def Let_def
      split: option.splits sum.splits)

lemma db_transfer_step:
  assumes "commit_step d d'" and "db_transfer d x = Some r"
  shows "\<exists>r'. db_transfer d' x = Some r' \<and> same_transfer r r'"
  using assms(1)
proof (cases rule: commit_step.cases)
  case (step_advance f y)
  have "xr_id (if xr_id r = y then f r else r) = xr_id r" for r
    using step_advance(2) by (simp add: same_transfer_def)
  then have "db_transfer d' x = Some (if xr_id r = y then f r else r)"
    using assms(2) step_advance(1) by (simp add: db_transfer_def find_map_keep)
  then show ?thesis using step_advance(2) by (simp add: same_transfer_def)
qed (use assms(2) in \<open>auto simp: db_transfer_def inserted revoke_row_def posted_def find_append same_transfer_def\<close>)

interpretation claims: commit_invariant "claimed x s" for x s
proof
  fix d d' assume "commit_step d d'" and "claimed x s d"
  then show "claimed x s d'"
    using db_transfer_step scan_same unfolding claimed_def by metis
qed

lemma claimed_paid:
  "claimed x s d \<Longrightarrow> answered d (leg3_request s) \<Longrightarrow> db_transfer d x = Some r \<Longrightarrow> leg3_paid d r"
  by (auto simp: claimed_def leg3_paid_def)

lemma claim_unit:
  "claimTransfer x w = (Inr (Some s), w') \<Longrightarrow>
     withUnitOfWork (bindE (ClaimOne x claimLeaseDuration) (\<lambda>r. case r of
       None \<Rightarrow> throw ErrTransferNotFound | Some s \<Rightarrow> ret s)) w = (Inr s, w')"
  by (auto simp: claimTransfer_def withUnitOfWork_def bindE_def throw_def ret_def
      split: option.splits sum.splits prod.splits)

lemma wp_scan_found:
  "wp (scan_found row) Q E w \<longleftrightarrow> (case row of None \<Rightarrow> Q None w | Some r \<Rightarrow>
     (case scanTransferState r of Inl e \<Rightarrow> E (ErrViolation e) w | Inr s \<Rightarrow> Q (Some s) w))"
  by (auto simp: scan_found_def split: option.splits sum.splits)

lemma claimed_leased:
  assumes "db_transfer d x = Some r" and "scanTransferState r = Inr s"
  shows "claimed x (s\<lparr>ts_NextAttemptAt := n\<rparr>) (d\<lparr>transfer_states :=
     map (\<lambda>r. if xr_id r = x then r\<lparr>xr_next := n'\<rparr> else r) (transfer_states d)\<rparr>)"
proof -
  have "db_transfer (d\<lparr>transfer_states := map (\<lambda>r. if xr_id r = x then r\<lparr>xr_next := n'\<rparr> else r) (transfer_states d)\<rparr>) x =
      Some (r\<lparr>xr_next := n'\<rparr>)"
    using assms(1) by (auto simp: db_transfer_def find_map_keep dest: find_Some_memD)
  moreover have "same_transfer r (r\<lparr>xr_next := n'\<rparr>)" by (simp add: same_transfer_def)
  moreover have "leg3_request (s\<lparr>ts_NextAttemptAt := n\<rparr>) = leg3_request s" by (simp add: leg3_request_def)
  ultimately show ?thesis using scan_same [OF _ assms(2)] unfolding claimed_def by metis
qed

lemma wp_ClaimOne_claimed:
  assumes "clean v"
  shows "wp (ClaimOne x l) (\<lambda>r u. same_run v u \<and> (\<forall>s. r = Some s \<longrightarrow> claimed x s (w_db u))) (\<lambda>_ _. True) v"
  unfolding ClaimOne_def wp_bindE
proof (rule wp_select_for_update_clean [OF assms])
  fix u r assume u: "since v u" "clean u" and r: "db_transfer (w_committed u) x = Some r"
  have run: "same_run v u" using u(1) by (rule since_same_run)
  have db: "w_db u = w_committed u" using u(2) by (simp add: clean_def)
  show "wp (scan_found (Some r)) (\<lambda>found. wp (case found of None \<Rightarrow> ret None
      | Some state \<Rightarrow> bindE (transferStateIsDue state) (\<lambda>due. if \<not> due then ret None
          else bindE clock (\<lambda>now. let extendedNextAttempt = now + l
            in bindE (command (update_transfer x (\<lambda>r. r\<lparr>xr_next := timestamptz extendedNextAttempt\<rparr>)))
                 (\<lambda>_. ret (Some (state\<lparr>ts_NextAttemptAt := extendedNextAttempt\<rparr>))))))
      (\<lambda>r u. same_run v u \<and> (\<forall>s. r = Some s \<longrightarrow> claimed x s (w_db u))) (\<lambda>_ _. True))
      (\<lambda>_ _. True) (u\<lparr>w_locks := [TransferRow x]\<rparr>)"
  proof (cases "scanTransferState r")
    case (Inr s)
    show ?thesis
      unfolding wp_scan_found option.case Inr sum.case wp_bindE transferStateIsDue_def Let_def
      by (auto simp: run pending_def same_run_def [of v] update_transfer_def intro!: wp_command_pending)
        (use run claimed_leased [OF r Inr] db in \<open>auto simp: update_transfer_def same_run_def\<close>)
  qed (simp add: wp_scan_found)
qed (simp_all add: wp_scan_found since_same_run)

lemma claimTransfer_claimed:
  assumes "claimTransfer x w = (Inr (Some s), w')"
  shows "claimed x s (w_committed w')"
proof -
  let ?fn = "bindE (ClaimOne x claimLeaseDuration) (\<lambda>r. case r of
       None \<Rightarrow> throw ErrTransferNotFound | Some s \<Rightarrow> ret s)"
  have "wp (withUnitOfWork ?fn) (\<lambda>s w'. claimed x s (w_committed w')) (\<lambda>_ _. True) w"
  proof (rule wp_withUnitOfWork)
    fix v assume "since w v" "clean v"
    show "wp ?fn (\<lambda>s u. (\<forall>w'. commits u w' \<longrightarrow> claimed x s (w_committed w')) \<and>
        (faulty u \<longrightarrow> (\<forall>w'. commits u w' \<or> since u w' \<longrightarrow> True))) (\<lambda>e u. \<forall>w'. since u w' \<longrightarrow> True) v"
      unfolding wp_bindE
      by (rule wp_mono [OF wp_ClaimOne_claimed [OF \<open>clean v\<close>]])
         (auto simp: commits_def split: option.splits)
  qed simp
  then show ?thesis using claim_unit [OF assms] by (simp add: wp_def)
qed

section \<open>Recording that a transfer is settled\<close>

text \<open>An update that is a step of the specification where an invariant of the steps holds.\<close>

context commit_invariant
begin

lemma moves_command:
  assumes "well_behaved w" and "I (w_committed w)"
    and "\<And>d y d'. I d \<Longrightarrow> f d = Inr (y, d') \<Longrightarrow> commit_step d d'" and "\<And>y. silent (k y)"
  shows "moves w (snd (withUnitOfWork (bindE (command f) k) w))"
  using assms(1)
proof (rule moves_withUnitOfWork)
  fix v assume v: "since w v" "clean v"
  have "commit_step (w_committed u) d" if "since v u" "f (w_committed u) = Inr (y, d)" for u y d
    using since_kept [OF assms(1) since_trans [OF v(1) that(1)] assms(2)] assms(3) that(2) by blast
  then show "wp (bindE (command f) k) (\<lambda>_ u. since v u \<and> commit_steps (w_committed u) (w_db u)) (\<lambda>_ u. since v u) v"
    by (blast intro: wp_then_silent wp_commit [OF v(2)] assms(4))
qed

end

interpretation paid: commit_invariants "claimed x s" "\<lambda>d. answered d (leg3_request s)" for x s
  by unfold_locales

lemma moves_settled:
  assumes "well_behaved w" and "claimed x s (w_committed w)" and "answered (w_committed w) (leg3_request s)"
  shows "moves w (snd (recordLegSuccess x 3 w))"
proof -
  let ?w = "w\<lparr>w_reads := Suc (w_reads w)\<rparr>"
  have "moves w ?w" by (simp add: moves_def same_run_def)
  moreover have "moves ?w (snd (recordLegSuccess x 3 w))"
    unfolding recordLegSuccess_def bindE_def [of clock] clock_def
      advanceAfterLegOutcome_def AdvanceAfterLegOutcome_def
  proof (simp, rule paid.both.moves_command [where x = x and s = s], goal_cases)
    case (3 d y d')
    then show ?case
      using claimed_paid [of x s d]
      by (intro update_transfer_step [OF 3(2)])
         (auto simp: same_transfer_def transfer_typed_def told_def outcome_ok_def statusSettled_def
           toNullableString_def intro: leg3_paid_same [THEN iffD2])
  qed (use assms in \<open>simp_all add: well_behaved_def silent_intros\<close>)
  ultimately show ?thesis by (rule moves_trans)
qed

end
