(* ===== verification/SagaRefinement.thy ===== *)
theory SagaRefinement
  imports Settling
begin

text \<open>
  The saga refines the specification of theory Steps too: every call of the coordinator,
  every goroutine it starts and every tick moves the committed database by commits of the
  specification and by nothing else.
\<close>

section \<open>Calls of the coordinator\<close>

definition saga_ok :: "'a saga \<Rightarrow> bool" where
  "saga_ok m \<longleftrightarrow> (\<forall>c. well_behaved (co_world c) \<longrightarrow> moves (co_world c) (co_world (snd (m c))))"

lemma saga_okD:
  fixes c :: coordinator
  shows "saga_ok m \<Longrightarrow> well_behaved (co_world c) \<Longrightarrow> moves (co_world c) (co_world (snd (m c)))"
  by (simp add: saga_ok_def)

text \<open>What a call needs to hold of the committed database, and what its answer says of it.\<close>

definition saga_in :: "(db \<Rightarrow> bool) \<Rightarrow> 'a saga \<Rightarrow> ('a \<Rightarrow> db \<Rightarrow> bool) \<Rightarrow> bool" where
  "saga_in P m Q \<longleftrightarrow> (\<forall>c. well_behaved (co_world c) \<longrightarrow> P (w_committed (co_world c)) \<longrightarrow>
     moves (co_world c) (co_world (snd (m c))) \<and>
     (\<forall>x. fst (m c) = Inr x \<longrightarrow> Q x (w_committed (co_world (snd (m c))))))"

lemma saga_in_ok: "saga_in (\<lambda>_. True) m Q \<Longrightarrow> saga_ok m"
  by (simp add: saga_in_def saga_ok_def)

lemma saga_ok_in: "saga_ok m \<Longrightarrow> saga_in P m (\<lambda>_ _. True)"
  by (simp add: saga_in_def saga_ok_def)

text \<open>An invariant of the steps is kept by every call.\<close>

lemma saga_keeps: "commit_invariant P \<Longrightarrow> saga_ok m \<Longrightarrow> saga_in P m (\<lambda>_. P)"
  by (auto simp: saga_in_def saga_ok_def intro: commit_invariant.moved)

lemma saga_in_mono:
  "saga_in P m Q \<Longrightarrow> (\<And>d. P' d \<Longrightarrow> P d) \<Longrightarrow> (\<And>x d. Q x d \<Longrightarrow> Q' x d) \<Longrightarrow> saga_in P' m Q'"
  by (simp add: saga_in_def)

lemma saga_in_conj: "saga_in P m Q \<Longrightarrow> saga_in P m Q' \<Longrightarrow> saga_in P m (\<lambda>x d. Q x d \<and> Q' x d)"
  by (simp add: saga_in_def)

lemma saga_in_bindE:
  assumes "saga_in P m Q" and "\<And>x. saga_in (Q x) (f x) R"
  shows "saga_in P (bindE m f) R"
  unfolding saga_in_def
proof (intro allI impI)
  fix c :: coordinator assume c: "well_behaved (co_world c)" "P (w_committed (co_world c))"
  obtain r v where v: "m c = (r, v)" by (cases "m c")
  then have m: "moves (co_world c) (co_world v)" "\<And>x. r = Inr x \<Longrightarrow> Q x (w_committed (co_world v))"
    using assms(1) c by (auto simp: saga_in_def)
  then have "well_behaved (co_world v)" using c same_run_well_behaved moves_def by blast
  then have f: "moves (co_world v) (co_world (snd (f x v))) \<and>
      (\<forall>y. fst (f x v) = Inr y \<longrightarrow> R y (w_committed (co_world (snd (f x v)))))" if "r = Inr x" for x
    using assms(2) m(2) that by (simp add: saga_in_def)
  show "moves (co_world c) (co_world (snd (bindE m f c))) \<and>
      (\<forall>y. fst (bindE m f c) = Inr y \<longrightarrow> R y (w_committed (co_world (snd (bindE m f c)))))"
  proof (cases r)
    case (Inl e)
    then show ?thesis using m(1) v by (simp add: bindE_def)
  next
    case (Inr x)
    then show ?thesis using f [OF Inr] m(1) v by (auto simp: bindE_def intro: moves_trans)
  qed
qed

lemma saga_in_attempt: "saga_in P m Q \<Longrightarrow> saga_in P (attempt m) (\<lambda>r d. \<forall>x. r = Inr x \<longrightarrow> Q x d)"
  by (force simp: saga_in_def attempt_def split: prod.splits)

lemma saga_bindE [preserve_intros]: "saga_ok m \<Longrightarrow> (\<And>x. saga_ok (f x)) \<Longrightarrow> saga_ok (bindE m f)"
  by (rule saga_in_ok, rule saga_in_bindE) (auto intro: saga_ok_in)

lemma saga_on_ledger [preserve_intros]: "refines m \<Longrightarrow> saga_ok (on_ledger m)"
  by (force simp: saga_ok_def on_ledger_def refines_def split: prod.splits)

lemma saga_ret [preserve_intros]: "saga_ok (ret x)"
  by (simp add: saga_ok_def ret_def)

lemma saga_throw [preserve_intros]: "saga_ok (throw e)"
  and saga_record_failure [preserve_intros]: "saga_ok (record_failure k)"
  and saga_rand [preserve_intros]: "saga_ok rand_Float64"
  and saga_spawn [preserve_intros]: "saga_ok (spawn d t)"
  and saga_consumeFault [preserve_intros]: "saga_ok (consumeFault k)"
  and saga_forward_crash [preserve_intros]: "saga_ok (consumeForwardCrashSimulation x)"
  and saga_reversal_crash [preserve_intros]: "saga_ok (consumeReversalCrashSimulation x)"
  and saga_onReversalFailed [preserve_intros]: "saga_ok onReversalFailed"
  by (simp_all add: saga_ok_def throw_def record_failure_def rand_Float64_def spawn_def
      consumeFault_def consumeForwardCrashSimulation_def consumeReversalCrashSimulation_def
      onReversalFailed_def Let_def)

lemma saga_attempt [preserve_intros]: "saga_ok m \<Longrightarrow> saga_ok (attempt m)"
  by (force simp: saga_ok_def attempt_def split: prod.splits)

lemma saga_case_option [preserve_intros]:
  "saga_ok m \<Longrightarrow> (\<And>x. saga_ok (f x)) \<Longrightarrow> saga_ok (case r of None \<Rightarrow> m | Some x \<Rightarrow> f x)"
  by (cases r) auto

lemma saga_case_sum [preserve_intros]:
  "(\<And>x. saga_ok (f x)) \<Longrightarrow> (\<And>x. saga_ok (g x)) \<Longrightarrow> saga_ok (case r of Inl x \<Rightarrow> f x | Inr x \<Rightarrow> g x)"
  by (cases r) auto

lemma saga_case_prod [preserve_intros]:
  "(\<And>x y. saga_ok (f x y)) \<Longrightarrow> saga_ok (case p of (x, y) \<Rightarrow> f x y)"
  by (cases p) auto

lemma saga_if [preserve_intros]: "saga_ok m \<Longrightarrow> saga_ok n \<Longrightarrow> saga_ok (if c then m else n)"
  by simp

lemmas saga_small_defs = post_leg_def scheduleReversalRetry_def
  recordFailedAttempt_def recordFailedReversalAttempt_def consumeInjectedLegFault_def
  consumeInjectedReversalFault_def scheduleRetry_def TriggerForwardLegs_def

lemma saga_advance:
  "outcome_ok s (toNullableString r) \<Longrightarrow> s \<noteq> statusSettled \<Longrightarrow> saga_ok (advance_now x s r)"
  unfolding advance_now_def by (intro preserve_intros refines_advance)

lemma saga_handleReversalFailure:
  "outcome_ok statusReversalFailed (toNullableString r) \<Longrightarrow> saga_ok (handleReversalFailure x l e r t)"
  unfolding handleReversalFailure_def markReversalFailed_def saga_small_defs
  by (intro preserve_intros saga_advance unsettled)

lemma saga_postLeg1Reversal [preserve_intros]: "saga_ok (postLeg1Reversal x s)"
  unfolding postLeg1Reversal_def saga_small_defs
  by (intro preserve_intros refines_withUnitOfWork reads_body_ok)

lemma saga_postLeg2Reversal [preserve_intros]: "saga_ok (postLeg2Reversal s)"
  unfolding postLeg2Reversal_def saga_small_defs by (intro preserve_intros)

lemma saga_attemptLeg1Reversal [preserve_intros]: "saga_ok (attemptLeg1Reversal x s)"
  unfolding attemptLeg1Reversal_def
  by (intro preserve_intros saga_advance saga_handleReversalFailure) simp_all

lemma saga_reverseLeg2ThenLeg1 [preserve_intros]: "saga_ok (reverseLeg2ThenLeg1 x s b)"
  unfolding reverseLeg2ThenLeg1_def
  by (intro preserve_intros saga_advance saga_handleReversalFailure) simp_all

lemma saga_resumeLeg1Reversal [preserve_intros]: "saga_ok (resumeLeg1Reversal x)"
  unfolding resumeLeg1Reversal_def by (intro preserve_intros)

lemma saga_handleLegFailure [preserve_intros]: "saga_ok (handleLegFailure x l s e b)"
  unfolding handleLegFailure_def reverseLeg1_def saga_small_defs
  by (intro preserve_intros refines_advance) simp_all

text \<open>A claim that is granted is of a transfer that is pending or retrying.\<close>

lemma claim_status:
  assumes "claimTransfer x w = (Inr (Some s), w')"
  shows "ts_Status s \<in> {''pending'', ''retrying''}"
proof -
  obtain v v' where "ClaimOne x claimLeaseDuration v = (Inr (Some s), v')"
    using assms by (auto simp: claimTransfer_def bindE_def split: prod.splits sum.splits option.splits)
  then show ?thesis
    by (auto simp: ClaimOne_def bindE_def transferStateIsDue_def ret_def Let_def
        split: prod.splits sum.splits option.splits if_splits)
qed

lemma saga_in_throw: "saga_in P (throw e) Q"
  by (simp add: saga_in_def throw_def)

text \<open>A claim, and a posting of the leg it asks for.\<close>

lemma saga_claim:
  "saga_in (\<lambda>_. True) (on_ledger (claimTransfer x))
     (\<lambda>r d. \<forall>s. r = Some s \<longrightarrow> claimed x s d \<and> ts_Status s \<in> {''pending'', ''retrying''})"
  unfolding saga_in_def
proof (intro allI impI conjI)
  fix c :: coordinator assume "well_behaved (co_world c)"
  then show "moves (co_world c) (co_world (snd (on_ledger (claimTransfer x) c)))"
    using saga_okD [OF saga_on_ledger [OF refines_claimTransfer]] by blast
next
  fix c r s assume "fst (on_ledger (claimTransfer x) c) = Inr r" and "r = Some s"
  then obtain w where w: "claimTransfer x (co_world c) = (Inr (Some s), w)"
      "co_world (snd (on_ledger (claimTransfer x) c)) = w"
    by (auto simp: on_ledger_def split: prod.splits)
  show "claimed x s (w_committed (co_world (snd (on_ledger (claimTransfer x) c))))"
    using claimTransfer_claimed [OF w(1)] w(2) by simp
  show "ts_Status s \<in> {''pending'', ''retrying''}" using claim_status [OF w(1)] .
qed

lemma saga_post_leg:
  "saga_in P (post_leg m amount) (\<lambda>_ d. answered d (leg_request m amount))"
  unfolding post_leg_def
proof (rule saga_in_bindE)
  show "saga_in P (on_ledger (PostTransfer (leg_request m amount))) (\<lambda>_ d. answered d (leg_request m amount))"
    using saga_okD [OF saga_on_ledger [OF refines_PostTransfer]] PostTransfer_answered
    by (fastforce simp: saga_in_def on_ledger_def split: prod.splits)
qed (simp add: saga_in_def ret_def)

lemma saga_recordLegSuccess:
  assumes "legMovement s l = Inr m"
  shows "saga_in (\<lambda>d. claimed x s d \<and> answered d (leg_request m (ts_Amount s)))
     (on_ledger (recordLegSuccess x l)) (\<lambda>_ _. True)"
proof (cases "l = 3")
  case True
  then have "leg_request m (ts_Amount s) = leg3_request s" using assms by (auto simp: legMovement_def leg3_request_def)
  then show ?thesis using True moves_settled
    by (auto simp: saga_in_def on_ledger_def split: prod.splits) (metis snd_conv)
qed (intro saga_ok_in saga_on_ledger refines_recordLegSuccess)

text \<open>A leg is recorded as posted only where its key is bound to its request.\<close>

lemma saga_leg_written:
  assumes m: "legMovement s l = Inr m" and inv: "commit_invariant P" and P: "\<And>d. P d \<Longrightarrow> claimed x s d"
  shows "saga_in P
    (bindE (attempt (bindE (consumeInjectedLegFault x l) (\<lambda>fault.
        if fault then throw ErrSimulatedTransientFault else post_leg m (ts_Amount s)))) (\<lambda>posted. case posted of
       Inl postErr \<Rightarrow> handleLegFailure x l s postErr b
     | Inr _ \<Rightarrow> on_ledger (recordLegSuccess x l))) (\<lambda>_ _. True)"
    (is "saga_in P (bindE ?post ?next) _")
proof (rule saga_in_bindE)
  have "saga_in P ?post (\<lambda>r d. \<forall>u. r = Inr u \<longrightarrow> answered d (leg_request m (ts_Amount s)))"
    by (intro saga_in_attempt saga_in_bindE [OF saga_ok_in])
       (auto simp: consumeInjectedLegFault_def intro!: preserve_intros saga_post_leg saga_in_throw)
  moreover have "saga_in P ?post (\<lambda>_. P)"
    unfolding saga_small_defs by (intro saga_keeps inv preserve_intros)
  ultimately show "saga_in P ?post (\<lambda>r d. (\<forall>u. r = Inr u \<longrightarrow> answered d (leg_request m (ts_Amount s))) \<and> P d)"
    by (rule saga_in_conj)
  show "saga_in (\<lambda>d. (\<forall>u. posted = Inr u \<longrightarrow> answered d (leg_request m (ts_Amount s))) \<and> P d)
      (?next posted) (\<lambda>_ _. True)" for posted
    by (cases posted) (auto intro: saga_ok_in saga_handleLegFailure saga_in_mono [OF saga_recordLegSuccess [OF m]] P)
qed

lemma saga_in_found:
  "saga_in (\<lambda>_. True) m Q \<Longrightarrow> (\<And>s. saga_in (P s) (f s) Q) \<Longrightarrow>
     saga_in (\<lambda>d. \<forall>s. found = Some s \<longrightarrow> P s d) (case found of None \<Rightarrow> m | Some s \<Rightarrow> f s) Q"
  by (cases found) simp_all

lemma saga_attempt_claimed:
  fixes s :: TransferState and x :: string
  defines "P \<equiv> \<lambda>d. claimed x s d \<and> ts_Status s \<in> {''pending'', ''retrying''}"
  shows "saga_in P
    (bindE (if l = 2 \<and> b then consumeForwardCrashSimulation x else ret False) (\<lambda>crash.
       if crash then advance_now x (ts_Status s) (ts_Reason s)
       else (case legMovement s l of Inl e \<Rightarrow> throw e
         | Inr m \<Rightarrow> bindE (attempt (bindE (consumeInjectedLegFault x l) (\<lambda>fault.
             if fault then throw ErrSimulatedTransientFault else post_leg m (ts_Amount s)))) (\<lambda>posted.
             case posted of
               Inl postErr \<Rightarrow> handleLegFailure x l s postErr b
             | Inr _ \<Rightarrow> on_ledger (recordLegSuccess x l))))) (\<lambda>_ _. True)"
proof (rule saga_in_bindE)
  have inv: "commit_invariant P" unfolding P_def by unfold_locales (blast intro: claims.step)
  show "saga_in P (if l = 2 \<and> b then consumeForwardCrashSimulation x else ret False) (\<lambda>_. P)"
    by (intro saga_keeps inv preserve_intros)
  have written: "legMovement s l = Inr m \<Longrightarrow> saga_in P (bindE (attempt (bindE (consumeInjectedLegFault x l) (\<lambda>fault.
      if fault then throw ErrSimulatedTransientFault else post_leg m (ts_Amount s)))) (\<lambda>posted. case posted of
        Inl postErr \<Rightarrow> handleLegFailure x l s postErr b
      | Inr _ \<Rightarrow> on_ledger (recordLegSuccess x l))) (\<lambda>_ _. True)" for m
    by (rule saga_leg_written [OF _ inv]) (simp_all add: P_def)
  have kept: "saga_in P (advance_now x (ts_Status s) (ts_Reason s)) (\<lambda>_ _. True)"
  proof (cases "ts_Status s \<in> {''pending'', ''retrying''}")
    case True
    then show ?thesis by (intro saga_ok_in saga_advance) (auto simp: outcome_ok_def)
  qed (simp add: saga_in_def P_def)
  show "saga_in P (if crash then advance_now x (ts_Status s) (ts_Reason s)
       else (case legMovement s l of Inl e \<Rightarrow> throw e
         | Inr m \<Rightarrow> bindE (attempt (bindE (consumeInjectedLegFault x l) (\<lambda>fault.
             if fault then throw ErrSimulatedTransientFault else post_leg m (ts_Amount s)))) (\<lambda>posted.
             case posted of
               Inl postErr \<Rightarrow> handleLegFailure x l s postErr b
             | Inr _ \<Rightarrow> on_ledger (recordLegSuccess x l)))) (\<lambda>_ _. True)" for crash
    by (cases crash; cases "legMovement s l") (simp_all only: if_True if_False sum.case kept saga_in_throw written)
qed

lemma saga_attemptLeg [preserve_intros]: "saga_ok (attemptLeg x l b)"
  unfolding attemptLeg_def
  by (rule saga_in_ok [where Q = "\<lambda>_ _. True"], rule saga_in_bindE [OF saga_claim], rule saga_in_found, simp add: saga_in_def ret_def,
      rule saga_attempt_claimed)

lemma saga_attemptForwardLegsFrom [preserve_intros]: "saga_ok (attemptForwardLegsFrom x l)"
  unfolding attemptForwardLegsFrom_def by (intro preserve_intros)

lemma saga_run_task [preserve_intros]: "saga_ok (run_task t)"
  by (cases t) (auto intro!: preserve_intros)

lemma saga_wake [preserve_intros]: "saga_ok (wake n)"
  unfolding saga_ok_def
proof (intro allI impI)
  fix c :: coordinator assume "well_behaved (co_world c)"
  then show "moves (co_world c) (co_world (snd (wake n c)))"
    using saga_okD [OF saga_run_task, of "c\<lparr>co_spawned := take n (co_spawned c) @ drop (Suc n) (co_spawned c)\<rparr>"]
    by (simp add: wake_def)
qed

lemma saga_attemptDueLegs [preserve_intros]: "saga_ok (attemptDueLegs x)"
  unfolding attemptDueLegs_def by (intro preserve_intros)

lemma saga_attempt_all [preserve_intros]: "saga_ok (attempt_all xs)"
  by (induction xs) (auto intro!: preserve_intros)

lemma saga_processDueTransfers [preserve_intros]: "saga_ok (processDueTransfers n)"
  unfolding processDueTransfers_def by (intro preserve_intros)

end
