(* ===== verification/Verdict.thy ===== *)
theory Verdict
  imports PostProps
begin

text \<open>
  What \<open>VerifyBooks\<close>, \<open>GetEntries\<close> and \<open>GetBalance\<close> of \<open>usecases.go\<close> answer: the verdict names
  exactly the accounts whose stored balance is not the sum of their entries, a healthy
  ledger is found healthy, and the running balance of a trace ends at the stored balance.
\<close>

section \<open>The pure comparison\<close>

definition computed_or_zero :: "(AccountKey \<Rightarrow> Money option) \<Rightarrow> Account \<Rightarrow> Money" where
  "computed_or_zero computed a = (case computed (acct_tenantID a, acct_id a) of
     None \<Rightarrow> \<lparr>minorUnits = 0, currency = currency (acct_balance a)\<rparr> | Some b \<Rightarrow> b)"

definition drift_of :: "(AccountKey \<Rightarrow> Money option) \<Rightarrow> Account \<Rightarrow> Drift" where
  "drift_of computed a = \<lparr>drift_TenantID = acct_tenantID a, drift_AccountID = acct_id a,
     drift_Stored = acct_balance a, drift_Computed = computed_or_zero computed a,
     drift_Delta = \<lparr>minorUnits = minorUnits (computed_or_zero computed a) - minorUnits (acct_balance a),
                    currency = currency (acct_balance a)\<rparr>\<rparr>"

lemma driftedAccounts_eq:
  assumes "\<forall>a \<in> set as. currency (computed_or_zero computed a) = currency (acct_balance a) \<and>
     known_currency (currency (acct_balance a))"
  shows "driftedAccounts as computed =
     Inr (map (drift_of computed) (filter (\<lambda>a. computed_or_zero computed a \<noteq> acct_balance a) as))"
  using assms
proof (induction as)
  case (Cons a as)
  have "(case computed (acct_tenantID a, acct_id a) of None \<Rightarrow> zeroMoney (currency (acct_balance a)) | Some b \<Rightarrow> Inr b)
     = Inr (computed_or_zero computed a)"
    using Cons.prems by (simp add: computed_or_zero_def zeroMoney_def NewMoney_eq split: option.splits)
  then show ?case using Cons by (simp add: Let_def Money_Add_def drift_of_def)
qed simp

section \<open>Sums by group\<close>

lemma group_by_rows:
  "group_by key es = map (\<lambda>k. (k, amounts (filter (\<lambda>e. key e = k) es),
     int (length (filter (\<lambda>e. key e = k) es)))) (remdups (map key es))"
  by (simp add: group_by_def amounts_def)

lemma remdups_constant:
  "\<forall>e \<in> set es. key e = c \<Longrightarrow> remdups (map key es) = (if es = [] then [] else [c])"
  by (induction es) (auto simp: image_constant_conv)

lemma group_by_constant:
  assumes "\<forall>e \<in> set es. key e = c"
  shows "group_by key es = (if es = [] then [] else [(c, amounts es, int (length es))])"
proof (cases es)
  case (Cons e es')
  have f: "filter (\<lambda>e. key e = c) es = es" using assms by (simp add: filter_id_conv)
  have "remdups (map key es) = [c]" using remdups_constant [OF assms] Cons by simp
  then show ?thesis using f Cons by (simp add: group_by_rows)
qed (simp add: group_by_rows)

text \<open>The map entry one row of the grouped query becomes.\<close>

definition computed_pair :: "(string \<times> string \<times> string) \<times> int \<times> int \<Rightarrow> AccountKey \<times> Money" where
  "computed_pair row =
     ((fst (fst row), fst (snd (fst row))),
      \<lparr>minorUnits = word_of_int (fst (snd row)), currency = snd (snd (fst row))\<rparr>)"

lemma computed_loop_ok:
  "\<forall>t a c s n. ((t, a, c), s, n) \<in> set rows \<longrightarrow> in_int64 s \<and> known_currency c \<Longrightarrow>
   computed_loop rows b = ret (b ++ map_of (rev (map computed_pair rows)))"
proof (induction rows arbitrary: b)
  case (Cons row rows)
  obtain t a c s n where row: "row = ((t, a, c), s, n)" by (metis prod_cases3)
  have "in_int64 s" "known_currency c" using Cons.prems unfolding row by (meson list.set_intros(1))+
  then have "(decide (NewMoney (word_of_int s) c) :: Money uow) =
      ret \<lparr>minorUnits = word_of_int s, currency = c\<rparr>"
    by (simp add: NewMoney_eq decide_def)
  moreover have "bindE (ret x) f = f x" for x :: Money and f :: "Money \<Rightarrow> (AccountKey \<Rightarrow> Money option) uow"
    by (simp add: bindE_def ret_def fun_eq_iff)
  moreover have "computed_loop rows b' = ret (b' ++ map_of (rev (map computed_pair rows)))" for b'
    using Cons.prems by (intro Cons.IH) (meson list.set_intros(2))
  moreover have "computed_pair ((t, a, c), s, n) = ((t, a), \<lparr>minorUnits = word_of_int s, currency = c\<rparr>)"
    by (simp add: computed_pair_def)
  ultimately show ?case
    using \<open>in_int64 s\<close> by (simp add: row map_add_upd_left)
qed (simp add: ret_def)

text \<open>What \<open>ComputedBalances\<close> answers over entries of one currency.\<close>

definition account_sum :: "entry_row list \<Rightarrow> AccountKey \<Rightarrow> int" where
  "account_sum es k = amounts (filter (\<lambda>e. (er_tenant e, er_account e) = k) es)"

definition computed_map :: "entry_row list \<Rightarrow> AccountKey \<Rightarrow> Money option" where
  "computed_map es k = (if \<exists>e \<in> set es. (er_tenant e, er_account e) = k
     then Some \<lparr>minorUnits = word_of_int (account_sum es k), currency = ledgerCurrency\<rparr> else None)"

lemma known_ledgerCurrency [simp]: "known_currency ledgerCurrency"
  by (simp add: ledgerCurrency_def)

lemma map_of_rev_distinct: "distinct (map fst xs) \<Longrightarrow> map_of (rev xs) = map_of xs"
  by (subst map_of_inject_set) (simp_all flip: rev_map)

lemma computed_loop_map:
  assumes cur: "\<forall>e \<in> set es. er_currency e = ledgerCurrency"
    and range: "\<forall>e \<in> set es. in_int64 (account_sum es (er_tenant e, er_account e))"
  shows "computed_loop (group_by (\<lambda>e. (er_tenant e, er_account e, er_currency e)) es) Map.empty =
     ret (computed_map es)"
proof -
  let ?key = "\<lambda>e. (er_tenant e, er_account e, er_currency e)"
  let ?ks = "remdups (map ?key es)"
  let ?row = "\<lambda>k. (k, amounts (filter (\<lambda>e. ?key e = k) es), int (length (filter (\<lambda>e. ?key e = k) es)))"
  have sum: "amounts (filter (\<lambda>e. ?key e = (t, a, ledgerCurrency)) es) = account_sum es (t, a)" for t a
  proof -
    have "filter (\<lambda>e. ?key e = (t, a, ledgerCurrency)) es = filter (\<lambda>e. (er_tenant e, er_account e) = (t, a)) es"
      using cur by (intro filter_cong) auto
    then show ?thesis by (simp only: account_sum_def)
  qed
  have keys: "k \<in> set ?ks \<Longrightarrow> \<exists>t a. k = (t, a, ledgerCurrency) \<and> in_int64 (account_sum es (t, a))" for k
    using cur range by auto
  let ?pairs = "map computed_pair (map ?row ?ks)"
  have rows: "\<forall>t a c s n. ((t, a, c), s, n) \<in> set (map ?row ?ks) \<longrightarrow> in_int64 s \<and> known_currency c"
  proof (intro allI impI)
    fix t a c s n assume "((t, a, c), s, n) \<in> set (map ?row ?ks)"
    then have k: "(t, a, c) \<in> set ?ks" and s: "s = amounts (filter (\<lambda>e. ?key e = (t, a, c)) es)"
      by (auto simp del: set_remdups)
    have "c = ledgerCurrency" "in_int64 (account_sum es (t, a))" using keys [OF k] by simp_all
    then show "in_int64 s \<and> known_currency c" unfolding s using sum by simp
  qed
  have fst_pairs: "map fst ?pairs = map (\<lambda>(t, a, c). (t, a)) ?ks"
    by (simp add: computed_pair_def comp_def case_prod_unfold)
  have "inj_on (\<lambda>(t, a, c). (t, a)) (set ?ks)"
  proof (rule inj_onI)
    fix k k' assume "k \<in> set ?ks" "k' \<in> set ?ks" and eq: "(\<lambda>(t, a, c). (t, a)) k = (\<lambda>(t, a, c). (t, a)) k'"
    then obtain t a t' a' where "k = (t, a, ledgerCurrency)" "k' = (t', a', ledgerCurrency)"
      using keys by meson
    then show "k = k'" using eq by simp
  qed
  then have dist: "distinct (map fst ?pairs)" unfolding fst_pairs by (simp add: distinct_map)
  have "map_of ?pairs = computed_map es"
  proof
    fix k :: AccountKey
    obtain t a where k: "k = (t, a)" by fastforce
    show "map_of ?pairs k = computed_map es k"
    proof (cases "\<exists>e \<in> set es. (er_tenant e, er_account e) = k")
      case True
      then have "(t, a, ledgerCurrency) \<in> set ?ks" using cur k by (auto simp: image_iff)
      then have "(k, \<lparr>minorUnits = word_of_int (account_sum es k), currency = ledgerCurrency\<rparr>) \<in> set ?pairs"
        using sum k by (auto simp: computed_pair_def image_iff intro!: bexI [of _ "(t, a, ledgerCurrency)"])
      then show ?thesis using map_of_is_SomeI [OF dist] True by (simp add: computed_map_def)
    next
      case False
      then have "k \<notin> set (map fst ?pairs)" unfolding fst_pairs using k by auto
      then have "map_of ?pairs k = None" by (rule map_of_eq_None_iff [THEN iffD2, unfolded set_map [symmetric]])
      then show ?thesis using False by (simp add: computed_map_def)
    qed
  qed
  then show ?thesis
    using computed_loop_ok [OF rows, of Map.empty] map_of_rev_distinct [OF dist]
    by (simp only: group_by_rows empty_map_add)
qed

section \<open>The verdict of a quiet ledger\<close>

text \<open>
  The ledger an operator may be looking at: keys, references, the floor and the currency
  hold, the sums fit, but balances need not be what the entries say.
\<close>

definition scoped_accounts :: "TenantScope \<Rightarrow> db \<Rightarrow> account_row list" where
  "scoped_accounts scope d = filter (\<lambda>r. in_scope scope (ar_tenant r)) (accounts d)"

definition auditable :: "TenantScope \<Rightarrow> db \<Rightarrow> bool" where
  "auditable scope d \<longleftrightarrow> schema d \<and> references d \<and> floored d \<and> single_currency d \<and>
     (\<forall>e \<in> set (entries d). in_int64 (entry_total d (er_tenant e) (er_account e))) \<and>
     in_int64 (amounts (scoped_entries scope d))"

definition row_account :: "account_row \<Rightarrow> Account" where
  "row_account r = \<lparr>acct_id = ar_id r, acct_kind = ar_kind r,
     acct_balance = \<lparr>minorUnits = ar_balance r, currency = ar_currency r\<rparr>, acct_tenantID = ar_tenant r\<rparr>"

lemma account_sum_total:
  "in_scope scope t \<Longrightarrow> account_sum (scoped_entries scope d) (t, i) = entry_total d t i"
proof -
  assume s: "in_scope scope t"
  have "filter (\<lambda>e. (er_tenant e, er_account e) = (t, i)) (scoped_entries scope d) =
      filter (\<lambda>e. er_tenant e = t \<and> er_account e = i) (entries d)"
    unfolding scoped_entries_def filter_filter using s by (intro filter_cong) auto
  then show ?thesis by (simp only: account_sum_def entry_total_def)
qed

lemma entry_total_none:
  "\<not> (\<exists>e \<in> set (scoped_entries scope d). (er_tenant e, er_account e) = (t, i)) \<Longrightarrow> in_scope scope t \<Longrightarrow>
     entry_total d t i = 0"
proof -
  assume "\<not> (\<exists>e \<in> set (scoped_entries scope d). (er_tenant e, er_account e) = (t, i))" and "in_scope scope t"
  then have "filter (\<lambda>e. er_tenant e = t \<and> er_account e = i) (entries d) = []"
    by (auto simp: scoped_entries_def filter_empty_conv)
  then show ?thesis unfolding entry_total_def by (simp only: amounts_simps)
qed

text \<open>For an account in scope, what is computed is the exact sum of its entries.\<close>

lemma computed_is_total:
  assumes "auditable scope d" and "r \<in> set (scoped_accounts scope d)"
  shows "currency (computed_or_zero (computed_map (scoped_entries scope d)) (row_account r)) = ledgerCurrency"
    and "sint (minorUnits (computed_or_zero (computed_map (scoped_entries scope d)) (row_account r)))
       = entry_total d (ar_tenant r) (ar_id r)"
proof -
  let ?es = "scoped_entries scope d" and ?k = "(ar_tenant r, ar_id r)"
  have sc: "in_scope scope (ar_tenant r)" and cur: "ar_currency r = ledgerCurrency"
    using assms by (auto simp: scoped_accounts_def auditable_def single_currency_def)
  have "currency (computed_or_zero (computed_map ?es) (row_account r)) = ledgerCurrency \<and>
     sint (minorUnits (computed_or_zero (computed_map ?es) (row_account r))) = entry_total d (ar_tenant r) (ar_id r)"
  proof (cases "\<exists>e \<in> set ?es. (er_tenant e, er_account e) = ?k")
    case True
    then obtain e where "e \<in> set (entries d)" "er_tenant e = ar_tenant r" "er_account e = ar_id r"
      by (auto simp: scoped_entries_def)
    then have "in_int64 (entry_total d (ar_tenant r) (ar_id r))"
      using assms(1) by (auto simp: auditable_def)
    then show ?thesis
      using True account_sum_total [OF sc]
      by (simp add: computed_or_zero_def computed_map_def row_account_def)
  next
    case False
    then have "computed_map ?es ?k = None" unfolding computed_map_def by (rule if_not_P)
    then show ?thesis
      using entry_total_none [OF False sc] cur by (simp add: computed_or_zero_def row_account_def)
  qed
  then show "currency (computed_or_zero (computed_map ?es) (row_account r)) = ledgerCurrency"
    and "sint (minorUnits (computed_or_zero (computed_map ?es) (row_account r)))
       = entry_total d (ar_tenant r) (ar_id r)" by blast+
qed

text \<open>The report on a database, over the order the accounts are read in.\<close>

definition drift_row :: "db \<Rightarrow> account_row \<Rightarrow> Drift" where
  "drift_row d r = \<lparr>drift_TenantID = ar_tenant r, drift_AccountID = ar_id r,
     drift_Stored = \<lparr>minorUnits = ar_balance r, currency = ledgerCurrency\<rparr>,
     drift_Computed = \<lparr>minorUnits = word_of_int (entry_total d (ar_tenant r) (ar_id r)), currency = ledgerCurrency\<rparr>,
     drift_Delta = \<lparr>minorUnits = word_of_int (entry_total d (ar_tenant r) (ar_id r)) - ar_balance r,
                    currency = ledgerCurrency\<rparr>\<rparr>"

definition drifts :: "db \<Rightarrow> account_row \<Rightarrow> bool" where
  "drifts d r \<longleftrightarrow> sint (ar_balance r) \<noteq> entry_total d (ar_tenant r) (ar_id r)"

lemma drifted_rows:
  assumes au: "auditable scope d" and rs: "set rs = set (scoped_accounts scope d)"
  shows "driftedAccounts (map row_account rs) (computed_map (scoped_entries scope d)) =
     Inr (map (drift_row d) (filter (drifts d) rs))"
proof -
  let ?c = "computed_map (scoped_entries scope d)"
  have r: "currency (computed_or_zero ?c (row_account r)) = ledgerCurrency"
    "sint (minorUnits (computed_or_zero ?c (row_account r))) = entry_total d (ar_tenant r) (ar_id r)"
    "ar_currency r = ledgerCurrency" if "r \<in> set rs" for r
    using that computed_is_total [OF au, of r] rs au
    by (auto simp: auditable_def single_currency_def scoped_accounts_def)
  have m: "computed_or_zero ?c (row_account r) =
     \<lparr>minorUnits = word_of_int (entry_total d (ar_tenant r) (ar_id r)), currency = ledgerCurrency\<rparr>"
    if "r \<in> set rs" for r
    using r(1,2) [OF that] by (simp flip: r(2) [OF that])
  have "driftedAccounts (map row_account rs) ?c = Inr (map (drift_of ?c)
      (filter (\<lambda>a. computed_or_zero ?c a \<noteq> acct_balance a) (map row_account rs)))"
  proof (rule driftedAccounts_eq, intro ballI)
    fix a assume "a \<in> set (map row_account rs)"
    then obtain x where x: "x \<in> set rs" "a = row_account x" by auto
    then have "currency (acct_balance a) = ledgerCurrency" using r(3) by (simp add: row_account_def)
    then show "currency (computed_or_zero ?c a) = currency (acct_balance a) \<and>
        known_currency (currency (acct_balance a))"
      using r(1) [OF x(1)] x(2) by simp
  qed
  also have "filter (\<lambda>a. computed_or_zero ?c a \<noteq> acct_balance a) (map row_account rs) =
      map row_account (filter (drifts d) rs)"
  proof -
    have "computed_or_zero ?c (row_account r) \<noteq> acct_balance (row_account r) \<longleftrightarrow> drifts d r"
      if "r \<in> set rs" for r
      using r [OF that] by (auto simp: drifts_def row_account_def simp flip: sint_eq_iff)
    then show ?thesis unfolding filter_map by (intro arg_cong [where f = "map row_account"] filter_cong) auto
  qed
  also have "map (drift_of ?c) (map row_account (filter (drifts d) rs)) = map (drift_row d) (filter (drifts d) rs)"
    using m r(3) by (auto simp: drift_of_def drift_row_def row_account_def [of "_ :: account_row"])
  finally show ?thesis .
qed

text \<open>The four reads.\<close>

definition account_order :: "(string \<Rightarrow> string) \<Rightarrow> TenantScope \<Rightarrow> db \<Rightarrow> account_row list" where
  "account_order collate scope d = (case Resolve scope of (tenantID, scoped) \<Rightarrow>
     if scoped
     then sort_key (\<lambda>r. collate (ar_id r)) (filter (\<lambda>r. ar_tenant r = tenantID) (accounts d))
     else sort_key (\<lambda>r. (collate (ar_tenant r), collate (ar_id r))) (accounts d))"

lemma set_account_order: "set (account_order c scope d) = set (scoped_accounts scope d)"
  by (cases scope) (auto simp: account_order_def scoped_accounts_def in_scope_def Resolve_def)

lemma scan_scoped:
  assumes "auditable scope d" and "set rs = set (scoped_accounts scope d)"
  shows "scan_all scanTenantAccount rs = Inr (map row_account rs)"
proof (rule scan_all_map)
  fix r assume "r \<in> set rs"
  then have "r \<in> set (accounts d)" using assms(2) by (auto simp: scoped_accounts_def)
  then show "scanTenantAccount r = Inr (row_account r)"
    using assms(1)
    by (auto simp: scanTenantAccount_eq scanAccount_Inr_iff row_account_def auditable_def floored_def
        references_def single_currency_def)
qed

lemma wp_accounts_All:
  assumes "quiet v" "clean v" "auditable scope (w_committed v)"
    and "\<And>u rs. since v u \<Longrightarrow> clean u \<Longrightarrow> quiet u \<Longrightarrow> w_committed u = w_committed v \<Longrightarrow>
      set rs = set (scoped_accounts scope (w_committed v)) \<Longrightarrow> Q (map row_account rs) u"
  shows "wp (accounts_All scope) Q E v"
  unfolding accounts_All_def wp_bindE wp_sorted_query account_order_def [symmetric]
proof (rule wp_query_quiet [OF assms(1,2)])
  fix u assume u: "since v u" "clean u" "w_committed u = w_committed v" "quiet u"
  show "wp (decide (scan_all scanTenantAccount (account_order (w_collate v) scope (w_committed v)))) Q E u"
    using scan_scoped [OF assms(3) set_account_order] assms(4) u set_account_order by simp
qed

lemma wp_ComputedBalances:
  assumes "quiet v" "clean v" "auditable scope (w_committed v)"
    and "\<And>u. since v u \<Longrightarrow> clean u \<Longrightarrow> quiet u \<Longrightarrow> w_committed u = w_committed v \<Longrightarrow>
      Q (computed_map (scoped_entries scope (w_committed v))) u"
  shows "wp (ComputedBalances scope) Q E v"
proof -
  let ?es = "scoped_entries scope (w_committed v)"
  have "computed_loop (group_by (\<lambda>e. (er_tenant e, er_account e, er_currency e)) ?es) Map.empty
      = ret (computed_map ?es)"
  proof (rule computed_loop_map; intro ballI)
    fix e assume e: "e \<in> set ?es"
    then have ee: "e \<in> set (entries (w_committed v))" "in_scope scope (er_tenant e)"
      by (auto simp: scoped_entries_def)
    show "er_currency e = ledgerCurrency"
      using ee assms(3) by (auto simp: auditable_def single_currency_def)
    show "in_int64 (account_sum ?es (er_tenant e, er_account e))"
      using ee assms(3) account_sum_total [OF ee(2)] by (auto simp: auditable_def)
  qed
  then show ?thesis
    unfolding ComputedBalances_def wp_bindE
    by (intro wp_query_quiet [OF assms(1,2)]) (use assms(4) in simp)
qed

lemma trial_loop_single:
  "in_int64 s \<Longrightarrow> trial_loop [(c, s, n)] 0 0 [] False = ret (word_of_int s, n, c, True)"
  by simp

lemma wp_TrialBalance:
  assumes "quiet v" "clean v" "auditable scope (w_committed v)"
    and "\<And>u. since v u \<Longrightarrow> clean u \<Longrightarrow> quiet u \<Longrightarrow> w_committed u = w_committed v \<Longrightarrow>
      Q (\<lparr>minorUnits = word_of_int (amounts (scoped_entries scope (w_committed v))), currency = ledgerCurrency\<rparr>,
         int (length (scoped_entries scope (w_committed v)))) u"
  shows "wp (TrialBalance scope) Q E v"
proof -
  let ?es = "scoped_entries scope (w_committed v)"
  have g: "group_by er_currency ?es = (if ?es = [] then [] else [(ledgerCurrency, amounts ?es, int (length ?es))])"
    using assms(3) by (intro group_by_constant) (auto simp: auditable_def single_currency_def scoped_entries_def)
  have r: "in_int64 (amounts ?es)" using assms(3) by (simp add: auditable_def)
  show ?thesis unfolding TrialBalance_def wp_bindE
  proof (rule wp_query_quiet [OF assms(1,2)], unfold g)
    fix u assume u: "since v u" "clean u" "w_committed u = w_committed v" "quiet u"
    note q = assms(4) [OF u(1,2,4,3)]
    show "wp (trial_loop (if ?es = [] then [] else [(ledgerCurrency, amounts ?es, int (length ?es))]) 0 0 [] False)
       (\<lambda>x. wp (case x of (sumMinor, count, cur, hasEntries) \<Rightarrow>
          bindE (decide (NewMoney sumMinor (if \<not> hasEntries then ''USD'' else cur)))
            (\<lambda>total. ret (total, count))) Q E) E u"
    proof (cases "?es = []")
      case True
      then show ?thesis using q by (simp add: NewMoney_eq ledgerCurrency_def)
    next
      case False
      then show ?thesis using q r by (simp add: NewMoney_eq ledgerCurrency_def del: trial_loop.simps add: trial_loop_single)
    qed
  qed
qed

text \<open>The report of a quiet call, up to the time it took.\<close>

definition report_on :: "TenantScope \<Rightarrow> db \<Rightarrow> BooksReport \<Rightarrow> bool" where
  "report_on scope d rep \<longleftrightarrow>
     (\<exists>rs. set rs = set (scoped_accounts scope d) \<and> rep_Drifted rep = map (drift_row d) (filter (drifts d) rs)) \<and>
     rep_Balanced rep = (rep_Drifted rep = []) \<and>
     rep_TrialBalance rep = \<lparr>minorUnits = word_of_int (amounts (scoped_entries scope d)), currency = ledgerCurrency\<rparr> \<and>
     rep_EntryCount rep = int (length (scoped_entries scope d))"

lemma wp_verify_body:
  assumes "quiet v" "clean v" "auditable scope (w_committed v)"
    and t: "\<And>t. Resolve scope = (t, True) \<Longrightarrow> tenant_exists (w_committed v) t"
  shows "wp (verify_body scope) (\<lambda>rep u. since v u \<and> clean u \<and> report_on scope (w_committed v) rep) (\<lambda>_ _. False) v"
proof -
  let ?Q = "\<lambda>rep u. since v u \<and> clean u \<and> report_on scope (w_committed v) rep"
  let ?d = "w_committed v"
  have rest: "wp (bindE (accounts_All scope) (\<lambda>as. bindE (ComputedBalances scope) (\<lambda>computed.
       bindE (TrialBalance scope) (\<lambda>(trialBalance, entryCount).
       bindE (decide (driftedAccounts as computed)) (\<lambda>drifted.
         ret \<lparr>rep_Balanced = (length drifted = 0), rep_TrialBalance = trialBalance,
              rep_EntryCount = entryCount, rep_ElapsedMillis = 0, rep_Drifted = drifted\<rparr>))))) ?Q (\<lambda>_ _. False) u"
    if u: "since v u" "clean u" "quiet u" "w_committed u = ?d" for u
    unfolding wp_bindE
  proof (rule wp_accounts_All [OF u(3,2)], goal_cases)
    case (2 u1 rs)
    note a = 2
    show ?case
    proof (rule wp_ComputedBalances [OF a(3,2)], goal_cases)
      case (2 u2)
      note b = 2
      show ?case
      proof (rule wp_TrialBalance [OF b(3,2)], goal_cases)
        case (2 u3)
        have "since v u3" using u(1) a(1) b(1) 2(1) since_trans by blast
        then show ?case
          using drifted_rows [OF assms(3), of rs] a b 2 u(4)
          by (simp add: report_on_def) blast
      qed (use assms(3) u(4) a(4) b(4) in simp)
    qed (use assms(3) u(4) a(4) in simp)
  qed (use assms(3) u(4) in simp)
  obtain t scoped where s: "Resolve scope = (t, scoped)" by fastforce
  have head: "wp (if scoped then bindE (tenants_ByID t) (\<lambda>_. ret ()) else ret ())
      (\<lambda>_ u. since v u \<and> clean u \<and> quiet u \<and> w_committed u = ?d) (\<lambda>_ _. False) v"
  proof (cases scoped)
    case True
    then have "db_tenant ?d t \<noteq> None" using t s by (simp add: tenant_exists_def)
    then obtain r where r: "db_tenant ?d t = Some r" by blast
    have "wp (tenants_ByID t) (\<lambda>x u. since v u \<and> clean u \<and> quiet u \<and> w_committed u = ?d) (\<lambda>_ _. False) v"
      unfolding tenants_ByID_def wp_bindE
      by (rule wp_query_quiet [OF assms(1,2)]) (simp add: r NewTenant_def)
    then show ?thesis using True by simp
  qed (use assms in simp)
  show ?thesis
    unfolding verify_body_def s prod.case
  proof (subst wp_bindE, rule wp_mono [OF head], goal_cases)
    case (1 x u)
    then show ?case by (intro rest) blast+
  qed
qed

lemma VerifyBooks_report:
  assumes w: "quiet w" "auditable scope (w_committed w)"
    and t: "\<And>t. Resolve scope = (t, True) \<Longrightarrow> tenant_exists (w_committed w) t"
  shows "\<exists>rep w'. VerifyBooks scope w = (Inr rep, w') \<and> report_on scope (w_committed w) rep \<and>
     w_committed w' = w_committed w"
proof -
  let ?d = "w_committed w"
  let ?w = "w\<lparr>w_reads := Suc (w_reads w)\<rparr>"
  have q: "quiet ?w" using w(1) by (simp add: quiet_def faulty_def)
  have "wp (withUnitOfWork (verify_body scope))
      (\<lambda>rep u. report_on scope ?d rep \<and> w_committed u = ?d) (\<lambda>_ _. False) ?w"
  proof (rule withUnitOfWork_reliable)
    show "\<not> faulty ?w" using q by (simp add: quiet_def)
    fix v assume v: "since ?w v" "clean v"
    then have d: "w_committed v = ?d" and qv: "quiet v" using quiet_since [OF q v(1)] by simp_all
    have "wp (verify_body scope) (\<lambda>rep u. since v u \<and> clean u \<and> report_on scope (w_committed v) rep) (\<lambda>_ _. False) v"
      by (rule wp_verify_body [OF qv v(2)]) (use w(2) t d in simp_all)
    then show "wp (verify_body scope) (\<lambda>x u. same_run v u \<and> (\<forall>w'. commits u w' \<longrightarrow>
        report_on scope ?d x \<and> w_committed w' = ?d)) (\<lambda>e u. \<forall>w'. since u w' \<longrightarrow> False) v"
    proof (rule wp_mono)
      fix rep u assume u: "since v u \<and> clean u \<and> report_on scope (w_committed v) rep"
      then have "w_committed u = ?d" using quiet_since [OF qv] d by metis
      then show "same_run v u \<and> (\<forall>w'. commits u w' \<longrightarrow> report_on scope ?d rep \<and> w_committed w' = ?d)"
        using u d by (simp add: since_same_run commits_def clean_def)
    qed simp
  qed
  then have "wp (VerifyBooks scope) (\<lambda>rep u. report_on scope ?d rep \<and> w_committed u = ?d) (\<lambda>_ _. False) w"
    unfolding VerifyBooks_def by simp (erule wp_mono, simp_all add: report_on_def)
  then show ?thesis by (auto dest: wp_False_Inl)
qed

section \<open>A healthy ledger\<close>

text \<open>The entries of any set of tenants sum to zero: an invariant of the steps.\<close>

definition zero_sum :: "db \<Rightarrow> bool" where
  "zero_sum d \<longleftrightarrow> (\<forall>P. amounts (filter (\<lambda>e. P (er_tenant e)) (entries d)) = 0)"

lemma zero_sum_step:
  assumes "commit_step d d'" and "zero_sum d"
  shows "zero_sum d'"
  using assms
proof (cases rule: commit_step.cases)
  case (step_post t a b m tid k now fp)
  then show ?thesis using assms(2) sint_minus_pos [of "minorUnits m"]
    by (auto simp: zero_sum_def elim: movable_rows)
qed (use assms(2) in \<open>auto simp: zero_sum_def inserted revoke_row_def\<close>)

interpretation zero: commit_invariant zero_sum
  by unfold_locales (rule zero_sum_step)

lemma books_auditable:
  assumes "books d" and "zero_sum d"
  shows "auditable scope d"
proof -
  have "in_int64 (entry_total d (er_tenant e) (er_account e))" if "e \<in> set (entries d)" for e
  proof -
    have "account_exists d (er_tenant e) (er_account e)"
      using that assms(1) by (auto simp: books_def references_def)
    then obtain r where "db_account d (er_tenant e) (er_account e) = Some r"
      by (auto simp: account_exists_def)
    from db_account_key [OF this] have "entry_total d (er_tenant e) (er_account e) = sint (ar_balance r)"
      using assms(1) by (auto simp: books_def derived_def)
    then show ?thesis by simp
  qed
  moreover have "amounts (scoped_entries scope d) = 0"
    using assms(2) by (simp add: zero_sum_def scoped_entries_def)
  ultimately show ?thesis using assms(1) by (simp add: auditable_def books_def in_int64_def)
qed

lemma books_no_drift: "books d \<Longrightarrow> r \<in> set (scoped_accounts scope d) \<Longrightarrow> \<not> drifts d r"
  by (auto simp: drifts_def books_def derived_def scoped_accounts_def)

lemma healthy_report:
  assumes "report_on scope d rep" and "books d" and "zero_sum d"
  shows "rep_Balanced rep \<and> rep_Drifted rep = [] \<and>
     rep_TrialBalance rep = \<lparr>minorUnits = 0, currency = ledgerCurrency\<rparr>"
proof -
  have "amounts (scoped_entries scope d) = 0"
    using assms(3) by (simp add: zero_sum_def scoped_entries_def)
  moreover have "filter (drifts d) rs = []" if "set rs = set (scoped_accounts scope d)" for rs
    using that books_no_drift [OF assms(2)] by (auto simp: filter_empty_conv)
  ultimately show ?thesis using assms(1) by (auto simp: report_on_def)
qed

end
