(* ===== verification/Journal.thy ===== *)
theory Journal
  imports Verdict Settling
begin

text \<open>
  The shape of the journal, proved of the steps of the specification: a transaction is
  exactly one debit and one credit of the same positive amount, inside one tenant (I1, I8),
  under exactly one idempotency claim (I7); links are canonical pairs of which at most one
  is active (D16); a transfer is recorded once per tenant and key.
\<close>

section \<open>Double entry\<close>

definition entry_pair :: "db \<Rightarrow> transaction_row \<Rightarrow> bool" where
  "entry_pair d r \<longleftrightarrow> (\<exists>a b x c.
     filter (\<lambda>e. er_transaction e = tr_id r) (entries d) =
       [leg (tr_tenant r) (tr_id r) a b (- x) c (tr_recorded_at r) 0,
        leg (tr_tenant r) (tr_id r) b a x c (tr_recorded_at r) 1] \<and>
     0 < sint x)"

definition double_entry :: "db \<Rightarrow> bool" where
  "double_entry d \<longleftrightarrow> (\<forall>r \<in> set (transactions d). entry_pair d r)"

definition claimed_once :: "db \<Rightarrow> bool" where
  "claimed_once d \<longleftrightarrow> map kr_transaction (idempotency_keys d) = map tr_id (transactions d)"

definition journal :: "db \<Rightarrow> bool" where
  "journal d \<longleftrightarrow> schema d \<and> references d \<and> double_entry d \<and> claimed_once d"

lemma double_entry_step:
  assumes "commit_step d d'" and "schema d" and "references d" and "double_entry d"
  shows "double_entry d'"
  using assms(1)
proof (cases rule: commit_step.cases)
  case (step_post t a b m tid k now fp)
  have fresh: "filter (\<lambda>e. er_transaction e = tid) (entries d) = []"
    using step_post(3) assms(3) by (auto simp: filter_empty_conv references_def)
  have m: "0 < sint (minorUnits m)" using step_post(2) by (rule movable_rows)
  show ?thesis unfolding double_entry_def
  proof
    fix r assume r: "r \<in> set (transactions d')"
    show "entry_pair d' r"
    proof (cases "r \<in> set (transactions d)")
      case True
      then have "tr_id r \<noteq> tid" using step_post(3) by (auto simp: transaction_exists_def)
      then have "filter (\<lambda>e. er_transaction e = tr_id r) (entries d') =
          filter (\<lambda>e. er_transaction e = tr_id r) (entries d)"
        using step_post(1) by auto
      then show ?thesis using True assms(4) by (simp add: double_entry_def entry_pair_def)
    next
      case False
      then have "r = \<lparr>tr_tenant = t, tr_id = tid, tr_recorded_at = now\<rparr>"
        using r step_post(1) by auto
      then show ?thesis using fresh m step_post(1) by (auto simp: entry_pair_def)
    qed
  qed
qed (use assms(4) in \<open>auto simp: double_entry_def entry_pair_def inserted revoke_row_def\<close>)

lemma claimed_once_step: "commit_step d d' \<Longrightarrow> claimed_once d \<Longrightarrow> claimed_once d'"
  by (induction rule: commit_step.induct) (auto simp: claimed_once_def inserted revoke_row_def)

interpretation journal: commit_invariant journal
proof
  show "commit_step d d' \<Longrightarrow> journal d \<Longrightarrow> journal d'" for d d'
    unfolding journal_def
    by (blast intro: schema_step references_step double_entry_step claimed_once_step)
qed

lemma journal_migrated: "journal migrated_db"
  by (simp add: journal_def schema_def references_def double_entry_def claimed_once_def migrated_db_def)

text \<open>An entry belongs to the pair of its transaction.\<close>

lemma journal_entry:
  assumes "journal d" and "e \<in> set (entries d)"
  obtains r a b x c where "r \<in> set (transactions d)" "er_transaction e = tr_id r" "0 < sint x"
    "filter (\<lambda>e'. er_transaction e' = tr_id r) (entries d) =
       [leg (tr_tenant r) (tr_id r) a b (- x) c (tr_recorded_at r) 0,
        leg (tr_tenant r) (tr_id r) b a x c (tr_recorded_at r) 1]"
proof -
  have "er_transaction e \<in> tr_id ` set (transactions d)"
    using assms by (auto simp: journal_def references_def transaction_exists_def)
  then obtain r where r: "r \<in> set (transactions d)" "er_transaction e = tr_id r" by auto
  then have "entry_pair d r" using assms(1) by (simp add: journal_def double_entry_def)
  then show ?thesis using r that by (auto simp: entry_pair_def)
qed

section \<open>Nothing crosses a tenant\<close>

text \<open>The balances of each tenant sum to zero: money moves inside a tenant only.\<close>

definition tenant_total :: "db \<Rightarrow> string \<Rightarrow> int" where
  "tenant_total d t = sum_list (map (\<lambda>r. sint (ar_balance r)) (filter (\<lambda>r. ar_tenant r = t) (accounts d)))"

lemma amounts_accounts:
  assumes "distinct (map account_key rs)"
    and "\<forall>e \<in> set es. er_tenant e = t \<longrightarrow> (t, er_account e) \<in> account_key ` set rs"
  shows "sum_list (map (\<lambda>r. amounts (filter (\<lambda>e. er_tenant e = t \<and> er_account e = ar_id r) es))
            (filter (\<lambda>r. ar_tenant r = t) rs)) = amounts (filter (\<lambda>e. er_tenant e = t) es)"
  using assms(2)
proof (induction es)
  case (Cons e es)
  let ?own = "filter (\<lambda>r. ar_tenant r = t) rs"
  have IH: "sum_list (map (\<lambda>r. amounts (filter (\<lambda>e. er_tenant e = t \<and> er_account e = ar_id r) es)) ?own)
      = amounts (filter (\<lambda>e. er_tenant e = t) es)"
    using Cons by simp
  show ?case
  proof (cases "er_tenant e = t")
    case True
    then obtain r where r: "r \<in> set rs" "account_key r = (t, er_account e)" using Cons.prems by force
    have split: "sum_list (map (\<lambda>r. (if ar_id r = er_account e then sint (er_amount e) else 0) + f r) qs) =
        sint (er_amount e) * int (length (filter (\<lambda>r. ar_id r = er_account e) qs)) + sum_list (map f qs)"
      for f and qs :: "account_row list"
      by (induction qs) (auto simp: algebra_simps)
    have "filter (\<lambda>r. ar_id r = er_account e) ?own = filter (\<lambda>q. account_key q = (t, er_account e)) rs"
      by (auto simp: account_key_def intro!: filter_cong)
    also have "\<dots> = [r]"
      using r assms(1)
    proof (induction rs)
      case (Cons q rs)
      show ?case
      proof (cases "q = r")
        case True
        then have "filter (\<lambda>q. account_key q = (t, er_account e)) rs = []"
          using Cons.prems by (auto simp: filter_empty_conv) (metis imageI)
        then show ?thesis using True Cons.prems by simp
      next
        case False
        then have "r \<in> set rs" using Cons.prems by simp
        then have "account_key q \<noteq> (t, er_account e)" using Cons.prems by (auto simp: rev_image_eqI)
        then show ?thesis using Cons False by simp
      qed
    qed simp
    finally have one: "length (filter (\<lambda>r. ar_id r = er_account e) ?own) = 1" by simp
    have "map (\<lambda>r. amounts (filter (\<lambda>e. er_tenant e = t \<and> er_account e = ar_id r) (e # es))) ?own =
        map (\<lambda>r. (if ar_id r = er_account e then sint (er_amount e) else 0) +
          amounts (filter (\<lambda>e. er_tenant e = t \<and> er_account e = ar_id r) es)) ?own"
      using True by auto
    then have "sum_list (map (\<lambda>r. amounts (filter (\<lambda>e. er_tenant e = t \<and> er_account e = ar_id r) (e # es))) ?own) =
        sint (er_amount e) + amounts (filter (\<lambda>e. er_tenant e = t) es)"
      by (simp only: split one IH)
    then show ?thesis using True by simp
  next
    case False
    then have "map (\<lambda>r. amounts (filter (\<lambda>e. er_tenant e = t \<and> er_account e = ar_id r) (e # es))) ?own =
        map (\<lambda>r. amounts (filter (\<lambda>e. er_tenant e = t \<and> er_account e = ar_id r) es)) ?own"
      by auto
    then show ?thesis using IH False by simp
  qed
qed simp

lemma tenant_total_zero:
  assumes "books d" and "zero_sum d"
  shows "tenant_total d t = 0"
proof -
  have "tenant_total d t = sum_list (map (\<lambda>r. entry_total d t (ar_id r)) (filter (\<lambda>r. ar_tenant r = t) (accounts d)))"
    unfolding tenant_total_def
    by (rule arg_cong [where f = sum_list], rule map_cong) (use assms(1) in \<open>auto simp: books_def derived_def\<close>)
  also have "\<dots> = amounts (filter (\<lambda>e. er_tenant e = t) (entries d))"
    unfolding entry_total_def
    by (rule amounts_accounts) (use assms(1) in \<open>auto simp: books_def schema_def references_def account_exists_iff\<close>)
  also have "\<dots> = 0" using spec [OF assms(2) [unfolded zero_sum_def], of "\<lambda>u. u = t"] by simp
  finally show ?thesis .
qed

section \<open>Links and transfers\<close>

definition links_canonical :: "db \<Rightarrow> bool" where
  "links_canonical d \<longleftrightarrow> distinct (map lr_id (tenant_links d)) \<and>
     (\<forall>l \<in> set (tenant_links d). lr_a l \<le> lr_b l) \<and>
     (\<forall>a b. length (filter (\<lambda>l. lr_status l = TenantLinkActive \<and> lr_a l = a \<and> lr_b l = b) (tenant_links d)) \<le> 1)"

lemma links_canonical_step: "commit_step d d' \<Longrightarrow> links_canonical d \<Longrightarrow> links_canonical d'"
proof (induction rule: commit_step.induct)
  case (step_link r d d')
  then have "db_link d (lr_id r) = None" and d': "d' = d\<lparr>tenant_links := tenant_links d @ [r]\<rparr>"
    and "\<not> active_pair_taken d (lr_a r) (lr_b r)"
    by (simp_all add: inserted)
  then have "filter (\<lambda>l. lr_status l = TenantLinkActive \<and> lr_a l = lr_a r \<and> lr_b l = lr_b r) (tenant_links d) = []"
    by (auto simp: filter_empty_conv active_pair_taken_def)
  then show ?case
    using step_link \<open>db_link d (lr_id r) = None\<close>
    by (auto simp: links_canonical_def d' db_link_def link_tab.lookup_None)
next
  case (step_revoke d l)
  let ?f = "\<lambda>r. if lr_id r = l then r\<lparr>lr_status := TenantLinkRevoked\<rparr> else r"
  have ids: "map lr_id (map ?f ls) = map lr_id ls" for ls by auto
  have fewer: "length (filter (\<lambda>l. lr_status l = TenantLinkActive \<and> lr_a l = a \<and> lr_b l = b) (map ?f ls)) \<le>
      length (filter (\<lambda>l. lr_status l = TenantLinkActive \<and> lr_a l = a \<and> lr_b l = b) ls)" for a b ls
    by (induction ls) auto
  have "length (filter (\<lambda>l. lr_status l = TenantLinkActive \<and> lr_a l = a \<and> lr_b l = b)
      (map ?f (tenant_links d))) \<le> 1" for a b
    using step_revoke fewer [of a b "tenant_links d"] unfolding links_canonical_def by (meson order_trans)
  moreover have "\<forall>k \<in> set (map ?f (tenant_links d)). lr_a k \<le> lr_b k"
    using step_revoke by (auto simp: links_canonical_def)
  moreover have "distinct (map lr_id (map ?f (tenant_links d)))"
    using step_revoke unfolding links_canonical_def ids by blast
  moreover have "tenant_links (revoke_row l d) = map ?f (tenant_links d)" by (simp add: revoke_row_def)
  ultimately show ?case unfolding links_canonical_def by (simp only:) blast
qed (auto simp: links_canonical_def inserted)

interpretation canonical: commit_invariant links_canonical
  by unfold_locales (rule links_canonical_step)

definition transfers_unique :: "db \<Rightarrow> bool" where
  "transfers_unique d \<longleftrightarrow> distinct (map xr_id (transfer_states d)) \<and>
     distinct (map (\<lambda>r. (xr_tenant r, xr_key r)) (transfer_states d))"

lemma transfers_unique_step: "commit_step d d' \<Longrightarrow> transfers_unique d \<Longrightarrow> transfers_unique d'"
proof (induction rule: commit_step.induct)
  case (step_transfer r d d')
  then show ?case by (auto simp: transfers_unique_def inserted db_transfer_def xfer_tab.lookup_None)
next
  case (step_advance f d x)
  have "map xr_id (map (\<lambda>r. if xr_id r = x then f r else r) rs) = map xr_id rs"
    "map (\<lambda>r. (xr_tenant r, xr_key r)) (map (\<lambda>r. if xr_id r = x then f r else r) rs) =
       map (\<lambda>r. (xr_tenant r, xr_key r)) rs" for rs
    using step_advance(1) by (auto simp: same_transfer_def)
  then show ?case using step_advance(4) by (simp add: transfers_unique_def del: map_map)
qed (auto simp: transfers_unique_def inserted revoke_row_def)

interpretation once: commit_invariant transfers_unique
  by unfold_locales (rule transfers_unique_step)

definition transfers_typed :: "db \<Rightarrow> bool" where
  "transfers_typed d \<longleftrightarrow> (\<forall>r \<in> set (transfer_states d). transfer_typed r)"

lemma transfers_typed_step: "commit_step d d' \<Longrightarrow> transfers_typed d \<Longrightarrow> transfers_typed d'"
  by (induction rule: commit_step.induct) (auto simp: transfers_typed_def inserted revoke_row_def)

interpretation typed: commit_invariant transfers_typed
  by unfold_locales (rule transfers_typed_step)

text \<open>Only a transfer whose third leg is on record is settled.\<close>

definition settled_paid :: "db \<Rightarrow> bool" where
  "settled_paid d \<longleftrightarrow> transfers_unique d \<and> (\<forall>r \<in> set (transfer_states d). told d r)"

lemma told_step: "commit_step d d' \<Longrightarrow> told d r \<Longrightarrow> told d' r"
  using answered_step by (auto simp: told_def leg3_paid_def split: sum.splits)

lemma settled_paid_step:
  assumes step: "commit_step d d'" and d: "settled_paid d"
  shows "settled_paid d'"
proof -
  have "told d r" if r: "r \<in> set (transfer_states d')" for r
    using step
  proof (cases rule: commit_step.cases)
    case (step_advance f x)
    show ?thesis
    proof (cases "r \<in> set (transfer_states d)")
      case False
      then obtain s where s: "s \<in> set (transfer_states d)" "xr_id s = x" "r = f s"
        using step_advance(1) r by (auto split: if_splits)
      then have "db_transfer d x = Some s"
        using d by (simp add: db_transfer_def xfer_tab.lookup_Some_iff settled_paid_def transfers_unique_def)
      then show ?thesis using step_advance(4) d s by (simp add: settled_paid_def)
    qed (use d in \<open>simp add: settled_paid_def\<close>)
  qed (use d r in \<open>auto simp: settled_paid_def inserted revoke_row_def posted_def\<close>)
  then show ?thesis
    using d told_step [OF step] transfers_unique_step [OF step] by (simp add: settled_paid_def)
qed

interpretation settled: commit_invariant settled_paid
  by unfold_locales (rule settled_paid_step)

lemma settled_paidD:
  assumes "settled_paid d" and "r \<in> set (transfer_states d)" and "xr_status r = statusSettled"
  obtains s where "scanTransferState r = Inr s" and "answered d (leg3_request s)"
  using assms by (cases "scanTransferState r") (auto simp: settled_paid_def told_def leg3_paid_def)

end
