(* ===== verification/Calm.thy ===== *)
theory Calm
  imports SagaRefinement Journal
begin

text \<open>
  The saga of one process left alone: nothing fails, nobody else commits, the clock does not
  run backwards and identifiers are fresh. Each unit of work of the saga is evaluated once;
  the properties of the saga compose these evaluations.
\<close>

section \<open>Steady worlds\<close>

definition ticking :: "world \<Rightarrow> bool" where
  "ticking w \<longleftrightarrow> (\<forall>i j. i \<le> j \<longrightarrow> w_clock w i \<le> w_clock w j)"

definition fresh_ids :: "world \<Rightarrow> bool" where
  "fresh_ids w \<longleftrightarrow> inj (w_ids w) \<and>
     (\<forall>n. w_minted w \<le> n \<longrightarrow> \<not> transaction_exists (w_committed w) (w_ids w n))"

definition steady :: "world \<Rightarrow> bool" where
  "steady w \<longleftrightarrow> quiet w \<and> books (w_committed w) \<and> ticking w \<and> fresh_ids w"

lemma steadyD:
  assumes "steady w"
  shows "quiet w" and "books (w_committed w)" and "ticking w" and "fresh_ids w" and "well_behaved w"
  using assms quiet_well_behaved by (simp_all add: steady_def)

lemma quiet_same_run: "same_run w w' \<Longrightarrow> quiet w' = quiet w"
  by (simp add: quiet_def same_run_def faulty_def)

lemma ticking_same_run: "same_run w w' \<Longrightarrow> ticking w' = ticking w"
  by (simp add: ticking_def same_run_def)

lemma steady_later:
  assumes "steady w" and "moves w w'"
    and "\<And>n. w_minted w' \<le> n \<Longrightarrow> \<not> transaction_exists (w_committed w') (w_ids w n)"
  shows "steady w'"
proof -
  have s: "same_run w w'" and m: "commit_steps (w_committed w) (w_committed w')"
    using assms(2) by (simp_all add: moves_def)
  have "books (w_committed w')" using books.moved [OF assms(2)] steadyD(2) [OF assms(1)] by simp
  moreover have "w_ids w' = w_ids w" using s by (simp add: same_run_def)
  ultimately show ?thesis
    using assms(1,3) quiet_same_run [OF s] ticking_same_run [OF s] by (simp add: steady_def fresh_ids_def)
qed

text \<open>A step that appends no transaction.\<close>

lemma steady_kept:
  assumes "steady w" and "moves w w'" and "transactions (w_committed w') = transactions (w_committed w)"
  shows "steady w'"
proof (rule steady_later [OF assms(1,2)])
  fix n assume "w_minted w' \<le> n"
  moreover have "w_minted w \<le> w_minted w'" using assms(2) by (simp add: moves_def same_run_def)
  ultimately have "w_minted w \<le> n" by simp
  then have "\<not> transaction_exists (w_committed w) (w_ids w n)"
    using steadyD(4) [OF assms(1)] by (simp add: fresh_ids_def)
  then show "\<not> transaction_exists (w_committed w') (w_ids w n)"
    using assms(3) by (simp add: transaction_exists_def)
qed

lemma refines_moves: "refines m \<Longrightarrow> steady w \<Longrightarrow> m w = (r, w') \<Longrightarrow> moves w w'"
  using steadyD(5) [of w] by (force simp: refines_def)

lemma refines_same_run: "refines m \<Longrightarrow> steady w \<Longrightarrow> m w = (r, w') \<Longrightarrow> same_run w w'"
  using refines_moves [of m w r w'] by (simp add: moves_def)

text \<open>How a quiet world answers each primitive.\<close>

lemma quiet_steps:
  assumes "quiet w"
  shows "w_faults w n = NoFault" and "w_env w n d = d"
  using assms by (simp_all add: quiet_def faulty_def)

lemmas run_defs = bindE_def ret_def throw_def decide_def attempt_def clock_def withUnitOfWork_def
  Begin_def Rollback_def Commit_def query_def select_for_update_def command_def statement_def
  turn_def Let_def

section \<open>Units of work over the transfer table\<close>

definition set_transfer :: "string \<Rightarrow> (transfer_row \<Rightarrow> transfer_row) \<Rightarrow> db \<Rightarrow> db" where
  "set_transfer x f d =
     d\<lparr>transfer_states := map (\<lambda>r. if xr_id r = x then f r else r) (transfer_states d)\<rparr>"

lemma set_transfer_sel [simp]:
  "accounts (set_transfer x f d) = accounts d" "transactions (set_transfer x f d) = transactions d"
  "entries (set_transfer x f d) = entries d" "idempotency_keys (set_transfer x f d) = idempotency_keys d"
  "tenants (set_transfer x f d) = tenants d" "tenant_links (set_transfer x f d) = tenant_links d"
  "counterparty_aliases (set_transfer x f d) = counterparty_aliases d"
  "db_account (set_transfer x f d) = db_account d" "db_key (set_transfer x f d) = db_key d"
  "movable t a b m (set_transfer x f d) = movable t a b m d"
  by (simp_all add: set_transfer_def db_account_def db_key_def movable_def fun_eq_iff)

lemma set_transfer_books [simp]: "books (set_transfer x f d) = books d"
  by (simp add: set_transfer_def books_def schema_def references_def balanced_def derived_def entry_total_def
    floored_def single_currency_def transaction_exists_def account_exists_def db_account_def
    tenant_exists_def db_tenant_def)

lemma set_transfer_row:
  assumes "db_transfer d x = Some r" and "\<And>s. xr_id (f s) = xr_id s"
  shows "db_transfer (set_transfer x f d) x = Some (f r)"
proof -
  have "xr_id r = x" using assms(1) by (simp add: db_transfer_def find_Some_iff) blast
  then show ?thesis
    using assms unfolding db_transfer_def set_transfer_def
    by (simp add: find_map_keep)
qed

lemma set_transfer_twice:
  "(\<And>s. xr_id (f s) = xr_id s) \<Longrightarrow>
     set_transfer x g (set_transfer x f d) = set_transfer x (\<lambda>r. g (f r)) d"
  by (auto simp: set_transfer_def)

lemma set_transfer_posted:
  "set_transfer x f (posted t a b m tid now k fp d) = posted t a b m tid now k fp (set_transfer x f d)"
  by (simp add: set_transfer_def posted_def)

lemma posted_transfer [simp]: "db_transfer (posted t a b m tid now k fp d) = db_transfer d"
  by (simp add: posted_def db_transfer_def fun_eq_iff)

definition claimable :: "transfer_row \<Rightarrow> time \<Rightarrow> bool" where
  "claimable r now \<longleftrightarrow> (xr_status r = ''pending'' \<or> xr_status r = ''retrying'') \<and> xr_next r \<le> now"

lemma scanTransferState_sel:
  assumes "scanTransferState r = Inr s"
  shows "ts_Status s = xr_status r" and "ts_NextAttemptAt s = xr_next r"
    and "ts_TransferID s = xr_id r" and "ts_Reason s = null_string (xr_reason r)" and "ts_IdempotencyKey s = xr_key r" and "ts_TenantID s = xr_tenant r"
  using assms by (auto simp: scanTransferState_def Let_def split: option.splits sum.splits)

lemma claim_granted:
  assumes "steady w" and row: "db_transfer (w_committed w) x = Some r"
    and scan: "scanTransferState r = Inr s" and due: "claimable r (w_clock w (w_reads w))"
  shows "\<exists>w' n. claimTransfer x w = (Inr (Some (s\<lparr>ts_NextAttemptAt := n\<rparr>)), w') \<and>
    n = w_clock w (Suc (w_reads w)) + claimLeaseDuration \<and> w_reads w' = Suc (Suc (w_reads w)) \<and>
    w_committed w' = set_transfer x (\<lambda>r. r\<lparr>xr_next := timestamptz n\<rparr>) (w_committed w)"
  using due row scan quiet_steps [OF steadyD(1) [OF assms(1)]] scanTransferState_sel [OF scan]
  by (auto simp: claimTransfer_def ClaimOne_def scan_found_def transferStateIsDue_def run_defs
      update_transfer_def set_transfer_def claimable_def)

lemma claim_denied:
  assumes "steady w"
    and no: "\<And>r. db_transfer (w_committed w) x = Some r \<Longrightarrow>
      (\<exists>s. scanTransferState r = Inr s) \<and> \<not> claimable r (w_clock w (w_reads w))"
  shows "\<exists>w'. claimTransfer x w = (Inr None, w') \<and> w_committed w' = w_committed w"
proof (cases "db_transfer (w_committed w) x")
  case None
  then show ?thesis
    using quiet_steps [OF steadyD(1) [OF assms(1)]]
    by (auto simp: claimTransfer_def ClaimOne_def scan_found_def run_defs)
next
  case (Some r)
  obtain s where s: "scanTransferState r = Inr s" using no [OF Some] by blast
  then show ?thesis
    using Some no [OF Some] quiet_steps [OF steadyD(1) [OF assms(1)]] scanTransferState_sel [OF s]
    by (auto simp: claimTransfer_def ClaimOne_def scan_found_def transferStateIsDue_def run_defs
        claimable_def not_le)
qed

text \<open>A row that is not due yet: looking costs one reading of the clock.\<close>

lemma claim_too_early:
  assumes "steady w" and row: "db_transfer (w_committed w) x = Some r"
    and scan: "scanTransferState r = Inr s"
    and status: "xr_status r = ''pending'' \<or> xr_status r = ''retrying''"
    and early: "w_clock w (w_reads w) < xr_next r"
  shows "\<exists>w'. claimTransfer x w = (Inr None, w') \<and> w_committed w' = w_committed w \<and>
    w_reads w' = Suc (w_reads w)"
  using row scan status early quiet_steps [OF steadyD(1) [OF assms(1)]] scanTransferState_sel [OF scan]
  by (auto simp: claimTransfer_def ClaimOne_def scan_found_def transferStateIsDue_def run_defs)

lemma advance_runs:
  assumes "steady w" and "db_transfer (w_committed w) x = Some r"
  shows "\<exists>w'. advanceAfterLegOutcome x status t reason w = (Inr (), w') \<and> w_reads w' = w_reads w \<and>
    same_run w w' \<and> w_committed w' = set_transfer x (\<lambda>r. r\<lparr>xr_status := status, xr_next := timestamptz t,
      xr_reason := toNullableString reason\<rparr>) (w_committed w)"
proof -
  have "filter (\<lambda>r. xr_id r = x) (transfer_states (w_committed w)) \<noteq> []"
    using assms(2) by (auto simp: db_transfer_def filter_empty_conv dest: find_Some_memD)
  then show ?thesis
    using quiet_steps [OF steadyD(1) [OF assms(1)]]
    by (auto simp: advanceAfterLegOutcome_def AdvanceAfterLegOutcome_def run_defs update_transfer_def
        set_transfer_def same_run_def)
qed

section \<open>Units of work that read\<close>

lemma legPosted_runs:
  assumes "steady w"
  shows "\<exists>w'. withUnitOfWork (legPostedStatus key) w =
      (Inr (if db_key (w_committed w) key \<noteq> None then legPosted else legPending), w') \<and>
      w_committed w' = w_committed w \<and> w_reads w' = w_reads w"
  using quiet_steps [OF steadyD(1) [OF assms]]
  by (auto simp: legPostedStatus_def idempotency_Lookup_def run_defs)

lemma nextLegFor_runs:
  assumes "steady w" and "db_transfer (w_committed w) x = Some r" and "scanTransferState r = Inr s"
  shows "\<exists>w'. nextLegFor x w =
      (Inr (if db_key (w_committed w) (xr_key r @ '':leg2'') = None then 2
            else if db_key (w_committed w) (xr_key r @ '':leg3'') = None then 3 else 0), w') \<and>
      w_committed w' = w_committed w \<and> w_reads w' = w_reads w"
  using assms(2,3) quiet_steps [OF steadyD(1) [OF assms(1)]] scanTransferState_sel [OF assms(3)]
  by (auto simp: nextLegFor_def transfers_Get_def scan_found_def legPostedStatus_def
      idempotency_Lookup_def legPosted_def legPending_def run_defs)

lemma reversalPending_runs:
  assumes "steady w" and "db_transfer (w_committed w) x = Some r" and "scanTransferState r = Inr s"
  shows "\<exists>w'. reversalPending x w =
      (Inr (xr_status r = statusRetrying \<and> db_key (w_committed w) (legReverseKey (xr_key r) 2) \<noteq> None), w') \<and>
      w_committed w' = w_committed w \<and> w_reads w' = w_reads w"
  using assms(2,3) quiet_steps [OF steadyD(1) [OF assms(1)]] scanTransferState_sel [OF assms(3)]
  by (auto simp: reversalPending_def transfers_Get_def scan_found_def idempotency_Lookup_def run_defs)

text \<open>The wallet a reversal of leg 1 pays: the tenant's first one in the order of the ids.\<close>

definition sender_wallet :: "(string \<Rightarrow> string) \<Rightarrow> string \<Rightarrow> db \<Rightarrow> Violation + string" where
  "sender_wallet collate t d =
     first_wallet (map row_account (account_order collate (ScopedToTenant t) d))"

lemma walletAccountID_runs:
  assumes "steady w"
  shows "\<exists>w'. walletAccountID t w =
      (case sender_wallet (w_collate w) t (w_committed w) of
         Inl v \<Rightarrow> Inl (ErrViolation v) | Inr i \<Rightarrow> Inr i, w') \<and>
      w_committed w' = w_committed w \<and> w_reads w' = w_reads w"
proof -
  have "scan_all scanTenantAccount (account_order (w_collate w) (ScopedToTenant t) (w_committed w)) =
      Inr (map row_account (account_order (w_collate w) (ScopedToTenant t) (w_committed w)))"
    (is "scan_all _ ?rs = _")
  proof (rule scan_all_map)
    fix r assume "r \<in> set ?rs"
    then have "r \<in> set (accounts (w_committed w))" by (simp add: set_account_order scoped_accounts_def)
    then show "scanTenantAccount r = Inr (row_account r)"
      using steadyD(2) [OF assms]
      by (auto simp: scanTenantAccount_eq scanAccount_Inr_iff row_account_def books_def floored_def
          references_def single_currency_def ledgerCurrency_def)
  qed
  then show ?thesis
    using quiet_steps [OF steadyD(1) [OF assms]]
    unfolding walletAccountID_def accounts_All_def account_order_def [symmetric] sender_wallet_def
    by (auto simp: run_defs sorted_query_def split: sum.splits)
qed

end
