(* ===== verification/CalmSaga.thy ===== *)
theory CalmSaga
  imports Calm
begin

text \<open>
  The coordinator's calls in a steady world: an attempt of a leg that posts it, one that fails,
  the compensation, and a run of the forward legs.
\<close>

section \<open>Running a saga\<close>

lemma bindE_run: "m c = (Inr x, c') \<Longrightarrow> bindE m f c = f x c'"
  by (simp add: bindE_def)

lemma bindE_stop: "m c = (Inl e, c') \<Longrightarrow> bindE m f c = (Inl e, c')"
  by (simp add: bindE_def)

lemma on_ledger_eq: "on_ledger m c = (fst (m (co_world c)), c\<lparr>co_world := snd (m (co_world c))\<rparr>)"
  by (simp add: on_ledger_def split: prod.splits)

lemma attempt_run: "m c = (r, c') \<Longrightarrow> attempt m c = (Inr r, c')"
  by (simp add: attempt_def)

lemma ret_run [simp]: "ret x c = (Inr x, c)"
  by (simp add: ret_def)

lemma throw_run [simp]: "throw e c = (Inl e, c)"
  by (simp add: throw_def)

lemma no_fault: "read_count (co_legFaults c) k \<le> 0 \<Longrightarrow> consumeFault k c = (Inr False, c)"
  by (simp add: consumeFault_def)

text \<open>What a saga that ran to the world \<open>w'\<close> says of it.\<close>

definition reached :: "world \<Rightarrow> world \<Rightarrow> db \<Rightarrow> bool" where
  "reached w w' d \<longleftrightarrow> steady w' \<and> same_run w w' \<and> w_committed w' = d"

lemma reached_trans: "reached u v d \<Longrightarrow> reached v w e \<Longrightarrow> reached u w e"
  by (auto simp: reached_def intro: same_run_trans)

lemma reachedI:
  assumes "refines m" and "steady w" and "m w = (r, w')"
    and "w_committed w' = d" and "transactions d = transactions (w_committed w)"
  shows "reached w w' d"
  using refines_moves [OF assms(1-3)] steady_kept [OF assms(2)] assms(4,5) by (simp add: reached_def moves_def)

lemma reached_set_transfer:
  assumes "steady w" and "same_run w w'" and "w_committed w' = set_transfer x f (w_committed w)"
  shows "reached w w' (set_transfer x f (w_committed w))"
  using assms quiet_same_run [OF assms(2)] ticking_same_run [OF assms(2)]
  by (auto simp: reached_def steady_def fresh_ids_def transaction_exists_def same_run_def)

lemma PostTransfer_steady:
  assumes steady: "steady w"
    and mv: "movable (req_TenantID cmd) (req_From cmd) (req_To cmd) (req_Amount cmd) (w_committed w)"
    and ab: "req_From cmd \<noteq> req_To cmd" and free: "db_key (w_committed w) (req_IdempotencyKey cmd) = None"
  shows "\<exists>res tid now w'. PostTransfer cmd w = (Inr res, w') \<and>
    reached w w' (posted (req_TenantID cmd) (req_From cmd) (req_To cmd) (req_Amount cmd) tid now
      (req_IdempotencyKey cmd) (req_Fingerprint cmd) (w_committed w))"
proof -
  obtain tid now w' where w: "PostTransfer cmd w =
      (Inr \<lparr>res_Posting = posting_of cmd tid now, res_Replayed = False\<rparr>, w')"
    "tid \<in> w_ids w ` {w_minted w ..< w_minted w'}"
    "w_committed w' = posted (req_TenantID cmd) (req_From cmd) (req_To cmd) (req_Amount cmd) tid
      (timestamptz now) (req_IdempotencyKey cmd) (req_Fingerprint cmd) (w_committed w)"
    using PostTransfer_succeeds [of w cmd] steadyD [OF steady] mv ab free by (auto simp: fresh_ids_def)
  have mvs: "moves w w'" using refines_moves [OF refines_PostTransfer steady w(1)] .
  have "steady w'"
  proof (rule steady_later [OF steady mvs])
    fix n assume n: "w_minted w' \<le> n"
    have "w_minted w \<le> w_minted w'" using mvs by (simp add: moves_def same_run_def)
    then have "\<not> transaction_exists (w_committed w) (w_ids w n)" and "w_ids w n \<noteq> tid"
      using steadyD(4) [OF steady] n w(2) by (auto simp: fresh_ids_def dest: injD)
    then show "\<not> transaction_exists (w_committed w') (w_ids w n)"
      by (simp add: w(3) transaction_exists_def posted_def)
  qed
  then show ?thesis using w(1,3) mvs unfolding reached_def moves_def by blast
qed

lemma post_leg_runs:
  assumes steady: "steady (co_world c)" and mv: "movable t a b m (w_committed (co_world c))"
    and ab: "a \<noteq> b" and free: "db_key (w_committed (co_world c)) k = None"
  shows "\<exists>w tid now. post_leg (a, b, t, k) m c = (Inr (), c\<lparr>co_world := w\<rparr>) \<and>
    reached (co_world c) w (posted t a b m tid now k (legFingerprint a b m) (w_committed (co_world c)))"
proof -
  obtain res tid now w where w: "PostTransfer (leg_request (a, b, t, k) m) (co_world c) = (Inr res, w)"
    "reached (co_world c) w (posted t a b m tid now k (legFingerprint a b m) (w_committed (co_world c)))"
    using PostTransfer_steady [OF steady, of "leg_request (a, b, t, k) m"] mv ab free by auto
  have "post_leg (a, b, t, k) m c = (Inr (), c\<lparr>co_world := w\<rparr>)"
    by (simp add: post_leg_def bindE_def on_ledger_eq w(1) del: leg_request.simps)
  then show ?thesis using w(2) by blast
qed

lemma claim_runs:
  assumes "steady (co_world c)" and "db_transfer (w_committed (co_world c)) x = Some r"
    and "scanTransferState r = Inr s"
    and "claimable r (w_clock (co_world c) (w_reads (co_world c)))"
  shows "\<exists>w n. on_ledger (claimTransfer x) c = (Inr (Some (s\<lparr>ts_NextAttemptAt := n\<rparr>)), c\<lparr>co_world := w\<rparr>) \<and>
    n = w_clock (co_world c) (Suc (w_reads (co_world c))) + claimLeaseDuration \<and>
    w_reads w = Suc (Suc (w_reads (co_world c))) \<and>
    reached (co_world c) w (set_transfer x (\<lambda>r. r\<lparr>xr_next := timestamptz n\<rparr>) (w_committed (co_world c)))"
proof -
  obtain w n where w: "claimTransfer x (co_world c) = (Inr (Some (s\<lparr>ts_NextAttemptAt := n\<rparr>)), w)"
    "n = w_clock (co_world c) (Suc (w_reads (co_world c))) + claimLeaseDuration"
    "w_reads w = Suc (Suc (w_reads (co_world c)))"
    "w_committed w = set_transfer x (\<lambda>r. r\<lparr>xr_next := timestamptz n\<rparr>) (w_committed (co_world c))"
    using claim_granted [OF assms] by blast
  have "reached (co_world c) w (set_transfer x (\<lambda>r. r\<lparr>xr_next := timestamptz n\<rparr>) (w_committed (co_world c)))"
    by (rule reachedI [OF refines_claimTransfer assms(1) w(1,4)]) simp
  then show ?thesis using w(2,3) by (auto simp: on_ledger_eq w(1))
qed

text \<open>The status of a transfer set, the next attempt at \<open>t\<close>.\<close>

definition advanced :: "string \<Rightarrow> string \<Rightarrow> time \<Rightarrow> string \<Rightarrow> db \<Rightarrow> db" where
  "advanced x status t reason = set_transfer x (\<lambda>r. r\<lparr>xr_status := status, xr_next := timestamptz t,
     xr_reason := toNullableString reason\<rparr>)"

lemma steady_reads [simp]: "steady (w\<lparr>w_reads := n\<rparr>) = steady w"
  by (simp add: steady_def quiet_def faulty_def ticking_def fresh_ids_def)

lemma clock_advance_runs:
  fixes f :: "time \<Rightarrow> time"
  assumes steady: "steady (co_world c)" and row: "db_transfer (w_committed (co_world c)) x = Some r"
  shows "\<exists>w. on_ledger (bindE clock (\<lambda>now. advanceAfterLegOutcome x status (f now) reason)) c =
      (Inr (), c\<lparr>co_world := w\<rparr>) \<and> w_reads w = Suc (w_reads (co_world c)) \<and>
    reached (co_world c) w (advanced x status (f (w_clock (co_world c) (w_reads (co_world c)))) reason
      (w_committed (co_world c)))"
proof -
  let ?w = "co_world c"
  let ?u = "?w\<lparr>w_reads := Suc (w_reads ?w)\<rparr>" and ?t = "f (w_clock ?w (w_reads ?w))"
  obtain w where w: "advanceAfterLegOutcome x status ?t reason ?u = (Inr (), w)" "w_reads w = w_reads ?u" "same_run ?u w"
    "w_committed w = set_transfer x (\<lambda>r. r\<lparr>xr_status := status, xr_next := timestamptz ?t,
      xr_reason := toNullableString reason\<rparr>) (w_committed ?w)"
    using advance_runs [of ?u x r status ?t reason] steady row by auto
  have "reached ?u w (advanced x status ?t reason (w_committed ?w))"
    using reached_set_transfer [OF _ w(3)] steady w(4) by (simp add: advanced_def)
  then have "reached ?w w (advanced x status ?t reason (w_committed ?w))"
    by (auto simp: reached_def same_run_def)
  then show ?thesis using w(1,2) by (intro exI [of _ w]) (simp add: on_ledger_eq bindE_def clock_def)
qed

lemma advance_now_runs:
  assumes "steady (co_world c)" and "db_transfer (w_committed (co_world c)) x = Some r"
  shows "\<exists>w. advance_now x status reason c = (Inr (), c\<lparr>co_world := w\<rparr>) \<and>
    w_reads w = Suc (w_reads (co_world c)) \<and>
    reached (co_world c) w (advanced x status (w_clock (co_world c) (w_reads (co_world c))) reason
      (w_committed (co_world c)))"
  unfolding advance_now_def using clock_advance_runs [OF assms, where f = "\<lambda>t. t"] .

lemma legMovement_next [simp]: "legMovement (s\<lparr>ts_NextAttemptAt := n\<rparr>) l = legMovement s l"
  by (simp add: legMovement_def)

text \<open>
  An attempt that posts: the claim, the movement, the outcome. The lease the claim took is
  overwritten by the outcome.
\<close>

lemma attemptLeg_posts:
  assumes steady: "steady (co_world c)" and row: "db_transfer (w_committed (co_world c)) x = Some r"
    and scan: "scanTransferState r = Inr s"
    and due: "claimable r (w_clock (co_world c) (w_reads (co_world c)))"
    and crash: "\<not> (leg_no = 2 \<and> inl \<and> read_flag (co_skipForwardCrash c) x)"
    and fault: "read_count (co_legFaults c) (transferLegKey x leg_no) \<le> 0"
    and leg: "legMovement s leg_no = Inr (a, b, t, k)"
    and mv: "movable t a b (ts_Amount s) (w_committed (co_world c))"
    and ab: "a \<noteq> b" and free: "db_key (w_committed (co_world c)) k = None"
  shows "\<exists>w tid now i. attemptLeg x leg_no inl c = (Inr (), c\<lparr>co_world := w\<rparr>) \<and> i < w_reads w \<and>
    reached (co_world c) w (advanced x (if leg_no = 3 then statusSettled else legPending) (w_clock w i) []
      (posted t a b (ts_Amount s) tid now k (legFingerprint a b (ts_Amount s)) (w_committed (co_world c))))"
proof -
  let ?d = "w_committed (co_world c)" and ?fp = "legFingerprint a b (ts_Amount s)"
  let ?st = "if leg_no = 3 then statusSettled else legPending"
  obtain w1 n where w1: "on_ledger (claimTransfer x) c = (Inr (Some (s\<lparr>ts_NextAttemptAt := n\<rparr>)), c\<lparr>co_world := w1\<rparr>)"
    "reached (co_world c) w1 (set_transfer x (\<lambda>r. r\<lparr>xr_next := timestamptz n\<rparr>) ?d)"
    using claim_runs [OF steady row scan due] by blast
  let ?c1 = "c\<lparr>co_world := w1\<rparr>"
  have c1: "steady (co_world ?c1)" "w_committed (co_world ?c1) = set_transfer x (\<lambda>r. r\<lparr>xr_next := timestamptz n\<rparr>) ?d"
    using w1(2) by (simp_all add: reached_def)
  obtain w2 tid now where w2: "post_leg (a, b, t, k) (ts_Amount s) ?c1 = (Inr (), ?c1\<lparr>co_world := w2\<rparr>)"
    "reached w1 w2 (posted t a b (ts_Amount s) tid now k ?fp (w_committed w1))"
    using post_leg_runs [OF c1(1), of t a b "ts_Amount s" k] mv ab free c1(2) by auto
  let ?c2 = "c\<lparr>co_world := w2\<rparr>"
  have row2: "db_transfer (w_committed w2) x = Some (r\<lparr>xr_next := timestamptz n\<rparr>)"
    using w2(2) c1(2) set_transfer_row [OF row, of "\<lambda>r. r\<lparr>xr_next := timestamptz n\<rparr>"]
    by (simp add: reached_def)
  obtain w3 where w3: "on_ledger (recordLegSuccess x leg_no) ?c2 = (Inr (), ?c2\<lparr>co_world := w3\<rparr>)"
    "w_reads w3 = Suc (w_reads w2)" "reached w2 w3 (advanced x ?st (w_clock w2 (w_reads w2)) [] (w_committed w2))"
    using clock_advance_runs [where c = ?c2 and x = x and status = ?st and reason = "[]" and f = "\<lambda>t. t"] row2 w2(2)
    by (auto simp: recordLegSuccess_def reached_def)
  have "(if leg_no = 2 \<and> inl then consumeForwardCrashSimulation x else ret False) ?c1 = (Inr False, ?c1)"
    using crash by (auto simp: consumeForwardCrashSimulation_def)
  moreover have "consumeInjectedLegFault x leg_no ?c1 = (Inr False, ?c1)"
    using fault by (simp add: consumeInjectedLegFault_def no_fault)
  ultimately have "attemptLeg x leg_no inl c = (Inr (), c\<lparr>co_world := w3\<rparr>)"
    using w2(1) w3(1) leg
    by (simp add: attemptLeg_def bindE_def w1(1) attempt_def split del: if_split)
  moreover have "w_clock w3 = w_clock w2" using w3(3) by (simp add: reached_def same_run_def)
  moreover have "reached (co_world c) w3 (advanced x ?st (w_clock w2 (w_reads w2)) []
      (posted t a b (ts_Amount s) tid now k ?fp ?d))"
    using reached_trans [OF reached_trans [OF w1(2) w2(2)] w3(3)] w2(2) c1(2)
    by (simp add: reached_def advanced_def set_transfer_twice flip: set_transfer_posted)
  ultimately show ?thesis using w3(2) by (intro exI [of _ w3] exI [of _ tid] exI [of _ now]) auto
qed

section \<open>What an outcome leaves of a transfer\<close>

definition after_outcome :: "TransferState \<Rightarrow> string \<Rightarrow> time \<Rightarrow> string \<Rightarrow> TransferState" where
  "after_outcome s status t reason =
     s\<lparr>ts_Status := status, ts_NextAttemptAt := timestamptz t, ts_Reason := reason\<rparr>"

lemma after_outcome_movement [simp]:
  "legMovement (after_outcome s status t reason) l = legMovement s l"
  "ts_Amount (after_outcome s status t reason) = ts_Amount s"
  "reverseLeg1Movement (after_outcome s status t reason) u = reverseLeg1Movement s u"
  "ts_IdempotencyKey (after_outcome s status t reason) = ts_IdempotencyKey s"
  "ts_TenantID (after_outcome s status t reason) = ts_TenantID s"
  by (simp_all add: after_outcome_def legMovement_def reverseLeg1Movement_def)

lemma advanced_transfer:
  assumes "db_transfer d x = Some r" and "scanTransferState r = Inr s"
  obtains r' where "db_transfer (advanced x status t reason d) x = Some r'"
    and "scanTransferState r' = Inr (after_outcome s status t reason)"
    and "xr_status r' = status" and "xr_next r' = timestamptz t" and "xr_key r' = xr_key r"
proof -
  let ?r = "r\<lparr>xr_status := status, xr_next := timestamptz t, xr_reason := toNullableString reason\<rparr>"
  have "db_transfer (advanced x status t reason d) x = Some ?r"
    unfolding advanced_def by (rule set_transfer_row [OF assms(1)]) simp
  moreover have "scanTransferState ?r = Inr (after_outcome s status t reason)"
    using assms(2)
    by (auto simp: scanTransferState_def after_outcome_def Let_def split: option.splits sum.splits)
  ultimately show thesis using that by simp
qed

lemma advanced_sel [simp]:
  "accounts (advanced x status t reason d) = accounts d"
  "db_account (advanced x status t reason d) = db_account d"
  "db_key (advanced x status t reason d) = db_key d"
  "movable u a b m (advanced x status t reason d) = movable u a b m d"
  "transactions (advanced x status t reason d) = transactions d"
  by (simp_all add: advanced_def)

lemma advanced_posted:
  "advanced x status t reason (posted u a b m tid now k fp d) =
     posted u a b m tid now k fp (advanced x status t reason d)"
  by (simp add: advanced_def set_transfer_posted)

lemma advanced_advanced [simp]:
  "advanced x status t reason (advanced x status' t' reason' d) = advanced x status t reason d"
  by (simp add: advanced_def set_transfer_twice)

lemma posted_other_tenant:
  assumes "t \<noteq> u"
  shows "db_account (posted u a b m tid now k fp d) t i = db_account d t i"
    and "movable t a' b' m' (posted u a b m tid now k fp d) = movable t a' b' m' d"
proof -
  have keep: "db_account (posted u a b m tid now k fp d) t i = db_account d t i" for i
  proof -
    have "map_option (apply_delta u b (currency m) (minorUnits m) \<circ> apply_delta u a (currency m) (- minorUnits m))
        (db_account d t i) = db_account d t i"
      using assms
      by (cases "db_account d t i") (auto simp: apply_delta_def dest!: db_account_key)
    then show ?thesis
      by (simp add: db_account_def posted_def find_apply_delta map_option.compositionality del: map_map)
  qed
  then show "db_account (posted u a b m tid now k fp d) t i = db_account d t i" .
  show "movable t a' b' m' (posted u a b m tid now k fp d) = movable t a' b' m' d"
    by (simp add: movable_def keep)
qed

lemma due_now:
  assumes "ticking w" and "i < w_reads w" and "xr_status r = ''pending''"
    and "xr_next r = timestamptz (w_clock w i)"
  shows "claimable r (w_clock w (w_reads w))"
proof -
  have "w_clock w i \<le> w_clock w (w_reads w)" using assms(1,2) by (simp add: ticking_def)
  moreover have "timestamptz (w_clock w i) \<le> w_clock w i" by (simp add: timestamptz_def) 
  ultimately show ?thesis using assms(3,4) by (simp add: claimable_def)
qed

section \<open>The forward legs\<close>

definition payable :: "TransferState \<Rightarrow> int \<Rightarrow> db \<Rightarrow> bool" where
  "payable s leg_no d \<longleftrightarrow> (case legMovement s leg_no of
     Inl _ \<Rightarrow> False
   | Inr (a, b, t, k) \<Rightarrow> movable t a b (ts_Amount s) d \<and> a \<noteq> b \<and> db_key d k = None)"

definition leg_posted :: "TransferState \<Rightarrow> int \<Rightarrow> string \<Rightarrow> time \<Rightarrow> db \<Rightarrow> db" where
  "leg_posted s leg_no tid now d = (case legMovement s leg_no of
     Inl _ \<Rightarrow> d
   | Inr (a, b, t, k) \<Rightarrow> posted t a b (ts_Amount s) tid now k (legFingerprint a b (ts_Amount s)) d)"

definition uninjected :: "string \<Rightarrow> coordinator \<Rightarrow> bool" where
  "uninjected x c \<longleftrightarrow> (\<forall>l. read_count (co_legFaults c) (transferLegKey x l) \<le> 0) \<and>
     \<not> read_flag (co_skipForwardCrash c) x"

lemma after_outcome_payable [simp]:
  "payable (after_outcome s status t reason) l d = payable s l d"
  "leg_posted (after_outcome s status t reason) l tid now d = leg_posted s l tid now d"
  by (simp_all add: payable_def leg_posted_def split: sum.splits prod.splits)

lemma payable_advanced [simp]: "payable s l (advanced x status t reason d) = payable s l d"
  by (simp add: payable_def split: sum.splits prod.splits)

lemma leg_posted_advanced:
  "advanced x status t reason (leg_posted s l tid now d) = leg_posted s l tid now (advanced x status t reason d)"
  by (simp add: leg_posted_def advanced_posted split: sum.splits prod.splits)

lemma leg_posted_transfer [simp]: "db_transfer (leg_posted s l tid now d) = db_transfer d"
  by (simp add: leg_posted_def split: sum.splits prod.splits)

lemma attemptLeg_pays:
  assumes "steady (co_world c)" and "db_transfer (w_committed (co_world c)) x = Some r"
    and "scanTransferState r = Inr s"
    and "claimable r (w_clock (co_world c) (w_reads (co_world c)))"
    and "uninjected x c" and "payable s leg_no (w_committed (co_world c))"
  shows "\<exists>w tid now i. attemptLeg x leg_no inl c = (Inr (), c\<lparr>co_world := w\<rparr>) \<and> i < w_reads w \<and>
    reached (co_world c) w (advanced x (if leg_no = 3 then statusSettled else legPending) (w_clock w i) []
      (leg_posted s leg_no tid now (w_committed (co_world c))))"
proof -
  obtain a b t k where m: "legMovement s leg_no = Inr (a, b, t, k)"
    using assms(6) by (auto simp: payable_def split: sum.splits)
  with assms(6) have "movable t a b (ts_Amount s) (w_committed (co_world c))" "a \<noteq> b"
    "db_key (w_committed (co_world c)) k = None" by (auto simp: payable_def)
  from attemptLeg_posts [OF assms(1-4) _ _ m this, of inl] assms(5) show ?thesis
    by (auto simp: uninjected_def leg_posted_def m)
qed

text \<open>Leg 2 moves the platform's money, so leg 3 stays payable.\<close>

lemma leg3_after_leg2:
  assumes "payable s 3 d" and "ts_CounterpartyTenantID s \<noteq> platformTenantID"
  shows "payable s 3 (leg_posted s 2 tid now d)"
  using assms by (auto simp: payable_def leg_posted_def legMovement_def posted_other_tenant posted_key)

lemma uninjected_world [simp]: "uninjected x (c\<lparr>co_world := w\<rparr>) = uninjected x c"
  by (simp add: uninjected_def)

text \<open>Where leg 2 leaves the transfer, leg 3 can be claimed at once.\<close>

lemma after_leg2:
  assumes "reached u w (advanced x legPending (w_clock w i) [] (leg_posted s 2 tid now d))"
    and "i < w_reads w" and "db_transfer d x = Some r" and "scanTransferState r = Inr s"
  obtains r' t where "db_transfer (w_committed w) x = Some r'" and "xr_key r' = xr_key r"
    and "scanTransferState r' = Inr (after_outcome s legPending t [])" and "xr_status r' = legPending"
    and "\<And>v. same_run w v \<Longrightarrow> claimable r' (w_clock v (w_reads v))"
proof -
  have w: "steady w" "w_committed w = advanced x legPending (w_clock w i) [] (leg_posted s 2 tid now d)"
    using assms(1) by (simp_all add: reached_def)
  obtain r' where r': "db_transfer (w_committed w) x = Some r'" "xr_key r' = xr_key r"
    "scanTransferState r' = Inr (after_outcome s legPending (w_clock w i) [])"
    "xr_status r' = legPending" "xr_next r' = timestamptz (w_clock w i)"
    using advanced_transfer [of "leg_posted s 2 tid now d" x r s legPending "w_clock w i" "[]"] assms(3,4) w(2)
    by auto
  show thesis
  proof (rule that [OF r'(1,2,3,4)])
    fix v assume v: "same_run w v"
    then have "ticking v" "i < w_reads v" "w_clock v = w_clock w"
      using w(1) assms(2) ticking_same_run [OF v] by (auto simp: steady_def same_run_def)
    then show "claimable r' (w_clock v (w_reads v))"
      using due_now [of v i r'] r'(4,5) by (simp add: legPending_def)
  qed
qed

lemma forward_settles:
  assumes steady: "steady (co_world c)" and row: "db_transfer (w_committed (co_world c)) x = Some r"
    and scan: "scanTransferState r = Inr s"
    and due: "claimable r (w_clock (co_world c) (w_reads (co_world c)))"
    and un: "uninjected x c"
    and pay: "payable s 2 (w_committed (co_world c))" "payable s 3 (w_committed (co_world c))"
    and other: "ts_CounterpartyTenantID s \<noteq> platformTenantID"
  shows "\<exists>w t tid2 now2 tid3 now3. attemptForwardLegsFrom x 2 c = (Inr (), c\<lparr>co_world := w\<rparr>) \<and>
    reached (co_world c) w (advanced x statusSettled t []
      (leg_posted s 3 tid3 now3 (leg_posted s 2 tid2 now2 (w_committed (co_world c)))))"
proof -
  let ?d = "w_committed (co_world c)"
  obtain w2 tid2 now2 i where w2: "attemptLeg x 2 True c = (Inr (), c\<lparr>co_world := w2\<rparr>)" "i < w_reads w2"
    "reached (co_world c) w2 (advanced x legPending (w_clock w2 i) [] (leg_posted s 2 tid2 now2 ?d))"
    using attemptLeg_pays [OF steady row scan due un pay(1), of True] by auto
  obtain r' t where r': "db_transfer (w_committed w2) x = Some r'"
    "scanTransferState r' = Inr (after_outcome s legPending t [])"
    "\<And>v. same_run w2 v \<Longrightarrow> claimable r' (w_clock v (w_reads v))"
    using after_leg2 [OF w2(3,2) row scan] by metis
  have pay3: "payable s 3 (w_committed w2)"
    using leg3_after_leg2 [OF pay(2) other] w2(3) by (simp add: reached_def)
  let ?c2 = "c\<lparr>co_world := w2\<rparr>"
  obtain w3 tid3 now3 j where w3: "attemptLeg x 3 True ?c2 = (Inr (), ?c2\<lparr>co_world := w3\<rparr>)"
    "reached w2 w3 (advanced x statusSettled (w_clock w3 j) [] (leg_posted s 3 tid3 now3 (w_committed w2)))"
    using attemptLeg_pays [of ?c2 x r' "after_outcome s legPending t []" 3 True] r'(1,2) r'(3) [of w2] un pay3 w2(3)
    by (auto simp: reached_def)
  have "attemptForwardLegsFrom x 2 c = (Inr (), c\<lparr>co_world := w3\<rparr>)"
    using w3(1) by (simp add: attemptForwardLegsFrom_def bindE_def attempt_def w2(1))
  moreover have "reached (co_world c) w3 (advanced x statusSettled (w_clock w3 j) []
      (leg_posted s 3 tid3 now3 (leg_posted s 2 tid2 now2 ?d)))"
    using reached_trans [OF w2(3) w3(2)] w2(3) by (simp add: reached_def leg_posted_advanced)
  ultimately show ?thesis by blast
qed

end
