(* ===== verification/SendProps.thy ===== *)
theory SendProps
  imports CalmSaga
begin

text \<open>
  Sending a cross-tenant transfer in a steady world: the counterparty is resolved, the
  settlement and mirror accounts are there afterwards, leg 1 is posted and the transfer is
  recorded as pending; and a second request under the same key.
\<close>

section \<open>An open unit of work in a quiet world\<close>

text \<open>\<open>open_at u d\<close>: whatever the unit of work has done so far, it sees \<open>d\<close> and will go on seeing it.\<close>

definition open_at :: "world \<Rightarrow> db \<Rightarrow> bool" where
  "open_at u d \<longleftrightarrow> quiet u \<and> w_db u = d \<and> (\<not> pending u \<longrightarrow> w_committed u = d)"

definition runs_to :: "'a uow \<Rightarrow> db \<Rightarrow> 'a \<Rightarrow> db \<Rightarrow> bool" where
  "runs_to m d x d' \<longleftrightarrow> (\<forall>u. open_at u d \<longrightarrow> (\<exists>u'. m u = (Inr x, u') \<and> open_at u' d'))"

lemma runs_to_bind:
  "runs_to m d x d' \<Longrightarrow> runs_to (f x) d' y d'' \<Longrightarrow> runs_to (bindE m f) d y d''"
  by (fastforce simp: runs_to_def bindE_def)

lemma runs_to_ret: "runs_to (ret x) d x d"
  by (simp add: runs_to_def ret_def)

lemma runs_to_decide: "r = Inr x \<Longrightarrow> runs_to (decide r) d x d"
  by (simp add: runs_to_def decide_def ret_def)

lemma runs_to_attempt: "runs_to m d x d' \<Longrightarrow> runs_to (attempt m) d (Inr x) d'"
  by (fastforce simp: runs_to_def attempt_def)

lemma open_turn:
  assumes "open_at u d"
  shows "open_at ((turn u)\<lparr>w_ops := n\<rparr>) d" and "w_faults u k = NoFault" and "w_db (turn u) = d"
  using assms
  by (auto simp: open_at_def turn_def pending_def quiet_def faulty_def Let_def)

lemma runs_to_query: "runs_to (query f) d (f d) d"
  unfolding runs_to_def query_def statement_def Let_def
  using open_turn by auto

lemma runs_to_command:
  assumes "f d = Inr (x, d')"
  shows "runs_to (command f) d x d'"
  unfolding runs_to_def
proof (intro allI impI)
  fix u assume u: "open_at u d"
  let ?v = "(turn u)\<lparr>w_ops := Suc (w_ops u)\<rparr>"
  have "open_at (?v\<lparr>w_db := d', w_dirty := True\<rparr>) d'"
    using open_turn(1) [OF u, of "Suc (w_ops u)"] by (simp add: open_at_def pending_def quiet_def faulty_def)
  then show "\<exists>u'. command f u = (Inr x, u') \<and> open_at u' d'"
    using assms open_turn(2,3) [OF u] by (simp add: command_def statement_def Let_def)
qed

lemma runs_to_withUnitOfWork:
  assumes "quiet w" and "runs_to m (w_committed w) x d'"
  shows "\<exists>w'. withUnitOfWork m w = (Inr x, w') \<and> w_committed w' = d'"
proof -
  let ?u = "w\<lparr>w_ops := Suc (w_ops w), w_db := w_committed w, w_locks := [], w_dirty := False\<rparr>"
  have "open_at ?u (w_committed w)" using assms(1) by (simp add: open_at_def quiet_def faulty_def)
  then obtain u where u: "m ?u = (Inr x, u)" "open_at u d'" using assms(2) by (auto simp: runs_to_def)
  have "w_faults u (w_ops u) = NoFault" using u(2) by (simp add: open_at_def quiet_def faulty_def)
  then show ?thesis
    using u quiet_steps(1) [OF assms(1)]
    by (simp add: withUnitOfWork_def bindE_def Begin_def Commit_def Let_def open_at_def)
qed

section \<open>The accounts of a transfer\<close>

definition ensured :: "string \<Rightarrow> string \<Rightarrow> db \<Rightarrow> db" where
  "ensured t i d = (if account_exists d t i then d
     else d\<lparr>accounts := accounts d @ [\<lparr>ar_tenant = t, ar_id = i, ar_kind = System, ar_balance = 0,
              ar_currency = ledgerCurrency\<rparr>]\<rparr>)"

lemma ensured_sel [simp]:
  "tenants (ensured t i d) = tenants d" "tenant_exists (ensured t i d) u = tenant_exists d u"
  "transactions (ensured t i d) = transactions d" "idempotency_keys (ensured t i d) = idempotency_keys d"
  "transfer_states (ensured t i d) = transfer_states d" "tenant_links (ensured t i d) = tenant_links d"
  "counterparty_aliases (ensured t i d) = counterparty_aliases d" "db_key (ensured t i d) = db_key d"
  "entries (ensured t i d) = entries d"
  by (simp_all add: ensured_def tenant_exists_def db_tenant_def db_key_def fun_eq_iff)

lemma ensured_insert:
  assumes "\<not> account_exists d t i" and "tenant_exists d t"
  shows "insert_account \<lparr>ar_tenant = t, ar_id = i, ar_kind = System, ar_balance = 0, ar_currency = ledgerCurrency\<rparr> d =
    Inr ((), ensured t i d)"
  using assms by (simp add: insert_account_def ensured_def)

lemma ensured_books:
  assumes "books d" and "tenant_exists d t" and "t \<noteq> []"
  shows "books (ensured t i d)"
proof (cases "account_exists d t i")
  case False
  have "commit_step d (ensured t i d)"
    by (rule commit_step.step_account [OF ensured_insert [OF False assms(2)]]) (use assms(3) in simp_all)
  then show ?thesis using books.steps assms(1) by blast
qed (use assms(1) in \<open>simp add: ensured_def\<close>)

lemma runs_to_ensureAccount:
  assumes "books d" and "tenant_exists d t" and "t \<noteq> []"
  shows "runs_to (ensureAccount t i) d () (ensured t i d)"
proof (cases "db_account d t i")
  case None
  let ?r = "\<lparr>ar_tenant = t, ar_id = i, ar_kind = System, ar_balance = 0, ar_currency = ledgerCurrency\<rparr>"
  let ?a = "\<lparr>acct_id = i, acct_kind = System, acct_balance = \<lparr>minorUnits = 0, currency = ledgerCurrency\<rparr>,
      acct_tenantID = t\<rparr>"
  have no: "\<not> account_exists d t i" using None by (simp add: account_exists_def)
  have get: "\<exists>u'. attempt (accounts_Get t i) u = (Inr (Inl (ErrViolation (NewUnknownAccount i))), u') \<and> open_at u' d"
    if u: "open_at u d" for u
  proof -
    obtain u' where "query (\<lambda>d. db_account d t i) u = (Inr None, u')" "open_at u' d"
      using runs_to_query [of "\<lambda>d. db_account d t i" d] u None by (auto simp: runs_to_def)
    then show ?thesis by (simp add: attempt_def accounts_Get_def bindE_def throw_def)
  qed
  have z: "zeroMoney ledgerCurrency = Inr \<lparr>minorUnits = 0, currency = ledgerCurrency\<rparr>"
    by (simp add: zeroMoney_def NewMoney_eq ledgerCurrency_def)
  have a: "NewAccount t i System \<lparr>minorUnits = 0, currency = ledgerCurrency\<rparr> = Inr ?a"
    using assms(3) by (simp add: NewAccount_def)
  have c: "\<exists>u'. accounts_Create t ?a u = (Inr (), u') \<and> open_at u' (ensured t i d)" if "open_at u d" for u
    using runs_to_command [of "insert_account ?r" d "()" "ensured t i d"] ensured_insert [OF no assms(2)] that
    by (auto simp: runs_to_def accounts_Create_def)
  show ?thesis unfolding runs_to_def
  proof (intro allI impI)
    fix u assume "open_at u d"
    then obtain u1 where "attempt (accounts_Get t i) u = (Inr (Inl (ErrViolation (NewUnknownAccount i))), u1)"
      "open_at u1 d" using get by blast
    moreover from this obtain u2 where "accounts_Create t ?a u1 = (Inr (), u2)" "open_at u2 (ensured t i d)"
      using c by blast
    ultimately show "\<exists>u'. ensureAccount t i u = (Inr (), u') \<and> open_at u' (ensured t i d)"
      by (simp add: ensureAccount_def bindE_def is_violation_def decide_def ret_def z a NewUnknownAccount_def NewViolation_def)
  qed
next
  case (Some r)
  have "runs_to (accounts_Get t i) d (the (found_account d t i)) d"
    unfolding accounts_Get_def
    by (rule runs_to_bind [OF runs_to_query]) (simp add: Some runs_to_decide [OF books_scanAccount [OF assms(1) Some]])
  then have "runs_to (attempt (accounts_Get t i)) d (Inr (the (found_account d t i))) d" by (rule runs_to_attempt)
  then have "runs_to (ensureAccount t i) d () d"
    unfolding ensureAccount_def by (rule runs_to_bind) (simp add: runs_to_ret)
  then show ?thesis using Some by (simp add: ensured_def account_exists_def)
qed

section \<open>Sending\<close>

definition provisioned :: "string \<Rightarrow> string \<Rightarrow> db \<Rightarrow> db" where
  "provisioned t ct d =
     ensured platformTenantID (platformMirrorAccountID ct) (ensured ct settlementAccountName
       (ensured platformTenantID (platformMirrorAccountID t) (ensured t settlementAccountName d)))"

text \<open>The alias resolves: it is registered, and its link is active.\<close>

definition resolves :: "string \<Rightarrow> string \<Rightarrow> string \<times> string \<Rightarrow> db \<Rightarrow> bool" where
  "resolves t al counterparty d \<longleftrightarrow> (case db_alias d t al of
     None \<Rightarrow> False
   | Some a \<Rightarrow> counterparty = (al_target_tenant a, al_target_account a) \<and>
       (case db_link d (al_link a) of None \<Rightarrow> False | Some l \<Rightarrow> lr_status l = TenantLinkActive))"

lemma runs_to_links_ByID:
  assumes "db_link d i = Some l" and "lr_status l = TenantLinkActive"
  shows "\<exists>link. link_status link = TenantLinkActive \<and> runs_to (links_ByID i) d link d"
proof -
  obtain link where link: "reconstructTenantLink (lr_id l) (lr_a l) (lr_b l) (lr_status l) = Inr link"
    "link_status link = TenantLinkActive"
    using assms(2) by (cases "canonicalizePair (lr_a l) (lr_b l)") (simp add: reconstructTenantLink_eq)
  have "runs_to (links_ByID i) d link d"
    unfolding links_ByID_def
    by (rule runs_to_bind [OF runs_to_query]) (simp add: assms(1) runs_to_decide [OF link(1)])
  then show ?thesis using link(2) by blast
qed

lemma runs_to_prepare:
  assumes "books d" and tenants: "tenant_exists d t" "tenant_exists d ct" "tenant_exists d platformTenantID"
    and names: "t \<noteq> []" "ct \<noteq> []" and res: "resolves t al (ct, target) d"
    and quiet: "quiet w" and d: "w_committed w = d"
  shows "\<exists>w'. prepareTransfer t al w = (Inr (ct, target), w') \<and> w_committed w' = provisioned t ct d"
proof -
  obtain a l where a: "db_alias d t al = Some a" "al_target_tenant a = ct" "al_target_account a = target"
    and l: "db_link d (al_link a) = Some l" "lr_status l = TenantLinkActive"
    using res by (auto simp: resolves_def split: option.splits)
  have key: "al_tenant a = t" "al_alias a = al"
    using a(1) by (auto simp: db_alias_def alias_key_def dest: find_Some_memD)
  let ?a = "\<lparr>ca_tenantID = t, ca_alias = al, ca_tenantLinkID = al_link a,
      ca_targetTenantID = ct, ca_targetAccountID = target\<rparr>"
  have rec: "reconstructCounterpartyAlias (al_tenant a) (al_alias a) (al_link a) (al_target_tenant a)
      (al_target_account a) = Inr ?a"
    by (simp add: reconstructCounterpartyAlias_eq key a(2,3))
  have byAlias: "runs_to (aliases_ByTenantAndAlias t al) d (Some ?a) d"
    unfolding aliases_ByTenantAndAlias_def
    by (rule runs_to_bind [OF runs_to_query])
       (simp only: a(1) option.case, rule runs_to_bind [OF runs_to_decide [OF rec]], rule runs_to_ret)
  obtain link where link: "link_status link = TenantLinkActive" "runs_to (links_ByID (al_link a)) d link d"
    using runs_to_links_ByID [OF l] by blast
  have snap: "runs_to (linkSnapshotFor (Some ?a)) d (Some link) d"
    unfolding linkSnapshotFor_def option.case CounterpartyAlias.simps
    by (rule runs_to_bind [OF runs_to_attempt [OF link(2)]]) (simp add: runs_to_ret)
  have dec: "runs_to (decide (resolve_snapshots t al (Some ?a) (Some link))) d (ct, target) d"
    by (rule runs_to_decide) (simp add: resolve_snapshots_def ResolveCounterparty_def link(1))
  let ?d1 = "ensured t settlementAccountName d"
  let ?d2 = "ensured platformTenantID (platformMirrorAccountID t) ?d1"
  let ?d3 = "ensured ct settlementAccountName ?d2"
  have p: "platformTenantID \<noteq> []" by (simp add: platformTenantID_def)
  have b1: "books ?d1" by (rule ensured_books) (use assms in simp_all)
  have b2: "books ?d2" by (rule ensured_books) (use b1 tenants p in simp_all)
  have b3: "books ?d3" by (rule ensured_books) (use b2 tenants names in simp_all)
  have "runs_to (bindE (aliases_ByTenantAndAlias t al) (\<lambda>aliasSnapshot.
        bindE (linkSnapshotFor aliasSnapshot) (\<lambda>linkSnapshot.
        bindE (decide (resolve_snapshots t al aliasSnapshot linkSnapshot))
          (\<lambda>(counterpartyTenantID, targetAccountID).
        bindE (ensureSettlementAccount t) (\<lambda>_.
        bindE (ensurePlatformMirrorAccount t) (\<lambda>_.
        bindE (ensureSettlementAccount counterpartyTenantID) (\<lambda>_.
        bindE (ensurePlatformMirrorAccount counterpartyTenantID) (\<lambda>_.
          ret (counterpartyTenantID, targetAccountID)))))))) ) d (ct, target) (provisioned t ct d)"
    unfolding provisioned_def ensureSettlementAccount_def ensurePlatformMirrorAccount_def
    apply (rule runs_to_bind [OF byAlias], rule runs_to_bind [OF snap], rule runs_to_bind [OF dec])
    apply (simp only: prod.case)
    apply (rule runs_to_bind [OF runs_to_ensureAccount [OF assms(1) tenants(1) names(1)]])
    apply (rule runs_to_bind [OF runs_to_ensureAccount [OF b1 _ p]], simp add: tenants)
    apply (rule runs_to_bind [OF runs_to_ensureAccount [OF b2 _ names(2)]], simp add: tenants)
    apply (rule runs_to_bind [OF runs_to_ensureAccount [OF b3 _ p]], simp add: tenants)
    apply (rule runs_to_ret)
    done
  then show ?thesis unfolding prepareTransfer_def
    by (intro runs_to_withUnitOfWork [OF quiet]) (simp only: d)
qed

definition recorded :: "TransferState \<Rightarrow> db \<Rightarrow> db" where
  "recorded s d = d\<lparr>transfer_states := transfer_states d @ [transfer_to_row s]\<rparr>"

lemma recorded_books: "books (recorded s d) = books d"
  unfolding recorded_def books_def schema_def references_def balanced_def derived_def entry_total_def
    floored_def single_currency_def transaction_exists_def account_exists_def db_account_def
    tenant_exists_def db_tenant_def by simp

lemma createTransferState_runs:
  assumes "quiet w" and "db_transfer (w_committed w) (ts_TransferID s) = None"
    and "\<forall>r \<in> set (transfer_states (w_committed w)). (xr_tenant r, xr_key r) \<noteq> (ts_TenantID s, ts_IdempotencyKey s)"
    and "tenant_exists (w_committed w) (ts_TenantID s)" and "tenant_exists (w_committed w) (ts_CounterpartyTenantID s)"
  shows "\<exists>w'. createTransferState s w = (Inr (), w') \<and> w_committed w' = recorded s (w_committed w)"
proof -
  have "insert_transfer (transfer_to_row s) (w_committed w) = Inr ((), recorded s (w_committed w))"
    using assms(2-5) by (auto simp: insert_transfer_def transfer_to_row_def recorded_def toNullableString_def)
  then show ?thesis unfolding createTransferState_def transfers_Create_def
    by (rule runs_to_withUnitOfWork [OF assms(1) runs_to_command])
qed

lemma existingTransfer_none:
  assumes "quiet w"
    and "\<forall>r \<in> set (transfer_states (w_committed w)). (xr_tenant r, xr_key r) \<noteq> (t, k)"
  shows "\<exists>w'. existingTransfer t k w = (Inr None, w') \<and> w_committed w' = w_committed w"
proof -
  have none: "List.find (\<lambda>r. xr_tenant r = t \<and> xr_key r = k) (transfer_states (w_committed w)) = None"
    using assms(2) by (auto simp: find_None_ball)
  have "runs_to (ByTenantAndIdempotencyKey t k) (w_committed w) None (w_committed w)"
    unfolding ByTenantAndIdempotencyKey_def
    by (rule runs_to_bind [OF runs_to_query]) (simp add: none scan_found_def runs_to_ret)
  then show ?thesis unfolding existingTransfer_def by (rule runs_to_withUnitOfWork [OF assms(1)])
qed

text \<open>A second request under the key is answered from the record.\<close>

lemma SendTransfer_again:
  assumes "quiet w"
    and "List.find (\<lambda>r. xr_tenant r = t \<and> xr_key r = k) (transfer_states (w_committed w)) = Some r"
    and "scanTransferState r = Inr s"
  shows "\<exists>w'. SendTransfer t al m k fp w =
      (Inr (leg1_view (ts_TransferID s) (ts_Status s), False), w') \<and> w_committed w' = w_committed w"
proof -
  have "runs_to (ByTenantAndIdempotencyKey t k) (w_committed w) (Some s) (w_committed w)"
    unfolding ByTenantAndIdempotencyKey_def
    by (rule runs_to_bind [OF runs_to_query])
       (simp only: assms(2) scan_found_def option.case,
        rule runs_to_bind [OF runs_to_decide [OF assms(3)]], rule runs_to_ret)
  from runs_to_withUnitOfWork [OF assms(1) this]
  obtain w' where w': "existingTransfer t k w = (Inr (Some s), w')" "w_committed w' = w_committed w"
    unfolding existingTransfer_def by blast
  then show ?thesis by (simp add: SendTransfer_def bindE_def ret_def)
qed

lemma recorded_sel [simp]: "transactions (recorded s d) = transactions d"
  by (simp add: recorded_def)

lemma SendTransfer_sends:
  fixes d :: db and ct target t k :: string and m :: Money
  assumes steady: "steady w" and d: "w_committed w = d"
    and new: "\<forall>r \<in> set (transfer_states d). (xr_tenant r, xr_key r) \<noteq> (t, k)"
    and fresh: "\<And>n. db_transfer d (''xfr_'' @ w_ids w n) = None"
    and tenants: "tenant_exists d t" "tenant_exists d ct" "tenant_exists d platformTenantID"
    and names: "t \<noteq> []" "ct \<noteq> []" and res: "resolves t al (ct, target) d"
    and wallet: "sender_wallet (w_collate w) t (provisioned t ct d) = Inr u"
    and mv: "movable t u settlementAccountName m (provisioned t ct d)" and us: "u \<noteq> settlementAccountName"
    and free: "db_key d k = None"
  shows "\<exists>w' i now tid now1. SendTransfer t al m k fp w =
      (Inr (leg1_view (''xfr_'' @ i) legPending, True), w') \<and>
    reached w w' (recorded (newTransferState (''xfr_'' @ i) t k now (ct, target) m)
      (posted t u settlementAccountName m tid now1 k fp (provisioned t ct d))) \<and>
    (\<exists>j < w_reads w'. now = w_clock w' j) \<and> i \<in> range (w_ids w)"
proof -
  let ?d' = "provisioned t ct d"
  have q: "quiet w" and b: "books d" using steadyD [OF steady] d by simp_all
  have sel: "transactions ?d' = transactions d" "transfer_states ?d' = transfer_states d"
    "tenant_exists ?d' = tenant_exists d" "db_key ?d' = db_key d"
    by (simp_all add: provisioned_def fun_eq_iff)
  obtain w1 where w1: "existingTransfer t k w = (Inr None, w1)" "w_committed w1 = w_committed w"
    using existingTransfer_none [OF q, of t k] new d by auto
  have r1: "reached w w1 d"
    by (rule reachedI [OF refines_existingTransfer steady w1(1)]) (use w1(2) d in simp_all)
  then have s1: "steady w1" "w_committed w1 = d" by (simp_all add: reached_def)
  obtain w2 where w2: "prepareTransfer t al w1 = (Inr (ct, target), w2)" "w_committed w2 = ?d'"
    using runs_to_prepare [OF b tenants names res steadyD(1) [OF s1(1)] s1(2)] by blast
  have r2: "reached w1 w2 ?d'"
    by (rule reachedI [OF refines_prepareTransfer s1(1) w2]) (simp add: sel s1(2))
  then have s2: "steady w2" "w_collate w2 = w_collate w"
    using r1 by (simp_all add: reached_def same_run_def)
  obtain w3 where w3: "walletAccountID t w2 = (Inr u, w3)" "w_committed w3 = w_committed w2"
    using walletAccountID_runs [OF s2(1), of t] wallet w2(2) s2(2) by auto
  have r3: "reached w2 w3 ?d'"
    by (rule reachedI [OF refines_walletAccountID s2(1) w3(1)]) (use w2(2) w3(2) in simp_all)
  then have s3: "steady w3" "w_committed w3 = ?d'" by (simp_all add: reached_def)
  let ?cmd = "\<lparr>req_From = u, req_To = settlementAccountName, req_Amount = m,
     req_IdempotencyKey = k, req_Fingerprint = fp, req_TenantID = t\<rparr>"
  obtain res tid now1 w4 where w4: "PostTransfer ?cmd w3 = (Inr res, w4)"
    "reached w3 w4 (posted t u settlementAccountName m tid now1 k fp ?d')"
    using PostTransfer_steady [OF s3(1), of ?cmd] mv us free s3(2) by (auto simp: sel)
  let ?d4 = "posted t u settlementAccountName m tid now1 k fp ?d'"
  have s4: "steady w4" "w_committed w4 = ?d4" using w4(2) by (simp_all add: reached_def)
  let ?i = "w_ids w4 (w_minted w4)" and ?now = "w_clock w4 (w_reads w4)"
  let ?w5 = "w4\<lparr>w_minted := Suc (w_minted w4), w_reads := Suc (w_reads w4)\<rparr>"
  let ?s = "newTransferState (''xfr_'' @ ?i) t k ?now (ct, target) m"
  have r14: "same_run w w4" using reached_trans [OF reached_trans [OF reached_trans [OF r1 r2] r3] w4(2)]
    by (simp add: reached_def)
  then have i: "?i = w_ids w (w_minted w4)" by (simp add: same_run_def)
  have s5: "steady ?w5" using s4(1) by (simp add: steady_def quiet_def faulty_def ticking_def fresh_ids_def)
  have post4: "tenant_exists ?d4 = tenant_exists d" "transfer_states ?d4 = transfer_states d"
    using sel by (simp_all add: posted_def tenant_exists_def db_tenant_def fun_eq_iff)
  obtain w6 where w6: "createTransferState ?s ?w5 = (Inr (), w6)" "w_committed w6 = recorded ?s ?d4"
    using createTransferState_runs [of ?w5 ?s] steadyD(1) [OF s5] s4(2) post4 new tenants fresh i
    by (auto simp: newTransferState_def db_transfer_def)
  have r6: "reached ?w5 w6 (recorded ?s ?d4)"
    by (rule reachedI [OF refines_createTransferState [OF typed_newTransferState unsettled_newTransferState] s5 w6]) (simp add: s4(2))
  then have "reached w4 w6 (recorded ?s ?d4)" by (auto simp: reached_def same_run_def)
  with reached_trans [OF reached_trans [OF reached_trans [OF r1 r2] r3] w4(2)]
  have "reached w w6 (recorded ?s ?d4)" using reached_trans by blast
  moreover have "SendTransfer t al m k fp w = (Inr (leg1_view (''xfr_'' @ ?i) legPending, True), w6)"
    using w6(1) by (simp add: SendTransfer_def bindE_def w1(1) w2(1) w3(1) w4(1) nextID_def clock_def ret_def)
  moreover have "?i \<in> range (w_ids w)" using i by simp
  moreover have "w_reads w4 < w_reads w6" "?now = w_clock w6 (w_reads w4)"
    using r6 by (auto simp: reached_def same_run_def)
  ultimately show ?thesis by blast
qed

end
