(* ===== verification/SagaProps.thy ===== *)
theory SagaProps
  imports CalmSaga
begin

text \<open>
  Failed attempts: the backoff, the compensation after the fifth failure, the reversal of
  leg 1, and two runs the code does not mean: a lost claim taken for a posted leg, and a
  scheduled reversal that meets a settled transfer.
\<close>

section \<open>A lost claim\<close>

lemma lost_claim:
  assumes steady: "steady (co_world c)" and row: "db_transfer (w_committed (co_world c)) x = Some r"
    and scan: "scanTransferState r = Inr s"
    and status: "xr_status r = ''pending'' \<or> xr_status r = ''retrying''"
    and early: "w_clock (co_world c) (w_reads (co_world c)) < xr_next r"
  shows "\<exists>w. attemptLeg x l inl c = (Inr (), c\<lparr>co_world := w\<rparr>) \<and>
    reached (co_world c) w (w_committed (co_world c)) \<and> w_reads w = Suc (w_reads (co_world c))"
proof -
  obtain w where w: "claimTransfer x (co_world c) = (Inr None, w)" "w_committed w = w_committed (co_world c)"
    "w_reads w = Suc (w_reads (co_world c))"
    using claim_too_early [OF steady row scan status early] by blast
  have "reached (co_world c) w (w_committed (co_world c))"
    by (rule reachedI [OF refines_claimTransfer steady w(1,2)]) simp
  then show ?thesis using w(3) by (auto simp: attemptLeg_def bindE_def on_ledger_eq w(1))
qed

lemma lost_claim_settles:
  assumes steady: "steady (co_world c)" and row: "db_transfer (w_committed (co_world c)) x = Some r"
    and scan: "scanTransferState r = Inr s"
    and status: "xr_status r = ''pending'' \<or> xr_status r = ''retrying''"
    and early: "w_clock (co_world c) (w_reads (co_world c)) < xr_next r"
    and soon: "xr_next r \<le> w_clock (co_world c) (Suc (w_reads (co_world c)))"
    and un: "uninjected x c" and pay: "payable s 3 (w_committed (co_world c))"
  shows "\<exists>w t tid now. attemptForwardLegsFrom x 2 c = (Inr (), c\<lparr>co_world := w\<rparr>) \<and>
    reached (co_world c) w (advanced x statusSettled t [] (leg_posted s 3 tid now (w_committed (co_world c))))"
proof -
  obtain w1 where w1: "attemptLeg x 2 True c = (Inr (), c\<lparr>co_world := w1\<rparr>)"
    "reached (co_world c) w1 (w_committed (co_world c))" "w_reads w1 = Suc (w_reads (co_world c))"
    using lost_claim [OF steady row scan status early] by blast
  have "claimable r (w_clock w1 (w_reads w1))"
    using status soon w1(2,3) by (simp add: claimable_def reached_def same_run_def)
  then obtain w tid now i where w: "attemptLeg x 3 True (c\<lparr>co_world := w1\<rparr>) = (Inr (), c\<lparr>co_world := w\<rparr>)"
    "reached w1 w (advanced x statusSettled (w_clock w i) [] (leg_posted s 3 tid now (w_committed w1)))"
    using attemptLeg_pays [of "c\<lparr>co_world := w1\<rparr>" x r s 3 True] row scan un pay w1(2)
    by (auto simp: reached_def)
  have "attemptForwardLegsFrom x 2 c = (Inr (), c\<lparr>co_world := w\<rparr>)"
    using w(1) by (simp add: attemptForwardLegsFrom_def bindE_def attempt_def w1(1))
  then show ?thesis using reached_trans [OF w1(2) w(2)] w1(2) by (auto simp: reached_def)
qed

section \<open>A failed attempt\<close>

lemma fault_fires:
  assumes "0 < read_count (co_legFaults c) k"
  shows "\<exists>F. consumeFault k c = (Inr True, c\<lparr>co_legFaults := F\<rparr>) \<and>
    (\<forall>j. read_count F j = (if j = k then read_count (co_legFaults c) j - 1 else read_count (co_legFaults c) j))"
proof -
  let ?n = "read_count (co_legFaults c) k"
  let ?F = "if ?n - 1 \<le> 0 then (co_legFaults c)(k := None) else (co_legFaults c)(k \<mapsto> ?n - 1)"
  have "consumeFault k c = (Inr True, c\<lparr>co_legFaults := ?F\<rparr>)"
    using assms by (simp add: consumeFault_def Let_def)
  moreover have "read_count ?F j = (if j = k then read_count (co_legFaults c) j - 1 else read_count (co_legFaults c) j)" for j
    using assms by (auto simp: read_count_def)
  ultimately show ?thesis by blast
qed

text \<open>An attempt whose posting fails reaches the failure handler with the lease taken.\<close>

lemma attemptLeg_fails:
  assumes steady: "steady (co_world c)" and row: "db_transfer (w_committed (co_world c)) x = Some r"
    and scan: "scanTransferState r = Inr s"
    and due: "claimable r (w_clock (co_world c) (w_reads (co_world c)))"
    and crash: "\<not> (leg_no = 2 \<and> inl \<and> read_flag (co_skipForwardCrash c) x)"
    and leg: "legMovement s leg_no = Inr m"
    and fault: "0 < read_count (co_legFaults c) (transferLegKey x leg_no)"
  shows "\<exists>w n F. attemptLeg x leg_no inl c =
      handleLegFailure x leg_no (s\<lparr>ts_NextAttemptAt := n\<rparr>) ErrSimulatedTransientFault inl
        (c\<lparr>co_world := w, co_legFaults := F\<rparr>) \<and>
    n = w_clock (co_world c) (Suc (w_reads (co_world c))) + claimLeaseDuration \<and>
    w_reads w = Suc (Suc (w_reads (co_world c))) \<and>
    (\<forall>j. read_count F j = (if j = transferLegKey x leg_no then read_count (co_legFaults c) j - 1
                            else read_count (co_legFaults c) j)) \<and>
    reached (co_world c) w (set_transfer x (\<lambda>r. r\<lparr>xr_next := timestamptz n\<rparr>) (w_committed (co_world c)))"
proof -
  obtain w n where w: "on_ledger (claimTransfer x) c = (Inr (Some (s\<lparr>ts_NextAttemptAt := n\<rparr>)), c\<lparr>co_world := w\<rparr>)"
    "n = w_clock (co_world c) (Suc (w_reads (co_world c))) + claimLeaseDuration"
    "w_reads w = Suc (Suc (w_reads (co_world c)))"
    "reached (co_world c) w (set_transfer x (\<lambda>r. r\<lparr>xr_next := timestamptz n\<rparr>) (w_committed (co_world c)))"
    using claim_runs [OF steady row scan due] by blast
  let ?c1 = "c\<lparr>co_world := w\<rparr>"
  obtain F where F: "consumeFault (transferLegKey x leg_no) ?c1 = (Inr True, ?c1\<lparr>co_legFaults := F\<rparr>)"
    "\<forall>j. read_count F j = (if j = transferLegKey x leg_no then read_count (co_legFaults c) j - 1
                            else read_count (co_legFaults c) j)"
    using fault_fires [of ?c1 "transferLegKey x leg_no"] fault by auto
  have "(if leg_no = 2 \<and> inl then consumeForwardCrashSimulation x else ret False) ?c1 = (Inr False, ?c1)"
    using crash by (auto simp: consumeForwardCrashSimulation_def)
  then have "attemptLeg x leg_no inl c =
      handleLegFailure x leg_no (s\<lparr>ts_NextAttemptAt := n\<rparr>) ErrSimulatedTransientFault inl
        (?c1\<lparr>co_legFaults := F\<rparr>)"
    using leg F(1)
    by (simp add: attemptLeg_def bindE_def w(1) attempt_def consumeInjectedLegFault_def split del: if_split)
  then show ?thesis using w(2-4) F(2) by (intro exI [of _ w] exI [of _ n] exI [of _ F]) simp
qed

text \<open>Within the budget the leg is scheduled again, once its backoff is over.\<close>

lemma handleLegFailure_retries:
  fixes x :: string and leg_no :: int
  defines "k \<equiv> transferLegKey x leg_no"
  assumes steady: "steady (co_world c)" and row: "db_transfer (w_committed (co_world c)) x = Some r"
    and ok: "backoffForAttempt (read_count (co_counts c) k + 1) (co_draws c (co_drawn c)) = (delay, True)"
  shows "\<exists>w. handleLegFailure x leg_no s e inl c = (Inl e, c\<lparr>co_world := w,
      co_counts := (co_counts c)(k \<mapsto> read_count (co_counts c) k + 1), co_drawn := Suc (co_drawn c),
      co_spawned := co_spawned c @ [(delay, ForwardLegsFrom x leg_no)]\<rparr>) \<and>
    reached (co_world c) w (advanced x statusRetrying (w_clock (co_world c) (w_reads (co_world c)) + delay) []
      (w_committed (co_world c)))"
proof -
  let ?w = "co_world c" and ?now = "w_clock (co_world c) (w_reads (co_world c))"
  let ?u = "?w\<lparr>w_reads := Suc (w_reads ?w)\<rparr>"
  obtain w where w: "advanceAfterLegOutcome x statusRetrying (?now + delay) [] ?u = (Inr (), w)" "same_run ?u w"
    "w_committed w = set_transfer x (\<lambda>r. r\<lparr>xr_status := statusRetrying, xr_next := timestamptz (?now + delay),
      xr_reason := toNullableString []\<rparr>) (w_committed ?w)"
    using advance_runs [of ?u x r statusRetrying "?now + delay" "[]"] steady row by auto
  have "reached ?u w (advanced x statusRetrying (?now + delay) [] (w_committed ?w))"
    using reached_set_transfer [OF _ w(2)] steady w(3) by (simp add: advanced_def)
  then have "reached ?w w (advanced x statusRetrying (?now + delay) [] (w_committed ?w))"
    by (auto simp: reached_def same_run_def)
  then show ?thesis
    using ok w(1) unfolding k_def
    by (intro exI [of _ w]) (simp add: handleLegFailure_def recordFailedAttempt_def record_failure_def
        rand_Float64_def bindE_def on_ledger_eq clock_def scheduleRetry_def spawn_def Let_def)
qed

section \<open>The reversal of leg 1\<close>

lemma reads_reached:
  assumes "refines m" and "steady w" and "m w = (r, w')" and "w_committed w' = w_committed w"
  shows "reached w w' (w_committed w)"
  by (rule reachedI [OF assms]) simp

text \<open>The refund: leg 1 backwards, into the sender's wallet, under a key of its own.\<close>

definition refunded :: "TransferState \<Rightarrow> string \<Rightarrow> string \<Rightarrow> time \<Rightarrow> db \<Rightarrow> db" where
  "refunded s wallet tid now = posted (ts_TenantID s) settlementAccountName wallet (ts_Amount s) tid now
     (legReverseKey (ts_IdempotencyKey s) 1) (legFingerprint settlementAccountName wallet (ts_Amount s))"

definition refundable :: "TransferState \<Rightarrow> string \<Rightarrow> db \<Rightarrow> bool" where
  "refundable s wallet d \<longleftrightarrow> db_key d (ts_IdempotencyKey s) \<noteq> None \<and>
     movable (ts_TenantID s) settlementAccountName wallet (ts_Amount s) d \<and>
     settlementAccountName \<noteq> wallet \<and> db_key d (legReverseKey (ts_IdempotencyKey s) 1) = None"

lemma postLeg1Reversal_pays:
  assumes steady: "steady (co_world c)"
    and wallet: "sender_wallet (w_collate (co_world c)) (ts_TenantID s) (w_committed (co_world c)) = Inr u"
    and ok: "refundable s u (w_committed (co_world c))"
    and fault: "read_count (co_legFaults c) (transferReversalLegKey x 1) \<le> 0"
  shows "\<exists>w tid now. postLeg1Reversal x s c = (Inr (), c\<lparr>co_world := w\<rparr>) \<and>
    reached (co_world c) w (refunded s u tid now (w_committed (co_world c)))"
proof -
  let ?d = "w_committed (co_world c)"
  obtain w1 where w1: "withUnitOfWork (legPostedStatus (ts_IdempotencyKey s)) (co_world c) = (Inr legPosted, w1)"
    "w_committed w1 = ?d"
    using legPosted_runs [OF steady, of "ts_IdempotencyKey s"] ok by (auto simp: refundable_def)
  have "refines (withUnitOfWork (legPostedStatus (ts_IdempotencyKey s)))"
    by (intro refines_withUnitOfWork reads_body_ok preserve_intros)
  then have r1: "reached (co_world c) w1 ?d" by (rule reads_reached) (rule steady w1)+
  then have c1: "steady w1" "w_collate w1 = w_collate (co_world c)" by (simp_all add: reached_def same_run_def)
  obtain w2 where w2: "walletAccountID (ts_TenantID s) w1 = (Inr u, w2)" "w_committed w2 = w_committed w1"
    using walletAccountID_runs [OF c1(1), of "ts_TenantID s"] wallet w1(2) c1(2) by auto
  have r2: "reached w1 w2 (w_committed w1)"
    by (rule reads_reached [OF refines_walletAccountID c1(1) w2])
  let ?c2 = "c\<lparr>co_world := w2\<rparr>"
  have c2: "steady w2" "w_committed w2 = ?d" using r2 w1(2) by (simp_all add: reached_def)
  obtain w tid now where w: "post_leg (reverseLeg1Movement s u) (ts_Amount s) ?c2 = (Inr (), ?c2\<lparr>co_world := w\<rparr>)"
    "reached w2 w (refunded s u tid now (w_committed w2))"
    using post_leg_runs [of ?c2 "ts_TenantID s" settlementAccountName u "ts_Amount s"
        "legReverseKey (ts_IdempotencyKey s) 1"] c2 ok
    by (auto simp: refundable_def refunded_def reverseLeg1Movement_def)
  have "postLeg1Reversal x s c = (Inr (), c\<lparr>co_world := w\<rparr>)"
    using w(1) fault
    by (simp add: postLeg1Reversal_def bindE_def on_ledger_eq w1(1) w2(1) consumeInjectedReversalFault_def no_fault)
  then show ?thesis using reached_trans [OF reached_trans [OF r1 r2] w(2)] w1(2) c2(2) by auto
qed

lemma refunded_transfer [simp]: "db_transfer (refunded s u tid now d) = db_transfer d"
  by (simp add: refunded_def)

lemma attemptLeg1Reversal_pays:
  assumes steady: "steady (co_world c)" and row: "db_transfer (w_committed (co_world c)) x = Some r"
    and wallet: "sender_wallet (w_collate (co_world c)) (ts_TenantID s) (w_committed (co_world c)) = Inr u"
    and ok: "refundable s u (w_committed (co_world c))"
    and fault: "read_count (co_legFaults c) (transferReversalLegKey x 1) \<le> 0"
  shows "\<exists>w t tid now. attemptLeg1Reversal x s c = (Inr (), c\<lparr>co_world := w\<rparr>) \<and>
    reached (co_world c) w (advanced x statusReversed t reasonRetryBudgetExhausted
      (refunded s u tid now (w_committed (co_world c))))"
proof -
  obtain w1 tid now where w1: "postLeg1Reversal x s c = (Inr (), c\<lparr>co_world := w1\<rparr>)"
    "reached (co_world c) w1 (refunded s u tid now (w_committed (co_world c)))"
    using postLeg1Reversal_pays [OF steady wallet ok fault] by blast
  let ?c1 = "c\<lparr>co_world := w1\<rparr>"
  have c1: "steady w1" "db_transfer (w_committed w1) x = Some r" using w1(2) row by (simp_all add: reached_def)
  obtain w where w: "advance_now x statusReversed reasonRetryBudgetExhausted ?c1 = (Inr (), ?c1\<lparr>co_world := w\<rparr>)"
    "reached w1 w (advanced x statusReversed (w_clock w1 (w_reads w1)) reasonRetryBudgetExhausted (w_committed w1))"
    using advance_now_runs [of ?c1 x r statusReversed reasonRetryBudgetExhausted] c1 by auto
  have "attemptLeg1Reversal x s c = (Inr (), c\<lparr>co_world := w\<rparr>)"
    using w(1) by (simp add: attemptLeg1Reversal_def bindE_def attempt_def w1(1))
  then show ?thesis using reached_trans [OF w1(2) w(2)] w1(2) by (auto simp: reached_def)
qed

text \<open>The fifth failure of leg 2: leg 1 is refunded and the transfer is reversed.\<close>

lemma handleLegFailure_reverses:
  fixes x :: string
  defines "k \<equiv> transferLegKey x 2"
  assumes steady: "steady (co_world c)" and row: "db_transfer (w_committed (co_world c)) x = Some r"
    and spent: "retryBudget \<le> read_count (co_counts c) k + 1"
    and wallet: "sender_wallet (w_collate (co_world c)) (ts_TenantID s) (w_committed (co_world c)) = Inr u"
    and ok: "refundable s u (w_committed (co_world c))"
    and fault: "read_count (co_legFaults c) (transferReversalLegKey x 1) \<le> 0"
  shows "\<exists>w t tid now. handleLegFailure x 2 s e inl c = (Inl e, c\<lparr>co_world := w,
      co_counts := (co_counts c)(k \<mapsto> read_count (co_counts c) k + 1), co_drawn := Suc (co_drawn c)\<rparr>) \<and>
    reached (co_world c) w (advanced x statusReversed t reasonRetryBudgetExhausted
      (refunded s u tid now (w_committed (co_world c))))"
proof -
  let ?c = "c\<lparr>co_counts := (co_counts c)(k \<mapsto> read_count (co_counts c) k + 1), co_drawn := Suc (co_drawn c)\<rparr>"
  obtain w t tid now where w: "attemptLeg1Reversal x s ?c = (Inr (), ?c\<lparr>co_world := w\<rparr>)"
    "reached (co_world c) w (advanced x statusReversed t reasonRetryBudgetExhausted
      (refunded s u tid now (w_committed (co_world c))))"
    using attemptLeg1Reversal_pays [of ?c x r s u] steady row wallet ok fault by auto
  have "backoffForAttempt (read_count (co_counts c) k + 1) j = (0, False)" for j
    using spent by (simp add: backoffForAttempt_def)
  then have "handleLegFailure x 2 s e inl c = (Inl e, ?c\<lparr>co_world := w\<rparr>)"
    using w(1) unfolding k_def
    by (simp add: handleLegFailure_def recordFailedAttempt_def record_failure_def rand_Float64_def
        bindE_def reverseLeg1_def Let_def)
  then show ?thesis using w(2) by (intro exI [of _ w]) auto
qed

section \<open>The retry ticker\<close>

lemma attemptDueLegs_settles:
  assumes steady: "steady (co_world c)" and row: "db_transfer (w_committed (co_world c)) x = Some r"
    and scan: "scanTransferState r = Inr s"
    and due: "\<And>v. same_run (co_world c) v \<Longrightarrow> claimable r (w_clock v (w_reads v))"
    and un: "uninjected x c" and fwd: "db_key (w_committed (co_world c)) (legReverseKey (xr_key r) 2) = None"
    and pay: "payable s 2 (w_committed (co_world c))" "payable s 3 (w_committed (co_world c))"
    and other: "ts_CounterpartyTenantID s \<noteq> platformTenantID"
  shows "\<exists>w t tid2 now2 tid3 now3. attemptDueLegs x c = (Inr (), c\<lparr>co_world := w\<rparr>) \<and>
    reached (co_world c) w (advanced x statusSettled t []
      (leg_posted s 3 tid3 now3 (leg_posted s 2 tid2 now2 (w_committed (co_world c)))))"
proof -
  let ?d = "w_committed (co_world c)"
  have key: "xr_key r = ts_IdempotencyKey s" using scanTransferState_sel [OF scan] by simp
  have key2: "db_key ?d (xr_key r @ '':leg2'') = None" and key3: "db_key ?d (xr_key r @ '':leg3'') = None"
    using pay by (simp_all add: key payable_def legMovement_def)
  obtain w1 where w1: "reversalPending x (co_world c) = (Inr False, w1)" "w_committed w1 = ?d"
    using reversalPending_runs [OF steady row scan] fwd by auto
  have r1: "reached (co_world c) w1 ?d" by (rule reads_reached [OF refines_reversalPending steady w1])
  then have c1: "steady w1" by (simp add: reached_def)
  obtain w2 where w2: "nextLegFor x w1 = (Inr 2, w2)" "w_committed w2 = w_committed w1"
    using nextLegFor_runs [OF c1 _ scan, of x] row w1(2) key2 by auto
  have r2: "reached w1 w2 (w_committed w1)" by (rule reads_reached [OF refines_nextLegFor c1 w2])
  have r12: "reached (co_world c) w2 ?d" using reached_trans [OF r1 r2] w1(2) by simp
  let ?c2 = "c\<lparr>co_world := w2\<rparr>"
  obtain w3 tid2 now2 i where w3: "attemptLeg x 2 False ?c2 = (Inr (), ?c2\<lparr>co_world := w3\<rparr>)" "i < w_reads w3"
    "reached w2 w3 (advanced x legPending (w_clock w3 i) [] (leg_posted s 2 tid2 now2 (w_committed w2)))"
    using attemptLeg_pays [of ?c2 x r s 2 False] r12 row scan due un pay(1) by (auto simp: reached_def)
  have d2: "w_committed w2 = ?d" using r12 by (simp add: reached_def)
  obtain r' t where r': "db_transfer (w_committed w3) x = Some r'" "xr_key r' = xr_key r"
    "scanTransferState r' = Inr (after_outcome s legPending t [])"
    "\<And>v. same_run w3 v \<Longrightarrow> claimable r' (w_clock v (w_reads v))"
    using after_leg2 [OF w3(3,2) _ scan] row d2 by metis
  have w3d: "w_committed w3 = advanced x legPending (w_clock w3 i) [] (leg_posted s 2 tid2 now2 ?d)"
    "steady w3" using w3(3) d2 by (simp_all add: reached_def)
  have "db_key (w_committed w3) (xr_key r @ '':leg2'') \<noteq> None"
    and "db_key (w_committed w3) (xr_key r @ '':leg3'') = None"
    using key2 key3 by (simp_all add: w3d(1) leg_posted_def legMovement_def posted_key key)
  then obtain w4 where w4: "nextLegFor x w3 = (Inr 3, w4)" "w_committed w4 = w_committed w3"
    using nextLegFor_runs [OF w3d(2) r'(1,3)] r'(2) by auto
  have r4: "reached w3 w4 (w_committed w3)" by (rule reads_reached [OF refines_nextLegFor w3d(2) w4])
  have pay3: "payable s 3 (w_committed w3)" using leg3_after_leg2 [OF pay(2) other] w3d(1) by simp
  let ?c4 = "c\<lparr>co_world := w4\<rparr>"
  obtain w5 tid3 now3 j where w5: "attemptLeg x 3 False ?c4 = (Inr (), ?c4\<lparr>co_world := w5\<rparr>)"
    "reached w4 w5 (advanced x statusSettled (w_clock w5 j) [] (leg_posted s 3 tid3 now3 (w_committed w4)))"
    using attemptLeg_pays [of ?c4 x r' "after_outcome s legPending t []" 3 False] r'(1,3,4) un pay3 r4
    by (auto simp: reached_def)
  have "attemptDueLegs x c = (Inr (), c\<lparr>co_world := w5\<rparr>)"
    using w3(1) w5(1)
    by (simp add: attemptDueLegs_def bindE_def attempt_def on_ledger_eq w1(1) w2(1) w4(1))
  moreover have "reached (co_world c) w5 (advanced x statusSettled (w_clock w5 j) []
      (leg_posted s 3 tid3 now3 (leg_posted s 2 tid2 now2 ?d)))"
    using reached_trans [OF reached_trans [OF r12 w3(3)] reached_trans [OF r4 w5(2)]] w4(2) w3d(1)
    by (simp add: leg_posted_advanced)
  ultimately show ?thesis by blast
qed

section \<open>A scheduled reversal that meets a settled transfer\<close>

lemma fmt_int_digits: "c \<in> set (fmt_int n) \<Longrightarrow> is_digit c \<or> c = CHR ''-''"
  using dec_text_digits by (auto simp: fmt_int_def split: if_splits)

lemma leg_keys_differ [simp]: "transferLegKey x l \<noteq> transferReversalLegKey x m"
proof
  assume "transferLegKey x l = transferReversalLegKey x m"
  then have "fmt_int l = ''reversal:'' @ fmt_int m"
    by (simp add: transferLegKey_def transferReversalLegKey_def)
  then have "CHR ''r'' \<in> set (fmt_int l)" by simp
  then show False using fmt_int_digits [of "CHR ''r''" l] by (simp add: is_digit_def)
qed

lemmas reversal_keys_differ [simp] = leg_keys_differ [symmetric]

lemma leg_text_numbers [simp]: "fmt_int 1 = ''1''" "fmt_int 2 = ''2''"
  by (simp_all add: fmt_int_def dec_text.simps digit_char_def char_of_eq_iff take_bit_eq_mod)

lemma attemptLeg1Reversal_fails:
  fixes x :: string
  defines "k \<equiv> transferReversalLegKey x 1"
  assumes steady: "steady (co_world c)"
    and wallet: "sender_wallet (w_collate (co_world c)) (ts_TenantID s) (w_committed (co_world c)) = Inr u"
    and leg1: "db_key (w_committed (co_world c)) (ts_IdempotencyKey s) \<noteq> None"
    and fault: "0 < read_count (co_legFaults c) k"
    and ok: "backoffForAttempt (read_count (co_counts c) k + 1) (co_draws c (co_drawn c)) = (delay, True)"
  shows "\<exists>w F. attemptLeg1Reversal x s c = (Inl ErrSimulatedTransientFault, c\<lparr>co_world := w, co_legFaults := F,
      co_counts := (co_counts c)(k \<mapsto> read_count (co_counts c) k + 1), co_drawn := Suc (co_drawn c),
      co_spawned := co_spawned c @ [(delay, RetryLeg1Reversal x s)]\<rparr>) \<and>
    (\<forall>j. read_count F j = (if j = k then read_count (co_legFaults c) j - 1 else read_count (co_legFaults c) j)) \<and>
    reached (co_world c) w (w_committed (co_world c))"
proof -
  let ?d = "w_committed (co_world c)"
  obtain w1 where w1: "withUnitOfWork (legPostedStatus (ts_IdempotencyKey s)) (co_world c) = (Inr legPosted, w1)"
    "w_committed w1 = ?d"
    using legPosted_runs [OF steady, of "ts_IdempotencyKey s"] leg1 by auto
  have "refines (withUnitOfWork (legPostedStatus (ts_IdempotencyKey s)))"
    by (intro refines_withUnitOfWork reads_body_ok preserve_intros)
  then have r1: "reached (co_world c) w1 ?d" by (rule reads_reached) (rule steady w1)+
  then have c1: "steady w1" "w_collate w1 = w_collate (co_world c)" by (simp_all add: reached_def same_run_def)
  obtain w2 where w2: "walletAccountID (ts_TenantID s) w1 = (Inr u, w2)" "w_committed w2 = w_committed w1"
    using walletAccountID_runs [OF c1(1), of "ts_TenantID s"] wallet w1(2) c1(2) by auto
  have "reached w1 w2 (w_committed w1)" by (rule reads_reached [OF refines_walletAccountID c1(1) w2])
  then have r2: "reached (co_world c) w2 ?d" using reached_trans [OF r1] w1(2) by simp
  let ?c2 = "c\<lparr>co_world := w2\<rparr>"
  obtain F where F: "consumeFault k ?c2 = (Inr True, ?c2\<lparr>co_legFaults := F\<rparr>)"
    "\<forall>j. read_count F j = (if j = k then read_count (co_legFaults c) j - 1 else read_count (co_legFaults c) j)"
    using fault_fires [of ?c2 k] fault by auto
  have "postLeg1Reversal x s c = (Inl ErrSimulatedTransientFault, ?c2\<lparr>co_legFaults := F\<rparr>)"
    using F(1) unfolding k_def
    by (simp add: postLeg1Reversal_def bindE_def on_ledger_eq w1(1) w2(1) consumeInjectedReversalFault_def)
  then have "attemptLeg1Reversal x s c = (Inl ErrSimulatedTransientFault, c\<lparr>co_world := w2, co_legFaults := F,
      co_counts := (co_counts c)(k \<mapsto> read_count (co_counts c) k + 1), co_drawn := Suc (co_drawn c),
      co_spawned := co_spawned c @ [(delay, RetryLeg1Reversal x s)]\<rparr>)"
    using ok unfolding k_def
    by (simp add: attemptLeg1Reversal_def bindE_def attempt_def handleReversalFailure_def
        recordFailedReversalAttempt_def record_failure_def rand_Float64_def scheduleReversalRetry_def
        spawn_def Let_def)
  then show ?thesis using F(2) r2 by blast
qed

text \<open>The last failure of leg 2 whose refund fails in turn: nothing is posted, a refund is scheduled.\<close>

lemma refund_scheduled:
  fixes x :: string
  defines "k2 \<equiv> transferLegKey x 2" and "k1 \<equiv> transferReversalLegKey x 1"
  assumes steady: "steady (co_world c)" and row: "db_transfer (w_committed (co_world c)) x = Some r"
    and scan: "scanTransferState r = Inr s"
    and due: "claimable r (w_clock (co_world c) (w_reads (co_world c)))"
    and crash: "\<not> read_flag (co_skipForwardCrash c) x"
    and spent: "read_count (co_counts c) k2 = retryBudget - 1"
    and faults: "co_legFaults c = [k2 \<mapsto> 1, k1 \<mapsto> 1]"
    and ok: "backoffForAttempt (read_count (co_counts c) k1 + 1) (co_draws c (Suc (co_drawn c))) = (delay, True)"
    and wallet: "sender_wallet (w_collate (co_world c)) (ts_TenantID s) (w_committed (co_world c)) = Inr u"
    and leg1: "db_key (w_committed (co_world c)) (ts_IdempotencyKey s) \<noteq> None"
  shows "\<exists>c' n. attemptLeg x 2 True c = (Inl ErrSimulatedTransientFault, c') \<and>
    co_spawned c' = co_spawned c @ [(delay, RetryLeg1Reversal x (s\<lparr>ts_NextAttemptAt := n\<rparr>))] \<and>
    uninjected x c' \<and> read_count (co_legFaults c') k1 = 0 \<and>
    n = w_clock (co_world c) (Suc (w_reads (co_world c))) + claimLeaseDuration \<and>
    Suc (Suc (w_reads (co_world c))) \<le> w_reads (co_world c') \<and>
    reached (co_world c) (co_world c')
      (set_transfer x (\<lambda>r. r\<lparr>xr_next := timestamptz n\<rparr>) (w_committed (co_world c)))"
proof -
  let ?d = "w_committed (co_world c)"
  have k: "k2 \<noteq> k1" by (simp add: k1_def k2_def)
  have f0: "read_count (co_legFaults c) j = (if j = k2 \<or> j = k1 then 1 else 0)" for j
    using k by (simp add: faults read_count_def)
  have leg: "\<exists>m. legMovement s 2 = Inr m" by (simp add: legMovement_def)
  then obtain m where m: "legMovement s 2 = Inr m" by blast
  have "0 < read_count (co_legFaults c) (transferLegKey x 2)" using f0 by (simp add: k2_def)
  then obtain w n F where w: "attemptLeg x 2 True c =
      handleLegFailure x 2 (s\<lparr>ts_NextAttemptAt := n\<rparr>) ErrSimulatedTransientFault True
        (c\<lparr>co_world := w, co_legFaults := F\<rparr>)"
    "n = w_clock (co_world c) (Suc (w_reads (co_world c))) + claimLeaseDuration"
    "w_reads w = Suc (Suc (w_reads (co_world c)))"
    "\<And>j. read_count F j = (if j = k1 then 1 else 0)"
    "reached (co_world c) w (set_transfer x (\<lambda>r. r\<lparr>xr_next := timestamptz n\<rparr>) ?d)"
    using attemptLeg_fails [OF steady row scan due _ m, of True] crash f0 k by (auto simp: k2_def)
  let ?s = "s\<lparr>ts_NextAttemptAt := n\<rparr>"
  let ?c = "c\<lparr>co_world := w, co_legFaults := F, co_counts := (co_counts c)(k2 \<mapsto> retryBudget),
    co_drawn := Suc (co_drawn c)\<rparr>"
  have cw: "steady w" "w_committed w = set_transfer x (\<lambda>r. r\<lparr>xr_next := timestamptz n\<rparr>) ?d"
    "w_collate w = w_collate (co_world c)" using w(5) by (simp_all add: reached_def same_run_def)
  have wl: "sender_wallet (w_collate w) (ts_TenantID ?s) (w_committed w) = Inr u"
    using wallet cw(2,3) by (simp add: sender_wallet_def account_order_def)
  have cnt: "read_count ((co_counts c)(k2 \<mapsto> retryBudget)) k1 = read_count (co_counts c) k1"
    using k by (simp add: read_count_def)
  obtain w' F' where w': "attemptLeg1Reversal x ?s ?c = (Inl ErrSimulatedTransientFault, ?c\<lparr>co_world := w',
      co_legFaults := F', co_counts := (co_counts ?c)(k1 \<mapsto> read_count (co_counts c) k1 + 1),
      co_drawn := Suc (co_drawn ?c), co_spawned := co_spawned c @ [(delay, RetryLeg1Reversal x ?s)]\<rparr>)"
    "\<And>j. read_count F' j = 0" "reached w w' (w_committed w)"
    using attemptLeg1Reversal_fails [of ?c ?s u x delay] cw wl leg1 w(4) ok cnt by (auto simp: k1_def)
  let ?c' = "?c\<lparr>co_world := w', co_legFaults := F',
      co_counts := (co_counts ?c)(k1 \<mapsto> read_count (co_counts c) k1 + 1),
      co_drawn := Suc (co_drawn ?c), co_spawned := co_spawned c @ [(delay, RetryLeg1Reversal x ?s)]\<rparr>"
  have "backoffForAttempt retryBudget j = (0, False)" for j by (simp add: backoffForAttempt_def)
  then have "attemptLeg x 2 True c = (Inl ErrSimulatedTransientFault, ?c')"
    using w'(1) spent unfolding w(1) k2_def
    by (simp add: handleLegFailure_def recordFailedAttempt_def record_failure_def rand_Float64_def
        bindE_def reverseLeg1_def Let_def)
  moreover have "uninjected x ?c'" using w'(2) crash by (simp add: uninjected_def)
  moreover have "Suc (Suc (w_reads (co_world c))) \<le> w_reads w'"
    using w'(3) w(3) by (simp add: reached_def same_run_def)
  moreover have "reached (co_world c) w' (set_transfer x (\<lambda>r. r\<lparr>xr_next := timestamptz n\<rparr>) ?d)"
    using reached_trans [OF w(5) w'(3)] cw(2) by simp
  ultimately show ?thesis using w'(2) w(2) by (intro exI [of _ ?c'] exI [of _ n]) simp
qed

lemma next_attempt_irrelevant [simp]:
  "payable (s\<lparr>ts_NextAttemptAt := n\<rparr>) l d = payable s l d"
  "leg_posted (s\<lparr>ts_NextAttemptAt := n\<rparr>) l tid now d = leg_posted s l tid now d"
  "refundable (s\<lparr>ts_NextAttemptAt := n\<rparr>) u d = refundable s u d"
  "refunded (s\<lparr>ts_NextAttemptAt := n\<rparr>) u tid now d = refunded s u tid now d"
  by (simp_all add: payable_def leg_posted_def refundable_def refunded_def split: sum.splits prod.splits)

lemma payable_set_transfer [simp]: "payable s l (set_transfer x f d) = payable s l d"
  by (simp add: payable_def split: sum.splits prod.splits)

text \<open>Postings in other tenants leave the sender's wallet and its refund alone.\<close>

lemma sender_wallet_other:
  assumes "t \<noteq> u"
  shows "sender_wallet collate t (posted u a b m tid now k fp d) = sender_wallet collate t d"
proof -
  have "filter (\<lambda>r. ar_tenant r = t) (map (apply_delta u i c y) rows) = filter (\<lambda>r. ar_tenant r = t) rows"
    for i c y rows
    using assms by (induction rows) (auto simp: apply_delta_def)
  then show ?thesis by (simp add: sender_wallet_def account_order_def Resolve_def ScopedToTenant_def posted_def del: map_map)
qed

lemma sender_wallet_same_accounts:
  "accounts d' = accounts d \<Longrightarrow> sender_wallet collate t d' = sender_wallet collate t d"
  by (simp add: sender_wallet_def account_order_def)

definition sender_apart :: "TransferState \<Rightarrow> bool" where
  "sender_apart s \<longleftrightarrow> ts_TenantID s \<noteq> platformTenantID \<and> ts_TenantID s \<noteq> ts_CounterpartyTenantID s \<and>
     ts_CounterpartyTenantID s \<noteq> platformTenantID"

lemma refund_after_legs:
  assumes "sender_apart s" and "refundable s u d"
  shows "refundable s u (leg_posted s 3 tid3 now3 (leg_posted s 2 tid2 now2 d))"
    and "sender_wallet collate (ts_TenantID s) (leg_posted s 3 tid3 now3 (leg_posted s 2 tid2 now2 d)) =
         sender_wallet collate (ts_TenantID s) d"
  using assms
  by (auto simp: refundable_def sender_apart_def leg_posted_def legMovement_def posted_other_tenant posted_key
      legReverseKey_def sender_wallet_other split: option.splits)

lemma refundable_same [simp]:
  "refundable s u (advanced x status t reason d) = refundable s u d"
  "refundable s u (set_transfer x f d) = refundable s u d"
  by (simp_all add: refundable_def)

lemma reversal_race:
  fixes x :: string
  assumes steady: "steady (co_world c)" and row: "db_transfer (w_committed (co_world c)) x = Some r"
    and scan: "scanTransferState r = Inr s"
    and due: "claimable r (w_clock (co_world c) (w_reads (co_world c)))"
    and crash: "\<not> read_flag (co_skipForwardCrash c) x"
    and spent: "read_count (co_counts c) (transferLegKey x 2) = retryBudget - 1"
    and faults: "co_legFaults c = [transferLegKey x 2 \<mapsto> 1, transferReversalLegKey x 1 \<mapsto> 1]"
    and ok: "backoffForAttempt (read_count (co_counts c) (transferReversalLegKey x 1) + 1)
      (co_draws c (Suc (co_drawn c))) = (delay, True)"
    and wallet: "sender_wallet (w_collate (co_world c)) (ts_TenantID s) (w_committed (co_world c)) = Inr u"
    and refund: "refundable s u (w_committed (co_world c))"
    and late: "w_clock (co_world c) (Suc (w_reads (co_world c))) + claimLeaseDuration
      \<le> w_clock (co_world c) (Suc (Suc (w_reads (co_world c))))"
    and fwd: "db_key (w_committed (co_world c)) (legReverseKey (xr_key r) 2) = None"
    and pay: "payable s 2 (w_committed (co_world c))" "payable s 3 (w_committed (co_world c))"
    and apart: "sender_apart s"
  shows "\<exists>c1 c2 c3 s' t tid1 now1 tid2 now2 tid3 now3.
    attemptLeg x 2 True c = (Inl ErrSimulatedTransientFault, c1) \<and>
    co_spawned c1 = co_spawned c @ [(delay, RetryLeg1Reversal x s')] \<and>
    attemptDueLegs x c1 = (Inr (), c2) \<and>
    run_task (RetryLeg1Reversal x s') c2 = (Inr (), c3) \<and>
    w_committed (co_world c3) = advanced x statusReversed t reasonRetryBudgetExhausted
      (refunded s u tid1 now1 (leg_posted s 3 tid3 now3 (leg_posted s 2 tid2 now2 (w_committed (co_world c)))))"
proof -
  let ?d = "w_committed (co_world c)"
  have leg1: "db_key ?d (ts_IdempotencyKey s) \<noteq> None" using refund by (simp add: refundable_def)
  obtain c1 n where c1: "attemptLeg x 2 True c = (Inl ErrSimulatedTransientFault, c1)"
    "co_spawned c1 = co_spawned c @ [(delay, RetryLeg1Reversal x (s\<lparr>ts_NextAttemptAt := n\<rparr>))]"
    "uninjected x c1" "read_count (co_legFaults c1) (transferReversalLegKey x 1) = 0"
    "n = w_clock (co_world c) (Suc (w_reads (co_world c))) + claimLeaseDuration"
    "Suc (Suc (w_reads (co_world c))) \<le> w_reads (co_world c1)"
    "reached (co_world c) (co_world c1) (set_transfer x (\<lambda>r. r\<lparr>xr_next := timestamptz n\<rparr>) ?d)"
    using refund_scheduled [OF steady row scan due crash spent faults ok wallet leg1] by blast
  let ?d1 = "set_transfer x (\<lambda>r. r\<lparr>xr_next := timestamptz n\<rparr>) ?d"
  let ?r1 = "r\<lparr>xr_next := timestamptz n\<rparr>" and ?s1 = "s\<lparr>ts_NextAttemptAt := timestamptz n\<rparr>"
  let ?s' = "s\<lparr>ts_NextAttemptAt := n\<rparr>"
  have w1: "steady (co_world c1)" "w_committed (co_world c1) = ?d1" "same_run (co_world c) (co_world c1)"
    using c1(7) by (simp_all add: reached_def)
  have row1: "db_transfer (w_committed (co_world c1)) x = Some ?r1"
    using set_transfer_row [OF row, of "\<lambda>r. r\<lparr>xr_next := timestamptz n\<rparr>"] w1(2) by simp
  have scan1: "scanTransferState ?r1 = Inr ?s1"
    using scan by (auto simp: scanTransferState_def Let_def split: option.splits sum.splits)
  have due1: "claimable ?r1 (w_clock v (w_reads v))" if v: "same_run (co_world c1) v" for v
  proof -
    have "Suc (Suc (w_reads (co_world c))) \<le> w_reads v" and "w_clock v = w_clock (co_world c)"
      using c1(6) v w1(3) by (auto simp: same_run_def)
    then have "w_clock (co_world c) (Suc (Suc (w_reads (co_world c)))) \<le> w_clock v (w_reads v)"
      using steadyD(3) [OF steady] by (simp add: ticking_def)
    moreover have "timestamptz n \<le> n" by (simp add: timestamptz_def)
    ultimately show ?thesis using late due c1(5) by (auto simp: claimable_def)
  qed
  have other: "ts_CounterpartyTenantID ?s1 \<noteq> platformTenantID" using apart by (simp add: sender_apart_def)
  obtain w2 t tid2 now2 tid3 now3 where w2: "attemptDueLegs x c1 = (Inr (), c1\<lparr>co_world := w2\<rparr>)"
    "reached (co_world c1) w2 (advanced x statusSettled t []
       (leg_posted s 3 tid3 now3 (leg_posted s 2 tid2 now2 ?d1)))"
    using attemptDueLegs_settles [OF w1(1) row1 scan1 due1 c1(3) _ _ _ other] fwd pay w1(2) by auto
  let ?c2 = "c1\<lparr>co_world := w2\<rparr>"
  let ?d2 = "leg_posted s 3 tid3 now3 (leg_posted s 2 tid2 now2 ?d1)"
  have s2: "steady w2" "w_committed w2 = advanced x statusSettled t [] ?d2" "w_collate w2 = w_collate (co_world c)"
    using w2(2) w1(3) by (auto simp: reached_def same_run_def)
  have "db_transfer ?d2 x = Some ?r1" using row1 w1(2) by simp
  then obtain r2 where row2: "db_transfer (w_committed w2) x = Some r2"
    using advanced_transfer [OF _ scan1, of ?d2 x statusSettled t "[]"] s2(2) by metis
  have "sender_wallet (w_collate w2) (ts_TenantID s) (w_committed w2) =
      sender_wallet (w_collate w2) (ts_TenantID s) ?d2"
    by (rule sender_wallet_same_accounts) (simp add: s2(2))
  also have "\<dots> = sender_wallet (w_collate w2) (ts_TenantID s) ?d1"
    by (rule refund_after_legs(2) [OF apart]) (use refund in simp)
  also have "\<dots> = sender_wallet (w_collate w2) (ts_TenantID s) ?d"
    by (rule sender_wallet_same_accounts) simp
  finally have wallet2: "sender_wallet (w_collate w2) (ts_TenantID s) (w_committed w2) = Inr u"
    using wallet s2(3) by simp
  have "refundable s u ?d2" by (rule refund_after_legs(1) [OF apart]) (use refund in simp)
  then have ok2: "refundable s u (w_committed w2)" by (simp add: s2(2))
  obtain w3 t' tid1 now1 where w3: "attemptLeg1Reversal x ?s' ?c2 = (Inr (), ?c2\<lparr>co_world := w3\<rparr>)"
    "reached w2 w3 (advanced x statusReversed t' reasonRetryBudgetExhausted (refunded s u tid1 now1 (w_committed w2)))"
    using attemptLeg1Reversal_pays [of ?c2 x r2 ?s' u] s2(1) row2 wallet2 ok2 c1(4) by auto
  have "run_task (RetryLeg1Reversal x ?s') ?c2 = (Inr (), ?c2\<lparr>co_world := w3\<rparr>)"
    by (simp add: bindE_def attempt_def w3(1))
  moreover have "w_committed w3 = advanced x statusReversed t' reasonRetryBudgetExhausted
      (refunded s u tid1 now1 (leg_posted s 3 tid3 now3 (leg_posted s 2 tid2 now2 ?d)))"
  proof -
    have "advanced x statusReversed t' reasonRetryBudgetExhausted
        (refunded s u tid1 now1 (advanced x statusSettled t [] ?d2)) =
      refunded s u tid1 now1 (leg_posted s 3 tid3 now3 (leg_posted s 2 tid2 now2
        (advanced x statusReversed t' reasonRetryBudgetExhausted ?d1)))"
      by (simp add: refunded_def advanced_posted leg_posted_advanced)
    also have "advanced x statusReversed t' reasonRetryBudgetExhausted ?d1 =
        advanced x statusReversed t' reasonRetryBudgetExhausted ?d"
      by (simp add: advanced_def set_transfer_twice)
    also have "refunded s u tid1 now1 (leg_posted s 3 tid3 now3 (leg_posted s 2 tid2 now2
        (advanced x statusReversed t' reasonRetryBudgetExhausted ?d))) =
      advanced x statusReversed t' reasonRetryBudgetExhausted
        (refunded s u tid1 now1 (leg_posted s 3 tid3 now3 (leg_posted s 2 tid2 now2 ?d)))"
      by (simp add: refunded_def advanced_posted leg_posted_advanced)
    finally show ?thesis using w3(2) s2(2) by (simp add: reached_def)
  qed
  ultimately show ?thesis using c1(1,2) w2(1) by fastforce
qed

end
