(* ===== verification/System.thy ===== *)
theory System
  imports SagaRefinement Journal
begin

text \<open>
  One process of the program: the coordinator over the ledger, driven by any sequence of
  calls of its driving ports, wake-ups of its goroutines, ticks of its retry ticker, test
  faults and restarts, while other processes commit in between. Whatever the sequence, and
  whichever statements fail, the committed database is one the specification can reach.
\<close>

datatype operation =
    DoCreateAccount string string AccountKind
  | DoProvisionTenant string
  | DoAuthorizeTenantPair string string
  | DoRegisterCounterpartyAlias string string string string
  | DoRevokeTenantLink string
  | DoPostTransfer TransferRequest
  | DoGetBalance string string
  | DoGetEntries TenantScope string
  | DoVerifyBooks TenantScope
  | DoSendTransfer string string Money string string
  | DoGetTransfer string
  | DoWake nat
  | DoTick
  | DoSeedTransfer string string string time Money
  | DoInjectLegFault string int int
  | DoInjectReversalFault string int int
  | DoCrashForward string
  | DoCrashReversal string
  | DoRestart

text \<open>A use case called by a handler; the answer goes to the client.\<close>

definition serve :: "'a uow \<Rightarrow> coordinator \<Rightarrow> coordinator" where
  "serve m c = snd (on_ledger m c)"

text \<open>The handler of cross-tenant transfers triggers the other legs of a transfer it created.\<close>

definition serve_send :: "string \<Rightarrow> string \<Rightarrow> Money \<Rightarrow> string \<Rightarrow> string \<Rightarrow> unit saga" where
  "serve_send tenantID alias amount key fingerprint =
     bindE (on_ledger (SendTransfer tenantID alias amount key fingerprint)) (\<lambda>(view, created).
       if created then TriggerForwardLegs (view_TransferID view) else ret ())"

fun operate :: "operation \<Rightarrow> coordinator \<Rightarrow> coordinator" where
  "operate (DoCreateAccount t i k) c = serve (CreateAccount t i k) c"
| "operate (DoProvisionTenant n) c = serve (ProvisionTenant n) c"
| "operate (DoAuthorizeTenantPair a b) c = serve (AuthorizeTenantPair a b) c"
| "operate (DoRegisterCounterpartyAlias t a tt ta) c = serve (RegisterCounterpartyAlias t a tt ta) c"
| "operate (DoRevokeTenantLink l) c = serve (RevokeTenantLink l) c"
| "operate (DoPostTransfer cmd) c = serve (PostTransfer cmd) c"
| "operate (DoGetBalance t i) c = serve (GetBalance t i) c"
| "operate (DoGetEntries s i) c = serve (GetEntries s i) c"
| "operate (DoVerifyBooks s) c = serve (VerifyBooks s) c"
| "operate (DoSendTransfer t a m k fp) c = snd (serve_send t a m k fp c)"
| "operate (DoGetTransfer x) c = serve (GetTransfer x) c"
| "operate (DoWake n) c = snd (wake n c)"
| "operate DoTick c = snd (ProcessDueTransfersOnce c)"
| "operate (DoSeedTransfer x a b now m) c = serve (SeedTransferStateDueNow (seeded_state x a b now m)) c"
| "operate (DoInjectLegFault x l n) c = InjectLegFaultCount x l n c"
| "operate (DoInjectReversalFault x l n) c = InjectReversalFaultCount x l n c"
| "operate (DoCrashForward x) c = SimulateCrashBeforeForwardLegAttempt x c"
| "operate (DoCrashReversal x) c = SimulateCrashBeforeReversalAttempt x c"
| "operate DoRestart c = NewTransferCoordinator (co_world c) (co_draws c)"

fun operate_all :: "operation list \<Rightarrow> coordinator \<Rightarrow> coordinator" where
  "operate_all [] c = c"
| "operate_all (x # xs) c = operate_all xs (operate x c)"

lemma serve_moves: "refines m \<Longrightarrow> well_behaved (co_world c) \<Longrightarrow> moves (co_world c) (co_world (serve m c))"
  using saga_okD [OF saga_on_ledger] by (simp add: serve_def)

lemma saga_serve_send: "saga_ok (serve_send t a m k fp)"
  unfolding serve_send_def TriggerForwardLegs_def by (intro preserve_intros)

lemma refines_Seed [preserve_intros]: "refines (SeedTransferStateDueNow (seeded_state x a b now m))"
  unfolding SeedTransferStateDueNow_def
  by (rule refines_createTransferState)
    (simp_all add: transfer_typed_def outcome_ok_def transfer_to_row_def seeded_state_def statusSettled_def)

lemma saga_tick: "saga_ok ProcessDueTransfersOnce"
  unfolding ProcessDueTransfersOnce_def by (intro preserve_intros)

lemma memory_only [simp]:
  "co_world (armFault k n c) = co_world c"
  "co_world (InjectLegFaultCount x l n c) = co_world c"
  "co_world (InjectReversalFaultCount x l n c) = co_world c"
  "co_world (SimulateCrashBeforeForwardLegAttempt x c) = co_world c"
  "co_world (SimulateCrashBeforeReversalAttempt x c) = co_world c"
  "co_world (NewTransferCoordinator w draws) = w"
  by (simp_all add: armFault_def InjectLegFaultCount_def InjectReversalFaultCount_def
      SimulateCrashBeforeForwardLegAttempt_def SimulateCrashBeforeReversalAttempt_def
      NewTransferCoordinator_def)

lemma operate_moves:
  "well_behaved (co_world c) \<Longrightarrow> moves (co_world c) (co_world (operate x c))"
proof (cases x)
  case (DoSendTransfer t a m k fp)
  then show "well_behaved (co_world c) \<Longrightarrow> ?thesis" using saga_okD [OF saga_serve_send] by simp
next
  case (DoWake n)
  then show "well_behaved (co_world c) \<Longrightarrow> ?thesis" using saga_okD [OF saga_wake] by simp
next
  case DoTick
  then show "well_behaved (co_world c) \<Longrightarrow> ?thesis" using saga_okD [OF saga_tick] by simp
qed (auto intro: serve_moves preserve_intros)

lemma operate_all_moves:
  "well_behaved (co_world c) \<Longrightarrow> moves (co_world c) (co_world (operate_all xs c))"
proof (induction xs arbitrary: c)
  case (Cons x xs)
  have m: "moves (co_world c) (co_world (operate x c))" using Cons.prems by (rule operate_moves)
  then have "well_behaved (co_world (operate x c))"
    using Cons.prems same_run_well_behaved moves_def by blast
  then have "moves (co_world (operate x c)) (co_world (operate_all xs (operate x c)))" by (rule Cons.IH)
  with m show ?case using moves_trans by simp
qed simp

lemma operate_all_keeps:
  assumes "commit_invariant I" and "well_behaved w" and "I (w_committed w)"
  shows "I (w_committed (co_world (operate_all xs (NewTransferCoordinator w draws))))"
  using commit_invariant.moved [OF assms(1) operate_all_moves [of "NewTransferCoordinator w draws"]]
    assms(2,3) by simp

end
