(* ===== verification/EndToEnd.thy ===== *)
theory EndToEnd
  imports SendProps SagaProps System
begin

text \<open>
  A cross-tenant transfer from the request to the settlement: the request posts leg 1 and
  starts a goroutine; once that wakes, legs 2 and 3 are posted and the transfer is settled.
\<close>

lemma posted_account:
  "db_account (posted t a b m tid now k fp d) u i =
     map_option (\<lambda>r. apply_delta t b (currency m) (minorUnits m) (apply_delta t a (currency m) (- minorUnits m) r))
       (db_account d u i)"
  by (simp add: db_account_def posted_def find_apply_delta map_option.compositionality comp_def del: map_map)

lemma recorded_more [simp]:
  "db_account (recorded s d) = db_account d" "db_key (recorded s d) = db_key d"
  "movable t a b m (recorded s d) = movable t a b m d"
  by (simp_all add: recorded_def db_account_def db_key_def movable_def fun_eq_iff)

lemma recorded_transfer:
  assumes "db_transfer d (ts_TransferID s) = None"
  shows "db_transfer (recorded s d) (ts_TransferID s) = Some (transfer_to_row s)"
  using assms by (simp add: db_transfer_def recorded_def find_append transfer_to_row_def)

lemma ensured_account:
  "db_account d t i = Some r \<Longrightarrow> db_account (ensured u j d) t i = Some r"
  by (simp add: ensured_def db_account_def find_append)

lemma provisioned_account:
  "db_account d t i = Some r \<Longrightarrow> db_account (provisioned u v d) t i = Some r"
  by (simp add: provisioned_def ensured_account)

lemma provisioned_sel [simp]:
  "transactions (provisioned t ct d) = transactions d" "transfer_states (provisioned t ct d) = transfer_states d"
  "db_key (provisioned t ct d) = db_key d" "db_transfer (provisioned t ct d) = db_transfer d"
  by (simp_all add: provisioned_def db_transfer_def fun_eq_iff)

text \<open>What a transfer needs to go through.\<close>

definition transferable ::
  "(string \<Rightarrow> string) \<Rightarrow> string \<Rightarrow> string \<Rightarrow> string \<Rightarrow> string \<Rightarrow> string \<Rightarrow> Money \<Rightarrow> string \<Rightarrow> db \<Rightarrow> bool" where
  "transferable collate t al u ct target m k d \<longleftrightarrow>
     tenant_exists d t \<and> tenant_exists d ct \<and> tenant_exists d platformTenantID \<and>
     t \<noteq> [] \<and> ct \<noteq> [] \<and> t \<noteq> ct \<and> t \<noteq> platformTenantID \<and> ct \<noteq> platformTenantID \<and>
     resolves t al (ct, target) d \<and>
     sender_wallet collate t (provisioned t ct d) = Inr u \<and>
     u \<noteq> settlementAccountName \<and> target \<noteq> settlementAccountName \<and>
     movable t u settlementAccountName m (provisioned t ct d) \<and>
     movable platformTenantID (platformMirrorAccountID t) (platformMirrorAccountID ct) m (provisioned t ct d) \<and>
     movable ct settlementAccountName target m (provisioned t ct d) \<and>
     (\<forall>r \<in> set (transfer_states d). (xr_tenant r, xr_key r) \<noteq> (t, k)) \<and>
     db_key d k = None \<and> db_key d (k @ '':leg2'') = None \<and> db_key d (k @ '':leg3'') = None"

lemma transfer_completes:
  fixes d :: db and t al u ct target k fp :: string and m :: Money
  assumes steady: "steady w" and d: "w_committed w = d"
    and fresh: "\<And>n. db_transfer d (''xfr_'' @ w_ids w n) = None"
    and ok: "transferable (w_collate w) t al u ct target m k d"
    and f: "db_account d t u = Some f" and g: "db_account d ct target = Some g"
  shows "\<exists>d' x r. w_committed (co_world (operate_all [DoSendTransfer t al m k fp, DoWake 0]
      (NewTransferCoordinator w draws))) = d' \<and>
    db_transfer d' x = Some r \<and> xr_tenant r = t \<and> xr_key r = k \<and> xr_status r = statusSettled \<and>
    db_account d' t u = Some (f\<lparr>ar_balance := ar_balance f - minorUnits m\<rparr>) \<and>
    db_account d' ct target = Some (g\<lparr>ar_balance := ar_balance g + minorUnits m\<rparr>)"
proof -
  let ?c = "NewTransferCoordinator w draws"
  let ?p = "provisioned t ct d"
  note T = ok [unfolded transferable_def]
  have "\<exists>w' i now tid now1. SendTransfer t al m k fp w = (Inr (leg1_view (''xfr_'' @ i) legPending, True), w') \<and>
    reached w w' (recorded (newTransferState (''xfr_'' @ i) t k now (ct, target) m)
      (posted t u settlementAccountName m tid now1 k fp ?p)) \<and>
    (\<exists>j < w_reads w'. now = w_clock w' j) \<and> i \<in> range (w_ids w)"
    by (rule SendTransfer_sends [OF steady d _ fresh, where al = al and u = u]) (use T in simp_all)
  then obtain w1 x now tid now1 j where w1: "SendTransfer t al m k fp w = (Inr (leg1_view x legPending, True), w1)"
    "reached w w1 (recorded (newTransferState x t k now (ct, target) m)
      (posted t u settlementAccountName m tid now1 k fp ?p))"
    "j < w_reads w1" "now = w_clock w1 j" "db_transfer d x = None"
    using fresh by blast
  let ?s = "newTransferState x t k now (ct, target) m"
  let ?d1 = "posted t u settlementAccountName m tid now1 k fp ?p"
  have w1d: "steady w1" "w_committed w1 = recorded ?s ?d1" using w1(2) by (simp_all add: reached_def)
  let ?c1 = "?c\<lparr>co_world := w1, co_spawned := []\<rparr>"
  have sent: "operate (DoSendTransfer t al m k fp) ?c =
      ?c\<lparr>co_world := w1, co_spawned := [(inlineAttemptGraceWindow, ForwardLegsFrom x 2)]\<rparr>"
    using w1(1)
    by (simp add: serve_send_def bindE_def on_ledger_eq NewTransferCoordinator_def TriggerForwardLegs_def
        spawn_def leg1_view_def)
  have x: "ts_TransferID ?s = x" by (simp add: newTransferState_def)
  have "db_transfer ?d1 (ts_TransferID ?s) = None"
    using w1(5) x by simp
  from recorded_transfer [OF this] have row: "db_transfer (w_committed w1) x = Some (transfer_to_row ?s)"
    using w1d(2) x by simp
  have cur: "known_currency (currency m)" using T by (auto simp: movable_def split: option.splits)
  then have known: "currency m \<noteq> []" by (auto simp: known_currency_def currencyScales_def)
  have scan: "scanTransferState (transfer_to_row ?s) = Inr (?s\<lparr>ts_NextAttemptAt := timestamptz now\<rparr>)"
    using scanTransferState_transfer_to_row [of ?s] cur known by (simp add: newTransferState_def)
  have due: "claimable (transfer_to_row ?s) (w_clock w1 (w_reads w1))"
    by (rule due_now [OF steadyD(3) [OF w1d(1)] w1(3)])
       (simp_all add: transfer_to_row_def newTransferState_def legPending_def w1(4))
  have apart: "t \<noteq> platformTenantID" "t \<noteq> ct" "ct \<noteq> platformTenantID" using T by simp_all
  have pay: "payable ?s 2 (w_committed w1)" "payable ?s 3 (w_committed w1)"
    using T w1d(2)
    by (auto simp: payable_def legMovement_def newTransferState_def posted_key posted_other_tenant
        platformMirrorAccountID_def split: option.splits)
  have un: "uninjected x ?c1"
    by (simp add: uninjected_def NewTransferCoordinator_def read_count_def read_flag_def)
  have other: "ts_CounterpartyTenantID ?s \<noteq> platformTenantID" using apart by (simp add: newTransferState_def)
  obtain w2 t' tid2 now2 tid3 now3 where w2:
    "attemptForwardLegsFrom x 2 ?c1 = (Inr (), ?c1\<lparr>co_world := w2\<rparr>)"
    "reached w1 w2 (advanced x statusSettled t' []
       (leg_posted ?s 3 tid3 now3 (leg_posted ?s 2 tid2 now2 (w_committed w1))))"
    using forward_settles [of ?c1 x "transfer_to_row ?s" "?s\<lparr>ts_NextAttemptAt := timestamptz now\<rparr>"]
      w1d(1) row scan due pay un other by (auto simp del: append_Cons)
  have woken: "w_committed (co_world (operate_all [DoSendTransfer t al m k fp, DoWake 0] ?c)) = w_committed w2"
    using w2(1) sent by (simp add: wake_def)
  let ?d2 = "leg_posted ?s 3 tid3 now3 (leg_posted ?s 2 tid2 now2 (recorded ?s ?d1))"
  have d2: "w_committed w2 = advanced x statusSettled t' [] ?d2" using w2(2) w1d(2) by (simp add: reached_def)
  have "db_transfer ?d2 x = Some (transfer_to_row ?s)" using row w1d(2) by simp
  then have r: "db_transfer (w_committed w2) x = Some ((transfer_to_row ?s)\<lparr>xr_status := statusSettled,
      xr_next := timestamptz t', xr_reason := toNullableString []\<rparr>)"
    unfolding d2 advanced_def by (rule set_transfer_row) simp
  have cf: "ar_currency f = currency m" and cg: "ar_currency g = currency m"
    using T f g provisioned_account [OF f, of t ct] provisioned_account [OF g, of t ct]
    by (auto simp: movable_def split: option.splits)
  have keys: "ar_tenant f = t" "ar_id f = u" "ar_tenant g = ct" "ar_id g = target"
    using db_account_key [OF f] db_account_key [OF g] by auto
  have pf: "db_account ?p t u = Some f" and pg: "db_account ?p ct target = Some g"
    using provisioned_account [OF f] provisioned_account [OF g] by simp_all
  have us: "u \<noteq> settlementAccountName" "target \<noteq> settlementAccountName" using T by simp_all
  have moves: "legMovement ?s 2 = Inr (platformMirrorAccountID t, platformMirrorAccountID ct, platformTenantID, k @ '':leg2'')"
    "legMovement ?s 3 = Inr (settlementAccountName, target, ct, k @ '':leg3'')" "ts_Amount ?s = m"
    by (simp_all add: legMovement_def newTransferState_def)
  have d2_acc: "db_account (w_committed w2) v j = db_account (leg_posted ?s 3 tid3 now3 (recorded ?s ?d1)) v j"
    if "v \<noteq> platformTenantID" for v j
  proof -
    have "db_account (leg_posted ?s 2 tid2 now2 D) v j = db_account D v j" for D j
      using that by (simp add: leg_posted_def moves posted_other_tenant)
    moreover have "db_account (leg_posted ?s 3 tid3 now3 D) v j = map_option (\<lambda>r. apply_delta ct target (currency m)
        (minorUnits m) (apply_delta ct settlementAccountName (currency m) (- minorUnits m) r)) (db_account D v j)" for D j
      by (simp add: leg_posted_def moves posted_account)
    ultimately show ?thesis by (simp add: d2)
  qed
  have "db_account (w_committed w2) t u = db_account ?d1 t u"
    using d2_acc apart by (simp add: leg_posted_def moves posted_other_tenant)
  also have "\<dots> = Some (f\<lparr>ar_balance := ar_balance f - minorUnits m\<rparr>)"
    using pf us keys cf by (simp add: posted_account apply_delta_def)
  finally have sender: "db_account (w_committed w2) t u = Some (f\<lparr>ar_balance := ar_balance f - minorUnits m\<rparr>)" .
  have "db_account (w_committed w2) ct target = Some (g\<lparr>ar_balance := ar_balance g + minorUnits m\<rparr>)"
    using d2_acc apart pg us keys cg
    by (simp add: leg_posted_def moves posted_account apply_delta_def)
  then show ?thesis using r woken sender
    by (intro exI [of _ "w_committed w2"] exI [of _ x] exI conjI) (auto simp: transfer_to_row_def newTransferState_def)
qed

end
