(* ===== verification/Trace.thy ===== *)
theory Trace
  imports Verdict "HOL-Library.Multiset"
begin

text \<open>
  \<open>GetEntries\<close> of \<open>usecases.go\<close>: the running balance of a trace restarts for each tenant,
  is never mixed between tenants that share an account id, and ends at the stored balance.
\<close>

section \<open>The fold\<close>

fun contiguous :: "string list \<Rightarrow> bool" where
  "contiguous (x # y # zs) = ((x = y \<or> x \<notin> set (y # zs)) \<and> contiguous (y # zs))"
| "contiguous _ = True"

lemma contiguous_tl: "contiguous (x # xs) \<Longrightarrow> contiguous xs"
  by (cases xs) auto

lemma sorted_contiguous:
  assumes "sorted (map c xs)" and "inj (c :: string \<Rightarrow> string)"
  shows "contiguous xs"
  using assms(1)
proof (induction xs rule: contiguous.induct)
  case (1 x y zs)
  have "x = y" if "x \<in> set zs"
  proof -
    have "c y \<le> c x" "c x \<le> c y" using 1(2) that by auto
    then show ?thesis using assms(2) by (simp add: inj_eq)
  qed
  then show ?case using 1 by auto
qed simp_all

definition restricted :: "string \<Rightarrow> (string \<times> Money) option \<Rightarrow> (string \<times> Money) option" where
  "restricted t st = (case st of None \<Rightarrow> None | Some (u, m) \<Rightarrow> if u = t then Some (u, m) else None)"

definition state_tenant :: "(string \<times> Money) option \<Rightarrow> string list" where
  "state_tenant st = (case st of None \<Rightarrow> [] | Some (u, m) \<Rightarrow> [u])"

lemma running_loop_Cons_Inr:
  "running_loop st (row # rows) = Inr tr \<longleftrightarrow> (\<exists>r0 m tr'.
     (case st of Some (u, running) \<Rightarrow>
         if te_TenantID row \<noteq> u then zeroMoney (currency (e_amount (te_Entry row))) else Inr running
       | None \<Rightarrow> zeroMoney (currency (e_amount (te_Entry row)))) = Inr r0 \<and>
     Money_Add r0 (e_amount (te_Entry row)) = Inr m \<and>
     running_loop (Some (te_TenantID row, m)) rows = Inr tr' \<and>
     tr = \<lparr>trace_TenantID = te_TenantID row, trace_Entry = te_Entry row, trace_RunningBalance = m\<rparr> # tr')"
  by (auto simp: Let_def split: sum.splits)

declare running_loop.simps(2) [simp del]

lemma trace_tenants: "running_loop st rows = Inr tr \<Longrightarrow> map trace_TenantID tr = map te_TenantID rows"
  by (induction rows arbitrary: st tr) (auto simp: running_loop_Cons_Inr)

text \<open>One tenant's part of a trace is the trace of that tenant's rows.\<close>

lemma running_loop_restrict:
  "contiguous (state_tenant st @ map te_TenantID rows) \<Longrightarrow> running_loop st rows = Inr tr \<Longrightarrow>
     running_loop (restricted t st) (filter (\<lambda>r. te_TenantID r = t) rows) =
       Inr (filter (\<lambda>x. trace_TenantID x = t) tr)"
proof (induction rows arbitrary: st tr)
  case (Cons row rows)
  from Cons.prems(2) obtain r0 m tr' where
    r0: "(case st of Some (u, running) \<Rightarrow>
         if te_TenantID row \<noteq> u then zeroMoney (currency (e_amount (te_Entry row))) else Inr running
       | None \<Rightarrow> zeroMoney (currency (e_amount (te_Entry row)))) = Inr r0"
    and m: "Money_Add r0 (e_amount (te_Entry row)) = Inr m"
    and rest: "running_loop (Some (te_TenantID row, m)) rows = Inr tr'"
    and tr: "tr = \<lparr>trace_TenantID = te_TenantID row, trace_Entry = te_Entry row, trace_RunningBalance = m\<rparr> # tr'"
    by (auto simp: running_loop_Cons_Inr)
  have cont: "contiguous (state_tenant (Some (te_TenantID row, m)) @ map te_TenantID rows)"
    using Cons.prems(1) by (auto simp: state_tenant_def split: option.splits dest: contiguous_tl)
  note IH = Cons.IH [OF cont rest]
  show ?case
  proof (cases "te_TenantID row = t")
    case True
    then show ?thesis
      using IH r0 m tr
      by (auto simp: running_loop_Cons_Inr restricted_def split: option.splits if_splits)
  next
    case False
    show ?thesis
    proof (cases "restricted t st")
      case None
      then show ?thesis using IH False tr by (simp add: restricted_def)
    next
      case (Some p)
      then have "state_tenant st = [t]"
        by (auto simp: restricted_def state_tenant_def split: option.splits if_splits)
      then have none: "t \<notin> set (map te_TenantID rows)" using Cons.prems(1) False by auto
      then have "filter (\<lambda>r. te_TenantID r = t) rows = []" by (auto simp: filter_empty_conv)
      moreover have "filter (\<lambda>x. trace_TenantID x = t) tr' = []"
        using none trace_tenants [OF rest] by (auto simp: filter_empty_conv) (metis image_eqI list.set_map)
      ultimately show ?thesis using False tr by simp
    qed
  qed
qed simp

text \<open>Over rows of one known currency the fold never fails, and it ends at the sum.\<close>

lemma running_loop_total:
  assumes "\<forall>r \<in> set rows. currency (e_amount (te_Entry r)) = c" and "known_currency c"
    and "\<forall>u m. st = Some (u, m) \<longrightarrow> currency m = c"
  shows "\<exists>tr. running_loop st rows = Inr tr"
  using assms
proof (induction rows arbitrary: st)
  case (Cons row rows)
  have c: "currency (e_amount (te_Entry row)) = c" using Cons.prems(1) by simp
  have "\<exists>r0. (case st of Some (u, running) \<Rightarrow>
         if te_TenantID row \<noteq> u then zeroMoney (currency (e_amount (te_Entry row))) else Inr running
       | None \<Rightarrow> zeroMoney (currency (e_amount (te_Entry row)))) = Inr r0 \<and> currency r0 = c"
    using Cons.prems(2,3) c by (cases st) (auto simp: zeroMoney_def NewMoney_eq)
  then obtain r0 where r0: "(case st of Some (u, running) \<Rightarrow>
         if te_TenantID row \<noteq> u then zeroMoney (currency (e_amount (te_Entry row))) else Inr running
       | None \<Rightarrow> zeroMoney (currency (e_amount (te_Entry row)))) = Inr r0" and "currency r0 = c" by blast
  then obtain m where m: "Money_Add r0 (e_amount (te_Entry row)) = Inr m" and "currency m = c"
    using c by (simp add: Money_Add_def)
  then obtain tr where "running_loop (Some (te_TenantID row, m)) rows = Inr tr"
    using Cons.IH [of "Some (te_TenantID row, m)"] Cons.prems by auto
  then show ?case using r0 m by (auto simp: running_loop_Cons_Inr)
qed simp

lemma running_loop_last:
  "running_loop (Some (t, m)) rows = Inr tr \<Longrightarrow> \<forall>r \<in> set rows. te_TenantID r = t \<Longrightarrow> rows \<noteq> [] \<Longrightarrow>
     trace_RunningBalance (last tr) =
       \<lparr>minorUnits = minorUnits m + sum_list (map (\<lambda>r. minorUnits (e_amount (te_Entry r))) rows),
        currency = currency m\<rparr>"
proof (induction rows arbitrary: m tr)
  case (Cons row rows)
  then obtain n tr' where n: "Money_Add m (e_amount (te_Entry row)) = Inr n"
      "running_loop (Some (t, n)) rows = Inr tr'"
      "tr = \<lparr>trace_TenantID = t, trace_Entry = te_Entry row, trace_RunningBalance = n\<rparr> # tr'"
    by (auto simp: running_loop_Cons_Inr)
  have nm: "minorUnits n = minorUnits m + minorUnits (e_amount (te_Entry row))" "currency n = currency m"
    using n(1) by (auto simp: Money_Add_Inr_iff)
  show ?case
  proof (cases "rows = []")
    case True
    then show ?thesis using n nm by (cases n) auto
  next
    case False
    then have "tr' \<noteq> []" using trace_tenants [OF n(2)] by auto
    then show ?thesis using Cons.IH [OF n(2)] Cons.prems(2) False n(3) nm by (simp add: add.assoc)
  qed
qed simp

section \<open>What \<open>GetEntries\<close> answers\<close>

definition account_history :: "(string \<Rightarrow> string) \<Rightarrow> TenantScope \<Rightarrow> string \<Rightarrow> db \<Rightarrow> entry_row list" where
  "account_history collate scope i d = sort_key
     (\<lambda>r. (collate (er_tenant r), er_recorded_at r, sint (er_sequence r)))
     (filter (\<lambda>r. in_scope scope (er_tenant r) \<and> er_account r = i) (entries d))"

definition row_tenant_entry :: "string \<Rightarrow> entry_row \<Rightarrow> TenantEntry" where
  "row_tenant_entry i r = \<lparr>te_TenantID = er_tenant r, te_Entry =
     \<lparr>e_transactionID = er_transaction r, e_accountID = i, e_counterparty = er_counterparty r,
      e_amount = \<lparr>minorUnits = er_amount r, currency = er_currency r\<rparr>,
      e_recordedAt = er_recorded_at r, e_sequence = er_sequence r\<rparr>\<rparr>"

definition trace_on :: "(string \<Rightarrow> string) \<Rightarrow> TenantScope \<Rightarrow> string \<Rightarrow> db \<Rightarrow> TracedEntry list" where
  "trace_on collate scope i d =
     projr (runningBalances (map (row_tenant_entry i) (account_history collate scope i d)))"

definition known_to :: "TenantScope \<Rightarrow> string \<Rightarrow> db \<Rightarrow> bool" where
  "known_to scope i d \<longleftrightarrow> (case Resolve scope of (t, scoped) \<Rightarrow>
     if scoped then account_exists d t i else \<exists>r \<in> set (accounts d). ar_id r = i)"

lemma history_subset: "set (account_history c scope i d) \<subseteq> set (entries d)"
  by (auto simp: account_history_def)

lemma runningBalances_trace:
  assumes "single_currency d"
  shows "runningBalances (map (row_tenant_entry i) (account_history c scope i d)) = Inr (trace_on c scope i d)"
proof -
  have "er_currency r = ledgerCurrency" if "r \<in> set (account_history c scope i d)" for r
    using assms history_subset that by (fastforce simp: single_currency_def)
  then have "\<exists>tr. running_loop None (map (row_tenant_entry i) (account_history c scope i d)) = Inr tr"
    by (intro running_loop_total [where c = ledgerCurrency]) (auto simp: row_tenant_entry_def)
  then show ?thesis by (auto simp: trace_on_def runningBalances_def)
qed

lemma scanAccountEntries_books:
  assumes "single_currency d" and "set rs \<subseteq> set (entries d)"
  shows "scanAccountEntries rs i = Inr (map (row_tenant_entry i) rs)"
  unfolding scanAccountEntries_def
  by (rule scan_all_map)
     (use assms in \<open>auto simp: entryFromRow_def NewMoney_eq NewEntry_def single_currency_def row_tenant_entry_def\<close>)

lemma wp_EntriesFor:
  assumes "quiet v" "clean v" "single_currency (w_committed v)"
  shows "wp (EntriesFor scope i) (\<lambda>es u. since v u \<and> clean u \<and> w_committed u = w_committed v \<and>
      es = map (row_tenant_entry i) (account_history (w_collate v) scope i (w_committed v))) (\<lambda>_ _. False) v"
  unfolding EntriesFor_def wp_bindE wp_sorted_query account_history_def [symmetric]
  by (rule wp_query_quiet [OF assms(1,2)])
     (simp add: scanAccountEntries_books [OF assms(3) history_subset])

lemma GetEntries_trace:
  assumes w: "quiet w" "books (w_committed w)" and k: "known_to scope i (w_committed w)"
  shows "\<exists>w'. GetEntries scope i w = (Inr (trace_on (w_collate w) scope i (w_committed w)), w') \<and>
     w_committed w' = w_committed w"
proof -
  let ?d = "w_committed w"
  have sc: "single_currency ?d" using w(2) by (simp add: books_def)
  obtain t scoped where s: "Resolve scope = (t, scoped)" by fastforce
  let ?head = "if scoped then bindE (accounts_Get t i) (\<lambda>_. ret ())
     else bindE (ExistsAnyTenant i) (\<lambda>exists.
       if \<not> exists then throw (ErrViolation (NewUnknownAccount i)) else ret ())"
  have "wp (withUnitOfWork (bindE ?head (\<lambda>_. EntriesFor scope i)))
      (\<lambda>es u. w_committed u = ?d \<and> es = map (row_tenant_entry i) (account_history (w_collate w) scope i ?d))
      (\<lambda>_ _. False) w"
  proof (rule withUnitOfWork_reliable)
    show "\<not> faulty w" using w(1) by (simp add: quiet_def)
    fix v assume v: "since w v" "clean v"
    then have d: "w_committed v = ?d" and q: "quiet v" using quiet_since [OF w(1)] by blast+
    have col: "w_collate v = w_collate w" using v(1) by (simp add: since_def same_run_def)
    have head: "wp ?head (\<lambda>_ u. since v u \<and> clean u \<and> quiet u \<and> w_committed u = ?d) (\<lambda>_ _. False) v"
    proof (cases scoped)
      case True
      then obtain r where r: "db_account ?d t i = Some r"
        using k s by (auto simp: known_to_def account_exists_def)
      have "wp (accounts_Get t i) (\<lambda>_ u. since v u \<and> clean u \<and> quiet u \<and> w_committed u = ?d) (\<lambda>_ _. False) v"
        unfolding accounts_Get_def wp_bindE
        by (rule wp_query_quiet [OF q v(2)])
           (use d r books_scanAccount [OF w(2) r] in simp)
      then show ?thesis using True by simp
    next
      case False
      then have "\<exists>r \<in> set (accounts ?d). ar_id r = i" using k s by (simp add: known_to_def)
      then have "wp (ExistsAnyTenant i) (\<lambda>b u. b \<and> since v u \<and> clean u \<and> quiet u \<and> w_committed u = ?d)
          (\<lambda>_ _. False) v"
        unfolding ExistsAnyTenant_def by (intro wp_query_quiet [OF q v(2)]) (simp add: d)
      then show ?thesis using False by (simp, elim wp_mono) auto
    qed
    show "wp (bindE ?head (\<lambda>_. EntriesFor scope i)) (\<lambda>x u. same_run v u \<and> (\<forall>w'. commits u w' \<longrightarrow>
        w_committed w' = ?d \<and> x = map (row_tenant_entry i) (account_history (w_collate w) scope i ?d)))
        (\<lambda>e u. \<forall>w'. since u w' \<longrightarrow> False) v"
    proof (subst wp_bindE, rule wp_mono [OF head])
      fix x u assume u: "since v u \<and> clean u \<and> quiet u \<and> w_committed u = ?d"
      then have "wp (EntriesFor scope i) (\<lambda>es x. since u x \<and> clean x \<and> w_committed x = w_committed u \<and>
          es = map (row_tenant_entry i) (account_history (w_collate u) scope i (w_committed u))) (\<lambda>_ _. False) u"
        using sc by (intro wp_EntriesFor) simp_all
      moreover have "w_collate u = w_collate w" using u col by (simp add: since_def same_run_def)
      ultimately show "wp (EntriesFor scope i) (\<lambda>x u. same_run v u \<and> (\<forall>w'. commits u w' \<longrightarrow>
        w_committed w' = ?d \<and> x = map (row_tenant_entry i) (account_history (w_collate w) scope i ?d)))
        (\<lambda>e u. \<forall>w'. since u w' \<longrightarrow> False) u"
        by (elim wp_mono) (use u in \<open>auto simp: commits_def clean_def since_def intro: same_run_trans\<close>)
    qed simp
  qed
  then have "wp (GetEntries scope i) (\<lambda>tr u. w_committed u = ?d \<and> tr = trace_on (w_collate w) scope i ?d)
      (\<lambda>_ _. False) w"
    unfolding GetEntries_def s prod.case
    by (subst wp_bindE, elim wp_mono) (simp_all add: runningBalances_trace [OF sc])
  then show ?thesis by (auto dest: wp_False_Inl)
qed

section \<open>Tenants are not mixed, and the trace ends at the balance\<close>

lemma Resolve_cases:
  "Resolve scope = (t, scoped) \<Longrightarrow> in_scope scope u \<longleftrightarrow> (scoped \<longrightarrow> u = t)"
  by (simp add: in_scope_def)

lemma account_history_restrict:
  "in_scope scope t \<Longrightarrow> filter (\<lambda>r. er_tenant r = t) (account_history c scope i d) =
     account_history c (ScopedToTenant t) i d"
  unfolding account_history_def filter_sort filter_filter
  by (intro arg_cong [where f = "sort_key _"] filter_cong) auto

lemma account_history_contiguous:
  assumes "inj c"
  shows "contiguous (map te_TenantID (map (row_tenant_entry i) (account_history c scope i d)))"
proof (rule sorted_contiguous [OF _ assms])
  let ?key = "\<lambda>r. (c (er_tenant r), er_recorded_at r, sint (er_sequence r))"
  have "sorted (map ?key (account_history c scope i d))" unfolding account_history_def by (rule sorted_sort_key)
  then have "sorted (map fst (map ?key (account_history c scope i d)))"
    by (rule sorted_map_mono) (auto simp: mono_on_def less_eq_prod_def)
  then show "sorted (map c (map te_TenantID (map (row_tenant_entry i) (account_history c scope i d))))"
    by (simp add: row_tenant_entry_def comp_def)
qed

lemma trace_on_restrict:
  assumes "single_currency d" and "inj c" and "in_scope scope t"
  shows "filter (\<lambda>x. trace_TenantID x = t) (trace_on c scope i d) = trace_on c (ScopedToTenant t) i d"
proof -
  let ?rows = "\<lambda>s. map (row_tenant_entry i) (account_history c s i d)"
  have "running_loop None (?rows scope) = Inr (trace_on c scope i d)"
    using runningBalances_trace [OF assms(1)] by (simp add: runningBalances_def)
  from running_loop_restrict [OF _ this, of t]
  have "running_loop None (filter (\<lambda>r. te_TenantID r = t) (?rows scope)) =
      Inr (filter (\<lambda>x. trace_TenantID x = t) (trace_on c scope i d))"
    using account_history_contiguous [OF assms(2)] by (simp add: state_tenant_def restricted_def)
  moreover have "filter (\<lambda>r. te_TenantID r = t) (?rows scope) = ?rows (ScopedToTenant t)"
    using account_history_restrict [OF assms(3)]
    by (simp add: filter_map comp_def row_tenant_entry_def)
  moreover have "running_loop None (?rows (ScopedToTenant t)) = Inr (trace_on c (ScopedToTenant t) i d)"
    using runningBalances_trace [OF assms(1)] by (simp add: runningBalances_def)
  ultimately show ?thesis by simp
qed

lemma sum_list_sort_key: "sum_list (map f (sort_key k xs)) = sum_list (map f xs)"
  for f :: "'a \<Rightarrow> int64"
proof -
  have "sum_mset (mset (map f (sort_key k xs))) = sum_mset (mset (map f xs))" by simp
  then show ?thesis by (simp only: sum_mset_sum_list)
qed

lemma sum_words_amounts: "sum_list (map er_amount es) = word_of_int (amounts es)"
  by (induction es) simp_all

lemma trace_ends_at_balance:
  assumes "books d" and "db_account d t i = Some r" and "trace_on c (ScopedToTenant t) i d \<noteq> []"
  shows "trace_RunningBalance (last (trace_on c (ScopedToTenant t) i d)) =
     \<lparr>minorUnits = ar_balance r, currency = ar_currency r\<rparr>"
proof -
  let ?es = "account_history c (ScopedToTenant t) i d"
  let ?rows = "map (row_tenant_entry i) ?es"
  have sc: "single_currency d" using assms(1) by (simp add: books_def)
  have key: "ar_tenant r = t" "ar_id r = i" "r \<in> set (accounts d)" using db_account_key [OF assms(2)] by auto
  have loop: "running_loop None ?rows = Inr (trace_on c (ScopedToTenant t) i d)"
    using runningBalances_trace [OF sc] by (simp add: runningBalances_def)
  then obtain e es where es: "?rows = e # es" using assms(3) by (cases ?rows) auto
  have tn: "\<forall>x \<in> set ?rows. te_TenantID x = t"
    by (auto simp: account_history_def row_tenant_entry_def)
  have cur: "\<forall>x \<in> set ?rows. currency (e_amount (te_Entry x)) = ledgerCurrency"
    using sc by (auto simp: account_history_def row_tenant_entry_def single_currency_def)
  let ?z = "\<lparr>minorUnits = 0, currency = ledgerCurrency\<rparr>"
  have "running_loop (Some (t, ?z)) ?rows = Inr (trace_on c (ScopedToTenant t) i d)"
  proof -
    have "zeroMoney (currency (e_amount (te_Entry e))) = Inr ?z"
      using cur es by (simp add: zeroMoney_def NewMoney_eq)
    then show ?thesis using loop tn unfolding es by (simp add: running_loop.simps(2))
  qed
  from running_loop_last [OF this tn] es
  have last: "trace_RunningBalance (last (trace_on c (ScopedToTenant t) i d)) =
      \<lparr>minorUnits = sum_list (map (\<lambda>r. minorUnits (e_amount (te_Entry r))) ?rows), currency = ledgerCurrency\<rparr>"
    by simp
  have "sum_list (map (\<lambda>r. minorUnits (e_amount (te_Entry r))) ?rows) = sum_list (map er_amount ?es)"
    by (simp add: row_tenant_entry_def comp_def)
  also have "\<dots> = word_of_int (amounts (filter (\<lambda>r. er_tenant r = t \<and> er_account r = i) (entries d)))"
    unfolding account_history_def sum_list_sort_key sum_words_amounts by simp
  also have "\<dots> = ar_balance r"
    using assms(1) key by (simp add: books_def derived_def flip: entry_total_def) (metis word_of_int_sint_int64)
  finally show ?thesis
    using last sc key(3) by (simp add: single_currency_def)
qed

end
