(* ===== verification/Samples.thy ===== *)
theory Samples
  imports EndToEnd Trace
begin

text \<open>
  Concrete states: a small ledger of two linked business tenants, one funded wallet on each
  side, and a quiet world over it. Witnesses and example runs start here.
\<close>

definition usd :: "int \<Rightarrow> Money" where
  "usd n = \<lparr>minorUnits = word_of_int n, currency = ''USD''\<rparr>"

definition sample_db :: db where
  "sample_db = \<lparr>
     accounts = [
       \<lparr>ar_tenant = ''a'', ar_id = ''w'', ar_kind = Wallet, ar_balance = 500, ar_currency = ''USD''\<rparr>,
       \<lparr>ar_tenant = ''a'', ar_id = ''k'', ar_kind = System, ar_balance = - 500, ar_currency = ''USD''\<rparr>,
       \<lparr>ar_tenant = ''b'', ar_id = ''w'', ar_kind = Wallet, ar_balance = 0, ar_currency = ''USD''\<rparr>],
     transactions = [\<lparr>tr_tenant = ''a'', tr_id = ''t'', tr_recorded_at = 0\<rparr>],
     entries = [leg ''a'' ''t'' ''k'' ''w'' (- 500) ''USD'' 0 0, leg ''a'' ''t'' ''w'' ''k'' 500 ''USD'' 0 1],
     idempotency_keys = [\<lparr>kr_key = ''q'', kr_fingerprint = ''f'', kr_transaction = ''t''\<rparr>],
     tenants = [\<lparr>tn_id = ''tnt_platform'', tn_name = ''p'', tn_hash = ''p''\<rparr>,
                \<lparr>tn_id = ''a'', tn_name = ''a'', tn_hash = ''a''\<rparr>,
                \<lparr>tn_id = ''b'', tn_name = ''b'', tn_hash = ''b''\<rparr>],
     tenant_links = [\<lparr>lr_id = ''l'', lr_a = ''a'', lr_b = ''b'', lr_status = TenantLinkActive\<rparr>],
     counterparty_aliases = [\<lparr>al_tenant = ''a'', al_alias = ''m'', al_link = ''l'',
       al_target_tenant = ''b'', al_target_account = ''w''\<rparr>],
     transfer_states = []\<rparr>"

text \<open>A world in which nothing fails and nobody else commits, over a given database.\<close>

definition quiet_world :: "db \<Rightarrow> world" where
  "quiet_world d = \<lparr>w_committed = d, w_db = d, w_locks = [], w_dirty = False,
     w_clock = (\<lambda>n. int n * 1000000), w_reads = 0, w_ids = (\<lambda>n. CHR ''i'' # dec_text n), w_minted = 0,
     w_faults = (\<lambda>_. NoFault), w_ops = 0, w_env = (\<lambda>_ d. d), w_turns = 0,
     w_collate = (\<lambda>s. s), w_sha256hex = (\<lambda>s. s)\<rparr>"

lemma quiet_world_sel [simp]:
  "w_committed (quiet_world d) = d" "w_clock (quiet_world d) n = int n * 1000000"
  "w_ids (quiet_world d) n = CHR ''i'' # dec_text n" "w_collate (quiet_world d) s = s"
  "w_reads (quiet_world d) = 0" "w_minted (quiet_world d) = 0"
  by (simp_all add: quiet_world_def)

lemma quiet_quiet_world [simp]: "quiet (quiet_world d)"
  by (simp add: quiet_def faulty_def quiet_world_def)

definition balances :: "coordinator \<Rightarrow> (string \<times> string \<times> int) list" where
  "balances c = map (\<lambda>r. (ar_tenant r, ar_id r, sint (ar_balance r))) (accounts (w_committed (co_world c)))"

definition statuses :: "coordinator \<Rightarrow> (string \<times> string) list" where
  "statuses c = map (\<lambda>r. (xr_id r, xr_status r)) (transfer_states (w_committed (co_world c)))"

section \<open>The sample ledger is in order\<close>

lemma sample_rows [simp]:
  "transactions sample_db = [\<lparr>tr_tenant = ''a'', tr_id = ''t'', tr_recorded_at = 0\<rparr>]"
  "entries sample_db = [leg ''a'' ''t'' ''k'' ''w'' (- 500) ''USD'' 0 0, leg ''a'' ''t'' ''w'' ''k'' 500 ''USD'' 0 1]"
  "idempotency_keys sample_db = [\<lparr>kr_key = ''q'', kr_fingerprint = ''f'', kr_transaction = ''t''\<rparr>]"
  "transfer_states sample_db = []"
  by (simp_all add: sample_db_def)

lemma sample_accounts:
  "db_account sample_db ''a'' ''w'' =
     Some \<lparr>ar_tenant = ''a'', ar_id = ''w'', ar_kind = Wallet, ar_balance = 500, ar_currency = ''USD''\<rparr>"
  "db_account sample_db ''a'' ''k'' =
     Some \<lparr>ar_tenant = ''a'', ar_id = ''k'', ar_kind = System, ar_balance = - 500, ar_currency = ''USD''\<rparr>"
  "db_account sample_db ''b'' ''w'' =
     Some \<lparr>ar_tenant = ''b'', ar_id = ''w'', ar_kind = Wallet, ar_balance = 0, ar_currency = ''USD''\<rparr>"
  by (simp_all add: db_account_def account_key_def sample_db_def)

lemma sample_tenants:
  "tenant_exists sample_db ''a''" "tenant_exists sample_db ''b''" "tenant_exists sample_db ''tnt_platform''"
  by (simp_all add: tenant_exists_def db_tenant_def sample_db_def)

lemma sample_books [simp]: "books sample_db"
proof -
  have "schema sample_db" by (simp add: schema_def account_key_def sample_db_def)
  moreover have "references sample_db"
    using sample_accounts sample_tenants
    by (simp add: references_def account_exists_def transaction_exists_def) (simp add: sample_db_def)
  moreover have "balanced sample_db" by (simp add: balanced_def)
  moreover have "derived sample_db" by (simp add: derived_def entry_total_def) (simp add: sample_db_def)
  moreover have "floored sample_db" by (simp add: floored_def sample_db_def)
  moreover have "single_currency sample_db"
    by (simp add: single_currency_def ledgerCurrency_def) (simp add: sample_db_def)
  ultimately show ?thesis by (simp add: books_def)
qed

lemma sample_zero_sum [simp]: "zero_sum sample_db"
  by (simp add: zero_sum_def)

lemma sample_journal [simp]: "journal sample_db"
proof -
  have "entry_pair sample_db \<lparr>tr_tenant = ''a'', tr_id = ''t'', tr_recorded_at = 0\<rparr>"
    unfolding entry_pair_def
    by (rule exI [of _ "''k''"], rule exI [of _ "''w''"], rule exI [of _ 500], rule exI [of _ "''USD''"]) simp
  then show ?thesis using sample_books by (simp add: journal_def double_entry_def claimed_once_def books_def)
qed

lemma sample_links [simp]: "links_canonical sample_db"
  by (simp add: links_canonical_def sample_db_def)

lemma sample_transfers [simp]: "transfers_unique sample_db"
  by (simp add: transfers_unique_def)

lemma well_behaved_quiet_world [simp]: "well_behaved (quiet_world d)"
  by (rule quiet_well_behaved) simp

lemma not_faulty_quiet_world [simp]: "\<not> faulty (quiet_world d)"
  by (simp add: faulty_def quiet_world_def)

definition sample_request :: "string \<Rightarrow> string \<Rightarrow> int \<Rightarrow> string \<Rightarrow> string \<Rightarrow> TransferRequest" where
  "sample_request a b n k fp = \<lparr>req_From = a, req_To = b, req_Amount = usd n,
     req_IdempotencyKey = k, req_Fingerprint = fp, req_TenantID = ''a''\<rparr>"

lemma sample_movable: "movable ''a'' ''w'' ''k'' (usd 200) sample_db"
  by (simp add: movable_def sample_accounts usd_def in_int64_def)

section \<open>A transfer on its way\<close>

text \<open>The accounts a transfer from \<open>a\<close> to \<open>b\<close> needs are opened; then leg 1 is posted.\<close>

lemma sample_provisioned [simp]:
  "accounts (provisioned ''a'' ''b'' sample_db) = accounts sample_db @
     [\<lparr>ar_tenant = ''a'', ar_id = ''settlement'', ar_kind = System, ar_balance = 0, ar_currency = ''USD''\<rparr>,
      \<lparr>ar_tenant = ''tnt_platform'', ar_id = ''platform-a'', ar_kind = System, ar_balance = 0, ar_currency = ''USD''\<rparr>,
      \<lparr>ar_tenant = ''b'', ar_id = ''settlement'', ar_kind = System, ar_balance = 0, ar_currency = ''USD''\<rparr>,
      \<lparr>ar_tenant = ''tnt_platform'', ar_id = ''platform-b'', ar_kind = System, ar_balance = 0, ar_currency = ''USD''\<rparr>]"
  by (simp add: provisioned_def ensured_def account_exists_def db_account_def account_key_def sample_db_def
      settlementAccountName_def platformTenantID_def platformMirrorAccountID_def ledgerCurrency_def)

lemma sample_accounts_list:
  "accounts sample_db =
     [\<lparr>ar_tenant = ''a'', ar_id = ''w'', ar_kind = Wallet, ar_balance = 500, ar_currency = ''USD''\<rparr>,
      \<lparr>ar_tenant = ''a'', ar_id = ''k'', ar_kind = System, ar_balance = - 500, ar_currency = ''USD''\<rparr>,
      \<lparr>ar_tenant = ''b'', ar_id = ''w'', ar_kind = Wallet, ar_balance = 0, ar_currency = ''USD''\<rparr>]"
  by (simp add: sample_db_def)

definition transfer_db :: db where
  "transfer_db = recorded (newTransferState ''x'' ''a'' ''K'' 0 (''b'', ''w'') (usd 200))
     (posted ''a'' ''w'' settlementAccountName (usd 200) ''u'' 0 ''K'' ''f'' (provisioned ''a'' ''b'' sample_db))"

lemma sample_movable_provisioned:
  "movable ''a'' ''w'' settlementAccountName (usd 200) (provisioned ''a'' ''b'' sample_db)"
  "movable platformTenantID (platformMirrorAccountID ''a'') (platformMirrorAccountID ''b'') (usd 200)
     (provisioned ''a'' ''b'' sample_db)"
  "movable ''b'' settlementAccountName ''w'' (usd 200) (provisioned ''a'' ''b'' sample_db)"
  by (simp_all add: movable_def db_account_def account_key_def sample_accounts_list settlementAccountName_def
      platformTenantID_def platformMirrorAccountID_def usd_def in_int64_def)

lemma sample_wallet:
  "sender_wallet (\<lambda>s. s) ''a'' (provisioned ''a'' ''b'' sample_db) = Inr ''w''"
  by (simp add: sender_wallet_def account_order_def Resolve_def ScopedToTenant_def sample_accounts_list
      first_wallet_def row_account_def)

lemma sample_tenants_more: "tenant_exists sample_db platformTenantID"
  using sample_tenants(3) by (simp add: platformTenantID_def)

lemma platform_named [simp]: "platformTenantID \<noteq> []"
  by (simp add: platformTenantID_def)

lemma provisioned_books: "books (provisioned ''a'' ''b'' sample_db)"
  unfolding provisioned_def
  by (intro ensured_books) (simp_all add: sample_tenants sample_tenants_more platform_named)

lemma transfer_books [simp]: "books transfer_db"
proof -
  let ?p = "provisioned ''a'' ''b'' sample_db"
  let ?d = "posted ''a'' ''w'' settlementAccountName (usd 200) ''u'' 0 ''K'' ''f'' ?p"
  have t: "tenant_exists ?p x = tenant_exists sample_db x" for x by (simp add: provisioned_def)
  have "commit_step ?p ?d"
    by (rule commit_step.step_post [OF sample_movable_provisioned(1)])
       (simp_all add: t sample_tenants transaction_exists_def db_key_def)
  then have "books ?d" using provisioned_books books.step by blast
  then show ?thesis by (simp add: transfer_db_def recorded_books)
qed

text \<open>
  Worlds as the quiet one with another clock: one in which 20 seconds pass between any two
  readings, one whose first reading is half a millisecond before 0.
\<close>

definition with_clock :: "(nat \<Rightarrow> time) \<Rightarrow> db \<Rightarrow> world" where
  "with_clock f d = (quiet_world d)\<lparr>w_clock := f\<rparr>"

abbreviation slow_world :: "db \<Rightarrow> world" where
  "slow_world \<equiv> with_clock (\<lambda>n. int n * (20 * second))"

abbreviation early_world :: "db \<Rightarrow> world" where
  "early_world \<equiv> with_clock (\<lambda>n. int n * 1000000 - 500000)"

lemma with_clock_sel [simp]:
  "w_committed (with_clock f d) = d" "w_clock (with_clock f d) = f"
  "w_collate (with_clock f d) = (\<lambda>s. s)" "w_reads (with_clock f d) = 0"
  "w_collate (quiet_world d) = (\<lambda>s. s)"
  by (simp_all add: with_clock_def quiet_world_def)

lemma steady_with_clock:
  assumes "books d" and "\<And>s. \<not> transaction_exists d (CHR ''i'' # s)" and "\<And>i j. i \<le> j \<Longrightarrow> f i \<le> f j"
  shows "steady (with_clock f d)"
proof -
  have "inj (\<lambda>n. CHR ''i'' # dec_text n)" by (simp add: inj_def dec_text_inject)
  then have "fresh_ids (with_clock f d)"
    using assms(2) by (simp add: fresh_ids_def with_clock_def quiet_world_def)
  moreover have "ticking (with_clock f d)" using assms(3) by (simp add: ticking_def)
  moreover have "quiet (with_clock f d)" by (simp add: quiet_def faulty_def with_clock_def quiet_world_def)
  ultimately show ?thesis using assms(1) by (simp add: steady_def)
qed

lemma quiet_world_clock: "quiet_world d = with_clock (\<lambda>n. int n * 1000000) d"
  by (simp add: with_clock_def quiet_world_def)

lemma sample_ids: "\<not> transaction_exists sample_db (CHR ''i'' # s)" "\<not> transaction_exists transfer_db (CHR ''i'' # s)"
  by (simp add: transaction_exists_def) (simp add: transaction_exists_def transfer_db_def posted_def)

lemma steady_samples [simp]:
  "steady (quiet_world sample_db)" "steady (quiet_world transfer_db)" "steady (slow_world transfer_db)"
  "steady (early_world transfer_db)"
  unfolding quiet_world_clock
  by (rule steady_with_clock, simp_all add: sample_ids second_def)+

lemma sample_rows_more:
  "tenant_links sample_db = [\<lparr>lr_id = ''l'', lr_a = ''a'', lr_b = ''b'', lr_status = TenantLinkActive\<rparr>]"
  "counterparty_aliases sample_db = [\<lparr>al_tenant = ''a'', al_alias = ''m'', al_link = ''l'',
     al_target_tenant = ''b'', al_target_account = ''w''\<rparr>]"
  by (simp_all add: sample_db_def)

lemma sample_keys [simp]:
  "db_key sample_db k =
     (if k = ''q'' then Some \<lparr>kr_key = ''q'', kr_fingerprint = ''f'', kr_transaction = ''t''\<rparr> else None)"
  by (simp add: db_key_def)

lemma sample_transferable:
  "transferable (\<lambda>s. s) ''a'' ''m'' ''w'' ''b'' ''w'' (usd 200) ''K'' sample_db"
  using sample_movable_provisioned sample_wallet sample_tenants sample_tenants_more
  by (simp add: transferable_def resolves_def db_alias_def alias_key_def db_link_def sample_rows_more)
     (simp add: platformTenantID_def settlementAccountName_def)

definition sample_row :: transfer_row where
  "sample_row = transfer_to_row (newTransferState ''x'' ''a'' ''K'' 0 (''b'', ''w'') (usd 200))"

abbreviation sample_state :: TransferState where
  "sample_state \<equiv> newTransferState ''x'' ''a'' ''K'' 0 (''b'', ''w'') (usd 200)"

lemma transfer_row [simp]: "db_transfer transfer_db ''x'' = Some sample_row"
  using recorded_transfer [of "posted ''a'' ''w'' settlementAccountName (usd 200) ''u'' 0 ''K'' ''f''
      (provisioned ''a'' ''b'' sample_db)" sample_state]
  by (simp add: transfer_db_def sample_row_def newTransferState_def db_transfer_def)

lemma sample_scan [simp]: "scanTransferState sample_row = Inr sample_state"
  using scanTransferState_transfer_to_row [of sample_state]
  by (simp add: sample_row_def newTransferState_def usd_def timestamptz_def)

lemma sample_due [simp]: "0 \<le> now \<Longrightarrow> claimable sample_row now"
  by (simp add: claimable_def sample_row_def transfer_to_row_def newTransferState_def legPending_def timestamptz_def)

lemma transfer_keys [simp]:
  "db_key transfer_db k = (case db_key sample_db k of Some r \<Rightarrow> Some r
     | None \<Rightarrow> if ''K'' = k then Some \<lparr>kr_key = ''K'', kr_fingerprint = ''f'', kr_transaction = ''u''\<rparr> else None)"
  by (simp add: transfer_db_def posted_key)

lemma transfer_movable:
  "movable ''a'' settlementAccountName ''w'' (usd 200) transfer_db"
  "movable platformTenantID (platformMirrorAccountID ''a'') (platformMirrorAccountID ''b'') (usd 200) transfer_db"
  "movable ''b'' settlementAccountName ''w'' (usd 200) transfer_db"
proof -
  show "movable platformTenantID (platformMirrorAccountID ''a'') (platformMirrorAccountID ''b'') (usd 200) transfer_db"
    "movable ''b'' settlementAccountName ''w'' (usd 200) transfer_db"
    using sample_movable_provisioned by (simp_all add: transfer_db_def posted_other_tenant platformTenantID_def)
  show "movable ''a'' settlementAccountName ''w'' (usd 200) transfer_db"
    by (simp add: movable_def transfer_db_def posted_account)
       (simp add: db_account_def account_key_def sample_accounts_list settlementAccountName_def usd_def
          apply_delta_def in_int64_def)
qed

lemma transfer_payable:
  "payable sample_state 2 transfer_db" "payable sample_state 3 transfer_db"
  "refundable sample_state ''w'' transfer_db" "sender_apart sample_state"
  using transfer_movable
  by (simp_all add: payable_def legMovement_def newTransferState_def platformMirrorAccountID_def
      refundable_def legReverseKey_def sender_apart_def)
     (simp_all add: settlementAccountName_def platformTenantID_def)

lemma transfer_wallet: "sender_wallet (\<lambda>s. s) ''a'' transfer_db = Inr ''w''"
proof -
  have "accounts transfer_db = map (apply_delta ''a'' settlementAccountName ''USD'' 200)
      (map (apply_delta ''a'' ''w'' ''USD'' (- 200)) (accounts (provisioned ''a'' ''b'' sample_db)))"
    by (simp add: transfer_db_def recorded_def posted_def usd_def)
  then show ?thesis
    by (simp add: sender_wallet_def account_order_def Resolve_def ScopedToTenant_def sample_accounts_list
        first_wallet_def row_account_def apply_delta_def settlementAccountName_def)
qed

text \<open>A coordinator in whose memory leg 2 of the transfer has failed \<open>n\<close> times.\<close>

definition failing :: "world \<Rightarrow> int \<Rightarrow> (string \<rightharpoonup> int) \<Rightarrow> coordinator" where
  "failing w n faults = (NewTransferCoordinator w (\<lambda>_. 0))\<lparr>
     co_counts := [transferLegKey ''x'' 2 \<mapsto> n], co_legFaults := faults\<rparr>"

lemma failing_sel [simp]:
  "co_world (failing w n faults) = w" "co_legFaults (failing w n faults) = faults"
  "co_draws (failing w n faults) i = 0" "read_flag (co_skipForwardCrash (failing w n faults)) x = False"
  "read_count (co_counts (failing w n faults)) (transferLegKey ''x'' 2) = n"
  "read_count (co_counts (failing w n faults)) (transferReversalLegKey ''x'' l) = 0"
  by (simp_all add: failing_def NewTransferCoordinator_def read_flag_def read_count_def)

lemma first_backoff: "backoffForAttempt 1 0 = (fst (backoffForAttempt 1 0), True)"
  by (simp add: backoffForAttempt_def retryBudget_def Let_def)

lemma read_one [simp]: "read_count [k \<mapsto> n] k = n" "j \<noteq> k \<Longrightarrow> read_count [k \<mapsto> n] j = 0"
  by (simp_all add: read_count_def)

end
