(* ===== verification/Wire.thy ===== *)
theory Wire
  imports Saga "HOL-Library.Signed_Division"
begin

text \<open>
  What goes over the wire, from \<open>internal/adapters/http/handlers.go\<close>: JSON values, the decoding
  of a request body into a struct as \<open>encoding/json\<close> does it, amounts as decimal text,
  fingerprints, and the bodies the handlers answer with. The text of a request body is not
  parsed here: a request carries the JSON value that the standard library's parser finds in it.
\<close>

section \<open>JSON\<close>

text \<open>
  Numbers are kept as they are written. An object keeps its members in order; the fields of a
  Go map are listed as the source lists them (the encoder sorts them by name), those of a
  struct as they are declared. \<open>JTime\<close> is an instant the encoder renders.
\<close>

datatype json =
    JNull
  | JBool bool
  | JNum string
  | JStr string
  | JTime time
  | JArr "json list"
  | JObj "(string \<times> json) list"

definition json_int :: "int \<Rightarrow> json" where
  "json_int n = JNum (fmt_int n)"

text \<open>
  \<open>foldName\<close> of \<open>encoding/json\<close> on UTF-8 bytes, as far as the comparison with an ASCII name
  needs it: letters lose their case, and the Kelvin sign and the long s are a k and an s.
\<close>

fun fold_key :: "string \<Rightarrow> string" where
  "fold_key [] = []"
| "fold_key [a] = [to_lower a]"
| "fold_key [a, b] =
     (if of_char a = (197 :: nat) \<and> of_char b = (191 :: nat) then ''s'' else [to_lower a, to_lower b])"
| "fold_key (a # b # c # s) =
     (if of_char a = (226 :: nat) \<and> of_char b = (132 :: nat) \<and> of_char c = (170 :: nat)
      then CHR ''k'' # fold_key s
      else if of_char a = (197 :: nat) \<and> of_char b = (191 :: nat) then CHR ''s'' # fold_key (c # s)
      else to_lower a # fold_key (b # c # s))"

text \<open>The fields of a request struct, by their tags.\<close>

datatype field_type = WireString | WireInt

type_synonym wire_struct = "(string \<times> field_type) list"

definition field_of :: "wire_struct \<Rightarrow> string \<Rightarrow> (string \<times> field_type) option" where
  "field_of s k = List.find (\<lambda>(name, ty). fold_key name = fold_key k) s"

text \<open>\<open>strconv.ParseInt\<close> on a JSON number: no fraction, no exponent, 64 bits.\<close>

definition parse_int :: "string \<Rightarrow> int option" where
  "parse_int literal = (case big_set_string literal of
     None \<Rightarrow> None | Some n \<Rightarrow> if in_int64 n then Some n else None)"

fun fits :: "field_type \<Rightarrow> json \<Rightarrow> bool" where
  "fits ty JNull = True"
| "fits WireString (JStr s) = True"
| "fits WireInt (JNum literal) = (parse_int literal \<noteq> None)"
| "fits ty v = False"

text \<open>
  \<open>Decode\<close> into a zero struct: whether it answers an error, and what each field holds after
  it. A \<open>null\<close> leaves a field as it was, the last of several members of one field counts.
\<close>

definition decode_error :: "wire_struct \<Rightarrow> bool \<Rightarrow> json \<Rightarrow> bool" where
  "decode_error s strict v = (case v of
     JNull \<Rightarrow> False
   | JObj members \<Rightarrow> list_ex (\<lambda>(k, x). case field_of s k of
         None \<Rightarrow> strict
       | Some (name, ty) \<Rightarrow> \<not> fits ty x) members
   | _ \<Rightarrow> True)"

definition members_of :: "json \<Rightarrow> (string \<times> json) list" where
  "members_of v = (case v of JObj members \<Rightarrow> members | _ \<Rightarrow> [])"

definition decode_string :: "wire_struct \<Rightarrow> json \<Rightarrow> string \<Rightarrow> string" where
  "decode_string s v name = foldl (\<lambda>acc (k, x).
     if field_of s k = Some (name, WireString) then (case x of JStr t \<Rightarrow> t | _ \<Rightarrow> acc) else acc)
     [] (members_of v)"

definition decode_int :: "wire_struct \<Rightarrow> json \<Rightarrow> string \<Rightarrow> int" where
  "decode_int s v name = foldl (\<lambda>acc (k, x).
     if field_of s k = Some (name, WireInt)
     then (case x of JNum literal \<Rightarrow> (case parse_int literal of None \<Rightarrow> acc | Some n \<Rightarrow> n) | _ \<Rightarrow> acc)
     else acc) 0 (members_of v)"

text \<open>The text \<open>json.Marshal\<close> writes, with the characters of HTML escaped.\<close>

definition hex_digit :: "nat \<Rightarrow> char" where
  "hex_digit n = (if n < 10 then char_of (48 + n) else char_of (87 + n))"

definition escape_char :: "char \<Rightarrow> string" where
  "escape_char c =
     (let n = of_char c :: nat in
      if n = 34 then [CHR 0x5C, CHR 0x22]
      else if n = 92 then [CHR 0x5C, CHR 0x5C]
      else if n = 8 then CHR 0x5C # ''b''
      else if n = 12 then CHR 0x5C # ''f''
      else if n = 10 then CHR 0x5C # ''n''
      else if n = 13 then CHR 0x5C # ''r''
      else if n = 9 then CHR 0x5C # ''t''
      else if n < 32 \<or> n = 60 \<or> n = 62 \<or> n = 38
      then CHR 0x5C # ''u00'' @ [hex_digit (n div 16), hex_digit (n mod 16)]
      else [c])"

text \<open>The line separators U+2028 and U+2029 are escaped too; other text beyond ASCII is kept.\<close>

fun escape_text :: "string \<Rightarrow> string" where
  "escape_text [] = []"
| "escape_text [a] = escape_char a"
| "escape_text [a, b] = escape_char a @ escape_char b"
| "escape_text (a # b # c # s) =
     (if of_char a = (226 :: nat) \<and> of_char b = (128 :: nat) \<and> of_char c = (168 :: nat)
      then CHR 0x5C # ''u2028'' @ escape_text s
      else if of_char a = (226 :: nat) \<and> of_char b = (128 :: nat) \<and> of_char c = (169 :: nat)
      then CHR 0x5C # ''u2029'' @ escape_text s
      else escape_char a @ escape_text (b # c # s))"

definition quote_text :: "string \<Rightarrow> string" where
  "quote_text s = CHR 0x22 # escape_text s @ [CHR 0x22]"

fun join_with :: "string \<Rightarrow> string list \<Rightarrow> string" where
  "join_with sep [] = []"
| "join_with sep [x] = x"
| "join_with sep (x # y # ys) = x @ sep @ join_with sep (y # ys)"

fun marshal :: "(time \<Rightarrow> string) \<Rightarrow> json \<Rightarrow> string" where
  "marshal rfc3339 JNull = ''null''"
| "marshal rfc3339 (JBool b) = (if b then ''true'' else ''false'')"
| "marshal rfc3339 (JNum literal) = literal"
| "marshal rfc3339 (JStr s) = quote_text s"
| "marshal rfc3339 (JTime t) = quote_text (rfc3339 t)"
| "marshal rfc3339 (JArr vs) = ''['' @ join_with '','' (map (marshal rfc3339) vs) @ '']''"
| "marshal rfc3339 (JObj members) =
     ''{'' @ join_with '','' (map (\<lambda>(k, v). quote_text k @ '':'' @ marshal rfc3339 v) members) @ ''}''"

section \<open>Amounts\<close>

text \<open>Integer division and remainder of Go truncate towards zero.\<close>

definition formatMoney :: "Money \<Rightarrow> string" where
  "formatMoney m =
     (let minor = minorUnits m;
          sgn_text = (if sint minor < 0 then ''-'' else []);
          minor' = (if sint minor < 0 then - minor else minor);
          whole = sint minor' sdiv 100; cents = sint minor' smod 100
      in sgn_text @ fmt_int whole @ ''.'' @
         (if length (fmt_int cents) < 2 then CHR ''0'' # fmt_int cents else fmt_int cents))"

text \<open>The submatches of \<open>^(-?)(\d+)\.(\d+)$\<close>.\<close>

definition decimalLiteral :: "string \<Rightarrow> (string \<times> string \<times> string) option" where
  "decimalLiteral text =
     (let sgn_text = (if text \<noteq> [] \<and> hd text = CHR ''-'' then ''-'' else []);
          body = (if text \<noteq> [] \<and> hd text = CHR ''-'' then tl text else text);
          whole = takeWhile is_digit body; rest = dropWhile is_digit body
      in if whole \<noteq> [] \<and> rest \<noteq> [] \<and> hd rest = CHR ''.'' \<and> tl rest \<noteq> [] \<and> list_all is_digit (tl rest)
         then Some (sgn_text, whole, tl rest) else None)"

datatype amount_error = AmountNotLexicallyANumber | AmountIllegal Violation

definition parseAmount :: "string \<Rightarrow> amount_error + Money" where
  "parseAmount text = (case decimalLiteral text of
     None \<Rightarrow> Inl AmountNotLexicallyANumber
   | Some (sgn_text, whole, fracText) \<Rightarrow>
       (case NewMoneyFromDecimalLiteral (sgn_text = ''-'') whole fracText ''USD'' of
          Inl v \<Rightarrow> Inl (AmountIllegal v)
        | Inr m \<Rightarrow> Inr m))"

section \<open>Fingerprints and hashes\<close>

definition fingerprintTransfer :: "string \<Rightarrow> string \<Rightarrow> Money \<Rightarrow> string" where
  "fingerprintTransfer from to amount =
     from @ ''|'' @ to @ ''|'' @ fmt_d (minorUnits amount) @ ''|'' @ currency amount"

definition fingerprintCrossTenantTransfer :: "string \<Rightarrow> Money \<Rightarrow> string" where
  "fingerprintCrossTenantTransfer alias_name amount =
     alias_name @ ''|'' @ fmt_d (minorUnits amount) @ ''|'' @ currency amount"

definition hashIdempotencyKey :: "(string \<Rightarrow> string) \<Rightarrow> string \<Rightarrow> string" where
  "hashIdempotencyKey sha256hex key = sha256hex key"

section \<open>Enumerations as text\<close>

fun kind_text :: "AccountKind \<Rightarrow> string" where
  "kind_text Wallet = ''wallet''"
| "kind_text System = ''system''"

definition parseAccountKind :: "string \<Rightarrow> AccountKind option" where
  "parseAccountKind text =
     (if text = ''wallet'' then Some Wallet else if text = ''system'' then Some System else None)"

fun status_text :: "TenantLinkStatus \<Rightarrow> string" where
  "status_text TenantLinkActive = ''active''"
| "status_text TenantLinkRevoked = ''revoked''"

section \<open>Answers\<close>

definition tenantLinkWire :: "TenantLink \<Rightarrow> json" where
  "tenantLinkWire l = JObj [(''link_id'', JStr (link_id l)), (''tenant_a'', JStr (link_tenantA l)),
     (''tenant_b'', JStr (link_tenantB l)), (''status'', JStr (status_text (link_status l)))]"

definition entryWire :: "TracedEntry \<Rightarrow> json" where
  "entryWire row = JObj
     [(''tenant_id'', JStr (trace_TenantID row)),
      (''transaction_id'', JStr (e_transactionID (trace_Entry row))),
      (''counterparty'', JStr (e_counterparty (trace_Entry row))),
      (''amount'', JStr (formatMoney (e_amount (trace_Entry row)))),
      (''recorded_at'', JTime (e_recordedAt (trace_Entry row))),
      (''running_balance'', JStr (formatMoney (trace_RunningBalance row)))]"

definition entriesToWire :: "TracedEntry list \<Rightarrow> json list" where
  "entriesToWire traced = map entryWire traced"

definition legViewWire :: "string \<Rightarrow> json" where
  "legViewWire leg_status = JObj [(''status'', JStr leg_status)]"

definition transferViewAnswer :: "TransferView \<Rightarrow> bool \<Rightarrow> json" where
  "transferViewAnswer view allLegs = JObj
     ([(''transfer_id'', JStr (view_TransferID view)), (''status'', JStr (view_Status view)),
       (''leg1'', legViewWire (view_Leg1 view))] @
      (if view_Reason view \<noteq> [] then [(''reason'', JStr (view_Reason view))] else []) @
      (if allLegs then [(''leg2'', legViewWire (view_Leg2 view)), (''leg3'', legViewWire (view_Leg3 view))]
       else []))"

definition transferAnswer :: "Result \<Rightarrow> json" where
  "transferAnswer result = JObj
     [(''transaction_id'', JStr (txn_id (p_Transaction (res_Posting result)))),
      (''legs'', JArr (map (\<lambda>e. JObj [(''account'', JStr (e_accountID e)),
         (''amount'', JStr (formatMoney (e_amount e)))]) (p_Entries (res_Posting result))))]"

record driftWire =
  dw_TenantID :: string
  dw_AccountID :: string
  dw_Stored :: string
  dw_Computed :: string
  dw_Delta :: string

record verdictBody =
  vb_Verdict :: string
  vb_ImbalanceMinor :: int64
  vb_EntryCount :: int
  vb_ElapsedMillis :: int
  vb_Drifted :: "driftWire list"
  vb_VerdictPosition :: int
  vb_FigurePosition :: int

definition drift_json :: "driftWire \<Rightarrow> json" where
  "drift_json d = JObj [(''tenant_id'', JStr (dw_TenantID d)), (''account_id'', JStr (dw_AccountID d)),
     (''stored'', JStr (dw_Stored d)), (''computed'', JStr (dw_Computed d)), (''delta'', JStr (dw_Delta d))]"

text \<open>The struct's fields in the order they are declared.\<close>

definition verdict_json :: "verdictBody \<Rightarrow> json" where
  "verdict_json b = JObj
     [(''verdict'', JStr (vb_Verdict b)), (''imbalance_minor'', JNum (fmt_d (vb_ImbalanceMinor b))),
      (''entry_count'', json_int (vb_EntryCount b)), (''elapsed_ms'', json_int (vb_ElapsedMillis b)),
      (''drifted'', JArr (map drift_json (vb_Drifted b))),
      (''verdict_position'', json_int (vb_VerdictPosition b)),
      (''first_figure_position'', json_int (vb_FigurePosition b))]"

text \<open>\<open>bytes.Index\<close>.\<close>

fun index_from :: "int \<Rightarrow> string \<Rightarrow> string \<Rightarrow> int" where
  "index_from i hay needle =
     (if take (length needle) hay = needle then i
      else case hay of [] \<Rightarrow> - 1 | _ # rest \<Rightarrow> index_from (i + 1) rest needle)"

declare index_from.simps [simp del]

definition driftWire_of :: "Drift \<Rightarrow> driftWire" where
  "driftWire_of d = \<lparr>dw_TenantID = drift_TenantID d, dw_AccountID = drift_AccountID d,
     dw_Stored = formatMoney (drift_Stored d), dw_Computed = formatMoney (drift_Computed d),
     dw_Delta = formatMoney (drift_Delta d)\<rparr>"

text \<open>No instant occurs in the body, so what renders one does not matter.\<close>

definition verdictBodyFor :: "BooksReport \<Rightarrow> verdictBody" where
  "verdictBodyFor report =
     (let body = \<lparr>vb_Verdict = (if rep_Balanced report then ''Books balance: YES'' else ''Books balance: NO''),
            vb_ImbalanceMinor = minorUnits (rep_TrialBalance report),
            vb_EntryCount = rep_EntryCount report, vb_ElapsedMillis = rep_ElapsedMillis report,
            vb_Drifted = map driftWire_of (rep_Drifted report),
            vb_VerdictPosition = 0, vb_FigurePosition = 0\<rparr>;
          rendered = marshal (\<lambda>_. []) (verdict_json body)
      in body\<lparr>vb_VerdictPosition := index_from 0 rendered (quote_text ''verdict''),
              vb_FigurePosition := index_from 0 rendered (quote_text ''imbalance_minor'')\<rparr>)"

end
