(* ===== verification/Handlers.thy ===== *)
theory Handlers
  imports Wire
begin

text \<open>
  The handlers of \<open>internal/adapters/http\<close>: \<open>handlers.go\<close>, the status table of \<open>status.go\<close>, the
  log fields of \<open>logfields.go\<close> and the metrics of \<open>metrics.go\<close>. A handler is a step of the
  exchange it serves: it calls the coordinator, counts, notes log fields and writes a response.
\<close>

section \<open>The exchange\<close>

datatype PostingOutcome = PostingPosted | PostingRejected | PostingReplayed

text \<open>
  The collectors that a handler moves; a histogram is the list of what it has observed.
  \<open>ledgerops_transfer_reversal_failed_total\<close> is counted by the coordinator's hook
  (\<open>co_reversalFailed\<close>).
\<close>

record Metrics =
  m_postingsTotal :: "PostingOutcome \<Rightarrow> nat"
  m_postingDurations :: "time list"
  m_insufficientFundsTotal :: nat
  m_idempotentReplaysTotal :: nat
  m_trialBalanceImbalance :: int
  m_trialBalanceScanDurations :: "time list"
  m_driftedAccounts :: int
  m_nonterminalCount :: int
  m_oldestNextAttemptAge :: time

definition NewMetrics :: Metrics where
  "NewMetrics = \<lparr>m_postingsTotal = (\<lambda>_. 0), m_postingDurations = [], m_insufficientFundsTotal = 0,
     m_idempotentReplaysTotal = 0, m_trialBalanceImbalance = 0, m_trialBalanceScanDurations = [],
     m_driftedAccounts = 0, m_nonterminalCount = 0, m_oldestNextAttemptAge = 0\<rparr>"

record log_record =
  log_warns :: bool
  log_attrs :: "string \<rightharpoonup> json"
  log_elapsed :: time

text \<open>
  The process a request meets and what its exchange has done so far: the log fields noted,
  the responses written. The log is the process's.
\<close>

record exchange =
  ex_coordinator :: coordinator
  ex_metrics :: Metrics
  ex_log :: "log_record list"
  ex_fields :: "string \<rightharpoonup> json"
  ex_written :: "(int \<times> json) list"

type_synonym handler = "exchange \<Rightarrow> exchange"

text \<open>
  A request as the handlers read it. \<open>body_first\<close> is the first JSON value of the body,
  \<open>body_whole\<close> the value of a body that is one JSON value and nothing else. \<open>rq_urlParam\<close> is what
  the router has matched, \<open>rq_scope\<close> what a middleware has put into the context.
\<close>

record body =
  body_reads :: bool
  body_first :: "json option"
  body_whole :: "json option"

record http_request =
  rq_authorization :: string
  rq_idempotencyKey :: string
  rq_queryTenantID :: string
  rq_urlParam :: "string \<Rightarrow> string"
  rq_body :: body
  rq_scope :: "TenantScope option"
  rq_requestID :: string

text \<open>A call into the application: what it answers goes to the rest of the handler.\<close>

definition calling :: "'a saga \<Rightarrow> (go_error + 'a \<Rightarrow> handler) \<Rightarrow> handler" where
  "calling m k x = (case m (ex_coordinator x) of (r, c) \<Rightarrow> k r (x\<lparr>ex_coordinator := c\<rparr>))"

definition ledger_call :: "'a uow \<Rightarrow> (go_error + 'a \<Rightarrow> handler) \<Rightarrow> handler" where
  "ledger_call m k = calling (on_ledger m) k"

text \<open>\<open>time.Now\<close>, which cannot fail.\<close>

definition reading_clock :: "(time \<Rightarrow> handler) \<Rightarrow> handler" where
  "reading_clock k = ledger_call clock (\<lambda>r. case r of Inl _ \<Rightarrow> k 0 | Inr now \<Rightarrow> k now)"

section \<open>Responses and log fields\<close>

definition set_field :: "string \<Rightarrow> json \<Rightarrow> handler" where
  "set_field k v x = x\<lparr>ex_fields := (ex_fields x)(k \<mapsto> v)\<rparr>"

definition writeJSON :: "int \<Rightarrow> json \<Rightarrow> handler" where
  "writeJSON status v x = x\<lparr>ex_written := ex_written x @ [(status, v)]\<rparr>"

definition writeRefusal :: "int \<Rightarrow> string \<Rightarrow> (string \<times> json) list \<Rightarrow> handler" where
  "writeRefusal status kind extra x =
     writeJSON status (JObj ((''error'', JStr kind) # extra)) (set_field ''violation_kind'' (JStr kind) x)"

definition writeInternalError :: handler where
  "writeInternalError = writeJSON 500 (JObj [(''error'', JStr ''internal_error'')])"

text \<open>\<open>status.go\<close>.\<close>

definition writeViolation :: "Violation \<Rightarrow> handler" where
  "writeViolation v x =
     (let k = kind_string (v_kind v); y = set_field ''violation_kind'' (JStr k) x in
      case v_kind v of
        UnknownAccount \<Rightarrow> writeRefusal 404 k [(''account_id'', JStr (v_account v))] y
      | AccountAlreadyExists \<Rightarrow> writeRefusal 409 k [(''account_id'', JStr (v_account v))] y
      | InsufficientFunds \<Rightarrow> writeRefusal 422 k
          [(''account_id'', JStr (v_account v)), (''available'', JStr (formatMoney (v_available v))),
           (''requested'', JStr (formatMoney (v_requested v)))] y
      | InvalidAmount \<Rightarrow> writeRefusal 422 k [] y
      | CurrencyMismatch \<Rightarrow> writeRefusal 422 k
          [(''from_currency'', JStr (v_fromCurrency v)), (''to_currency'', JStr (v_toCurrency v))] y
      | TenantAlreadyExists \<Rightarrow> writeRefusal 409 k [(''tenant'', JStr (v_tenant v))] y
      | TenantNotFound \<Rightarrow> writeRefusal 404 k [(''tenant'', JStr (v_tenant v))] y
      | TenantLinkAlreadyExists \<Rightarrow> writeRefusal 409 k [] y
      | TenantLinkNotFound \<Rightarrow> writeRefusal 404 k [] y
      | CounterpartyNotFound \<Rightarrow> writeRefusal 404 k [] y
      | Unbalanced \<Rightarrow> writeInternalError y)"

definition writeDomainError :: "go_error \<Rightarrow> handler" where
  "writeDomainError e = (case e of ErrViolation v \<Rightarrow> writeViolation v | _ \<Rightarrow> writeInternalError)"

definition malformed :: handler where
  "malformed = writeRefusal 400 ''malformed_request'' []"

definition refuseUnidentifiedCaller :: handler where
  "refuseUnidentifiedCaller x =
     writeJSON 401 (JObj [(''error'', JStr ''unidentified_caller'')])
       (set_field ''violation_kind'' (JStr ''unidentified_caller'') x)"

definition refuseTransferNotFound :: handler where
  "refuseTransferNotFound = writeRefusal 404 ''transfer_not_found'' []"

text \<open>The error check after \<open>Decode\<close>: the rest of the handler sees a decoded value.\<close>

definition decoding :: "wire_struct \<Rightarrow> bool \<Rightarrow> json option \<Rightarrow> (json \<Rightarrow> handler) \<Rightarrow> handler" where
  "decoding s strict found k = (case found of
     None \<Rightarrow> malformed
   | Some v \<Rightarrow> if decode_error s strict v then malformed else k v)"

text \<open>The scope in the context, the zero value without one.\<close>

definition TenantScopeFromContext :: "http_request \<Rightarrow> TenantScope" where
  "TenantScopeFromContext r = (case rq_scope r of
     None \<Rightarrow> \<lparr>scope_tenantID = [], scope_scoped = False\<rparr> | Some s \<Rightarrow> s)"

definition caller_tenant :: "http_request \<Rightarrow> string" where
  "caller_tenant r = fst (Resolve (TenantScopeFromContext r))"

section \<open>Metrics\<close>

definition with_metrics :: "(Metrics \<Rightarrow> Metrics) \<Rightarrow> handler" where
  "with_metrics f x = x\<lparr>ex_metrics := f (ex_metrics x)\<rparr>"

definition ObservePosting :: "PostingOutcome \<Rightarrow> time \<Rightarrow> Metrics \<Rightarrow> Metrics" where
  "ObservePosting outcome elapsed m = m
     \<lparr>m_postingsTotal := (m_postingsTotal m)(outcome := Suc (m_postingsTotal m outcome)),
      m_postingDurations := m_postingDurations m @ [elapsed]\<rparr>"

definition ObserveInsufficientFundsRejection :: "Metrics \<Rightarrow> Metrics" where
  "ObserveInsufficientFundsRejection m =
     m\<lparr>m_insufficientFundsTotal := Suc (m_insufficientFundsTotal m)\<rparr>"

definition ObserveIdempotentReplay :: "Metrics \<Rightarrow> Metrics" where
  "ObserveIdempotentReplay m = m\<lparr>m_idempotentReplaysTotal := Suc (m_idempotentReplaysTotal m)\<rparr>"

text \<open>The conversion of an integer to \<open>float64\<close>.\<close>

definition float64_of :: "int \<Rightarrow> int" where
  "float64_of n = (if n < 0 then - 1 else 1) * float_trunc (float_round \<bar>n\<bar> 0)"

definition SetTrialBalanceImbalance :: "int64 \<Rightarrow> Metrics \<Rightarrow> Metrics" where
  "SetTrialBalanceImbalance minor m = m\<lparr>m_trialBalanceImbalance := float64_of (sint minor)\<rparr>"

definition ObserveTrialBalanceScanDuration :: "time \<Rightarrow> Metrics \<Rightarrow> Metrics" where
  "ObserveTrialBalanceScanDuration elapsed m =
     m\<lparr>m_trialBalanceScanDurations := m_trialBalanceScanDurations m @ [elapsed]\<rparr>"

definition SetDriftedAccounts :: "int \<Rightarrow> Metrics \<Rightarrow> Metrics" where
  "SetDriftedAccounts n m = m\<lparr>m_driftedAccounts := float64_of n\<rparr>"

text \<open>No caller of it exists.\<close>

definition SetTransferStateBacklog :: "int \<Rightarrow> time \<Rightarrow> Metrics \<Rightarrow> Metrics" where
  "SetTransferStateBacklog nonterminalCount oldestNextAttemptAge m =
     m\<lparr>m_nonterminalCount := float64_of nonterminalCount, m_oldestNextAttemptAge := oldestNextAttemptAge\<rparr>"

definition recordPostingFailure :: "go_error \<Rightarrow> time \<Rightarrow> handler" where
  "recordPostingFailure e elapsed = with_metrics (\<lambda>m.
     let m' = ObservePosting PostingRejected elapsed m
     in if is_violation InsufficientFunds e then ObserveInsufficientFundsRejection m' else m')"

definition recordPostingSuccess :: "Result \<Rightarrow> time \<Rightarrow> (int \<Rightarrow> handler) \<Rightarrow> handler" where
  "recordPostingSuccess result elapsed k x =
     (let status = (if res_Replayed result then 200 else 201);
          outcome = (if res_Replayed result then PostingReplayed else PostingPosted)
      in k status (with_metrics (\<lambda>m.
           let m' = ObservePosting outcome elapsed m
           in if res_Replayed result then ObserveIdempotentReplay m' else m') x))"

section \<open>Accounts, tenants, links\<close>

abbreviation sha256hex_of :: "exchange \<Rightarrow> string \<Rightarrow> string" where
  "sha256hex_of x \<equiv> w_sha256hex (co_world (ex_coordinator x))"

definition createAccountRequest :: wire_struct where
  "createAccountRequest = [(''account_id'', WireString), (''type'', WireString)]"

definition createAccountHandler :: "http_request \<Rightarrow> handler" where
  "createAccountHandler r =
     decoding createAccountRequest False (body_first (rq_body r)) (\<lambda>v.
       let accountID = decode_string createAccountRequest v ''account_id'' in
       if accountID = [] then malformed
       else case parseAccountKind (decode_string createAccountRequest v ''type'') of
         None \<Rightarrow> malformed
       | Some kind \<Rightarrow>
           ledger_call (CreateAccount (caller_tenant r) accountID kind) (\<lambda>res. case res of
             Inl e \<Rightarrow> writeDomainError e
           | Inr _ \<Rightarrow> writeJSON 201 (JObj [(''account_id'', JStr accountID),
                                        (''type'', JStr (kind_text kind))])))"

definition provisionTenantRequest :: wire_struct where
  "provisionTenantRequest = [(''name'', WireString)]"

definition provisionTenantHandler :: "http_request \<Rightarrow> handler" where
  "provisionTenantHandler r =
     decoding provisionTenantRequest False (body_first (rq_body r)) (\<lambda>v.
       let name = decode_string provisionTenantRequest v ''name'' in
       if name = [] then malformed
       else ledger_call (ProvisionTenant name) (\<lambda>res. case res of
           Inl e \<Rightarrow> writeDomainError e
         | Inr provisioned \<Rightarrow> writeJSON 201 (JObj
             [(''tenant_id'', JStr (prov_TenantID provisioned)), (''name'', JStr (prov_Name provisioned)),
              (''tenant_key'', JStr (prov_TenantKey provisioned))])))"

text \<open>A unit of work that reads and is rolled back whatever it answers.\<close>

definition read_only :: "'a uow \<Rightarrow> 'a uow" where
  "read_only m = bindE Begin (\<lambda>_ w. case m w of (r, w') \<Rightarrow> (r, Rollback w'))"

definition resolveProvisionedTenantID :: "string \<Rightarrow> string uow" where
  "resolveProvisionedTenantID name =
     read_only (bindE (tenants_ByName name) (\<lambda>t. ret (tenant_id t)))"

definition authorizeTenantPairRequest :: wire_struct where
  "authorizeTenantPairRequest = [(''tenant_a'', WireString), (''tenant_b'', WireString)]"

definition authorizeTenantPairHandler :: "http_request \<Rightarrow> handler" where
  "authorizeTenantPairHandler r =
     decoding authorizeTenantPairRequest False (body_first (rq_body r)) (\<lambda>v.
       let tenantA = decode_string authorizeTenantPairRequest v ''tenant_a'';
           tenantB = decode_string authorizeTenantPairRequest v ''tenant_b'' in
       if tenantA = [] \<or> tenantB = [] then malformed
       else
         ledger_call (resolveProvisionedTenantID tenantA) (\<lambda>resA. case resA of
           Inl e \<Rightarrow> writeDomainError e
         | Inr tenantAID \<Rightarrow>
         ledger_call (resolveProvisionedTenantID tenantB) (\<lambda>resB. case resB of
           Inl e \<Rightarrow> writeDomainError e
         | Inr tenantBID \<Rightarrow>
         ledger_call (AuthorizeTenantPair tenantAID tenantBID) (\<lambda>res. case res of
           Inl e \<Rightarrow> writeDomainError e
         | Inr l \<Rightarrow> writeJSON 201 (tenantLinkWire l)))))"

definition revokeTenantLinkHandler :: "http_request \<Rightarrow> handler" where
  "revokeTenantLinkHandler r =
     (let linkID = rq_urlParam r ''link_id'' in
      ledger_call (RevokeTenantLink linkID) (\<lambda>res. case res of
        Inl e \<Rightarrow> writeDomainError e
      | Inr _ \<Rightarrow> writeJSON 200 (JObj [(''link_id'', JStr linkID),
                                   (''status'', JStr (status_text TenantLinkRevoked))])))"

definition registerCounterpartyAliasRequest :: wire_struct where
  "registerCounterpartyAliasRequest =
     [(''alias'', WireString), (''target_tenant_id'', WireString), (''target_account_id'', WireString)]"

definition registerCounterpartyAliasHandler :: "http_request \<Rightarrow> handler" where
  "registerCounterpartyAliasHandler r =
     decoding registerCounterpartyAliasRequest False (body_first (rq_body r)) (\<lambda>v.
       let alias_name = decode_string registerCounterpartyAliasRequest v ''alias'';
           targetTenantID = decode_string registerCounterpartyAliasRequest v ''target_tenant_id'';
           targetAccountID = decode_string registerCounterpartyAliasRequest v ''target_account_id'' in
       if alias_name = [] \<or> targetTenantID = [] \<or> targetAccountID = [] then malformed
       else
         ledger_call (RegisterCounterpartyAlias (caller_tenant r) alias_name targetTenantID targetAccountID)
           (\<lambda>res. case res of
             Inl e \<Rightarrow> writeDomainError e
           | Inr registered \<Rightarrow> writeJSON 201 (JObj
               [(''alias'', JStr (ca_alias registered)),
                (''target_tenant_id'', JStr (ca_targetTenantID registered)),
                (''target_account_id'', JStr (ca_targetAccountID registered))])))"

section \<open>Reading\<close>

definition getBalanceHandler :: "http_request \<Rightarrow> handler" where
  "getBalanceHandler r =
     ledger_call (GetBalance (caller_tenant r) (rq_urlParam r ''id'')) (\<lambda>res. case res of
       Inl e \<Rightarrow> writeDomainError e
     | Inr account \<Rightarrow> writeJSON 200 (JObj
         [(''account_id'', JStr (acct_id account)), (''type'', JStr (kind_text (acct_kind account))),
          (''balance'', JStr (formatMoney (acct_balance account)))]))"

definition entriesScopeFromQuery :: "TenantScope \<Rightarrow> string \<Rightarrow> string \<Rightarrow> go_error + TenantScope" where
  "entriesScopeFromQuery callerScope accountID namedTenantID =
     (if namedTenantID = [] then Inr callerScope
      else case Resolve callerScope of (callerTenantID, scoped) \<Rightarrow>
        if \<not> scoped then Inr (ScopedToTenant namedTenantID)
        else if callerTenantID = namedTenantID then Inr callerScope
        else Inl (ErrViolation (NewUnknownAccount accountID)))"

definition getEntriesHandler :: "http_request \<Rightarrow> handler" where
  "getEntriesHandler r =
     (let accountID = rq_urlParam r ''id'' in
      case entriesScopeFromQuery (TenantScopeFromContext r) accountID (rq_queryTenantID r) of
        Inl e \<Rightarrow> writeDomainError e
      | Inr scope \<Rightarrow>
          ledger_call (GetEntries scope accountID) (\<lambda>res. case res of
            Inl e \<Rightarrow> writeDomainError e
          | Inr traced \<Rightarrow> writeJSON 200 (JObj [(''entries'', JArr (entriesToWire traced))])))"

definition trialBalanceScopeFromQuery :: "http_request \<Rightarrow> TenantScope" where
  "trialBalanceScopeFromQuery r =
     (if rq_queryTenantID r = [] then Unscoped else ScopedToTenant (rq_queryTenantID r))"

definition verdictHandler :: "http_request \<Rightarrow> handler" where
  "verdictHandler r =
     ledger_call (VerifyBooks (trialBalanceScopeFromQuery r)) (\<lambda>res. case res of
       Inl e \<Rightarrow> writeDomainError e
     | Inr report \<Rightarrow> (\<lambda>x.
         let b = verdictBodyFor report in
         writeJSON 200 (verdict_json b)
           (with_metrics (\<lambda>m. SetDriftedAccounts (int (length (vb_Drifted b)))
              (ObserveTrialBalanceScanDuration (rep_ElapsedMillis report * 1000000)
                (SetTrialBalanceImbalance (vb_ImbalanceMinor b) m))) x)))"

definition getTransferHandler :: "http_request \<Rightarrow> handler" where
  "getTransferHandler r =
     ledger_call (GetTransfer (rq_urlParam r ''transfer_id'')) (\<lambda>res. case res of
       Inl e \<Rightarrow> if e = ErrTransferNotFound then writeRefusal 404 ''transfer_not_found'' []
               else writeDomainError e
     | Inr view \<Rightarrow> writeJSON 200 (transferViewAnswer view True))"

section \<open>Transfers\<close>

definition postTransferRequest :: wire_struct where
  "postTransferRequest = [(''from'', WireString), (''to'', WireString), (''amount'', WireString)]"

definition sendCrossTenantTransferRequest :: wire_struct where
  "sendCrossTenantTransferRequest = [(''counterparty_alias'', WireString), (''amount'', WireString)]"

definition recordTransferLogFields :: "string \<Rightarrow> string \<Rightarrow> Money \<Rightarrow> string \<Rightarrow> Result \<Rightarrow> handler" where
  "recordTransferLogFields from to amount key result x =
     set_field ''replayed'' (JBool (res_Replayed result))
    (set_field ''idempotency_key_hash'' (JStr (hashIdempotencyKey (sha256hex_of x) key))
    (set_field ''currency'' (JStr (currency amount))
    (set_field ''amount_minor'' (JNum (fmt_d (minorUnits amount)))
    (set_field ''account_ids'' (JArr [JStr from, JStr to])
    (set_field ''transaction_id'' (JStr (txn_id (p_Transaction (res_Posting result)))) x)))))"

text \<open>The check of an amount as both handlers of \<open>POST /transfers\<close> make it.\<close>

definition reading_amount :: "string \<Rightarrow> (Money \<Rightarrow> handler) \<Rightarrow> handler" where
  "reading_amount text k = (case parseAmount text of
     Inl AmountNotLexicallyANumber \<Rightarrow> malformed
   | Inl (AmountIllegal v) \<Rightarrow> writeDomainError (ErrViolation v)
   | Inr amount \<Rightarrow> k amount)"

definition postTransferHandler :: "http_request \<Rightarrow> handler" where
  "postTransferHandler r =
     reading_clock (\<lambda>started.
       let key = rq_idempotencyKey r in
       if key = [] then writeRefusal 400 ''missing_idempotency_key'' []
       else if \<not> body_reads (rq_body r) then malformed
       else decoding postTransferRequest True (body_first (rq_body r)) (\<lambda>v.
         let from = decode_string postTransferRequest v ''from'';
             to = decode_string postTransferRequest v ''to'';
             amount_text = decode_string postTransferRequest v ''amount'' in
         if from = [] \<or> to = [] \<or> amount_text = [] then malformed
         else reading_amount amount_text (\<lambda>amount.
           ledger_call (PostTransfer \<lparr>req_From = from, req_To = to, req_Amount = amount,
               req_IdempotencyKey = key, req_Fingerprint = fingerprintTransfer from to amount,
               req_TenantID = caller_tenant r\<rparr>) (\<lambda>res. case res of
             Inl e \<Rightarrow>
               if e = ErrIdempotencyKeyConflict then writeRefusal 409 ''idempotency_key_conflict'' []
               else reading_clock (\<lambda>now x. writeDomainError e (recordPostingFailure e (now - started) x))
           | Inr result \<Rightarrow>
               reading_clock (\<lambda>now. recordPostingSuccess result (now - started) (\<lambda>status x.
                 writeJSON status (transferAnswer result)
                   (recordTransferLogFields from to amount key result x)))))))"

text \<open>The other legs are triggered once the response is written.\<close>

definition sendCrossTenantTransferHandler :: "http_request \<Rightarrow> handler" where
  "sendCrossTenantTransferHandler r =
     (let key = rq_idempotencyKey r in
      if key = [] then writeRefusal 400 ''missing_idempotency_key'' []
      else decoding sendCrossTenantTransferRequest True (body_first (rq_body r)) (\<lambda>v.
        let alias_name = decode_string sendCrossTenantTransferRequest v ''counterparty_alias'';
            amount_text = decode_string sendCrossTenantTransferRequest v ''amount'' in
        if alias_name = [] \<or> amount_text = [] then malformed
        else reading_amount amount_text (\<lambda>amount.
          ledger_call (SendTransfer (caller_tenant r) alias_name amount key
              (fingerprintCrossTenantTransfer alias_name amount)) (\<lambda>res. case res of
            Inl e \<Rightarrow> writeDomainError e
          | Inr (view, created) \<Rightarrow> (\<lambda>x.
              let y = writeJSON 202 (transferViewAnswer view False) x in
              if created then calling (TriggerForwardLegs (view_TransferID view)) (\<lambda>_ z. z) y else y)))))"

text \<open>An error of the first, lenient decoding is ignored: what it has set until then counts.\<close>

definition discriminator :: wire_struct where
  "discriminator = [(''counterparty_alias'', WireString)]"

definition postTransferOrCrossTenantHandler :: "http_request \<Rightarrow> handler" where
  "postTransferOrCrossTenantHandler r =
     (if \<not> body_reads (rq_body r) then malformed
      else
        let named = (case body_whole (rq_body r) of
            None \<Rightarrow> []
          | Some v \<Rightarrow> decode_string discriminator v ''counterparty_alias'')
        in if named \<noteq> [] then sendCrossTenantTransferHandler r else postTransferHandler r)"

end
