(* ===== verification/Router.thy ===== *)
theory Router
  imports Handlers
begin

text \<open>
  \<open>internal/adapters/http/router.go\<close>, \<open>request_logging.go\<close>, \<open>console_static.go\<close> and
  \<open>testonly_faults.go\<close>: who may call which handler, the one log line of a request, and the
  routes. Which pattern a path matches, and with what parameters, is the router package's.
\<close>

section \<open>Credentials\<close>

text \<open>The header's value without the prefix, and whether it had the prefix.\<close>

definition bearerToken :: "http_request \<Rightarrow> string \<times> bool" where
  "bearerToken r =
     (let presented = rq_authorization r in
      if take 7 presented \<noteq> ''Bearer '' then ([], False) else (drop 7 presented, True))"

definition isOperatorKey :: "string \<Rightarrow> string \<Rightarrow> bool" where
  "isOperatorKey presented expected \<longleftrightarrow> expected \<noteq> [] \<and> presented = expected"

definition hashBearerToken :: "(string \<Rightarrow> string) \<Rightarrow> string \<Rightarrow> string" where
  "hashBearerToken sha256hex token = hashIdempotencyKey sha256hex token"

text \<open>
  A resolver answers the tenant of a credential's hash, if there is one. The one of
  \<open>tenants.go\<close> connects, reads the committed table and closes the connection.
\<close>

type_synonym resolver = "string \<Rightarrow> string option uow"

definition NewTenantKeyResolver :: resolver where
  "NewTenantKeyResolver credentialHash = read_only (query (\<lambda>d. resolveTenantKey d credentialHash))"

definition resolveTenantKeyResolver :: "resolver option \<Rightarrow> resolver" where
  "resolveTenantKeyResolver resolve = (case resolve of None \<Rightarrow> (\<lambda>_. ret None) | Some f \<Rightarrow> f)"

text \<open>
  \<open>cmd/api/main.go\<close> puts the demo key in front of the resolver: it stands for the tenant the
  migrations seed.
\<close>

definition legacySeedTenantID :: string where
  "legacySeedTenantID = ''tnt_legacy_seed''"

definition demoTenantResolver :: "string \<Rightarrow> resolver \<Rightarrow> resolver" where
  "demoTenantResolver demoTenantKey next_resolver =
     (if demoTenantKey = [] then next_resolver
      else (\<lambda>credentialHash w.
        if credentialHash = hashCredential (w_sha256hex w) demoTenantKey then ret (Some legacySeedTenantID) w
        else next_resolver credentialHash w))"

definition withTenantScope :: "TenantScope \<Rightarrow> http_request \<Rightarrow> http_request" where
  "withTenantScope scope r = r\<lparr>rq_scope := Some scope\<rparr>"

type_synonym middleware = "(http_request \<Rightarrow> handler) \<Rightarrow> http_request \<Rightarrow> handler"

definition requireOperatorKey :: "string \<Rightarrow> middleware" where
  "requireOperatorKey expected next_handler r =
     (if \<not> isOperatorKey (fst (bearerToken r)) expected then refuseUnidentifiedCaller else next_handler r)"

text \<open>The tenant of a presented token: no answer and an error are both a refusal.\<close>

definition resolving :: "resolver \<Rightarrow> string \<Rightarrow> (string \<Rightarrow> handler) \<Rightarrow> handler" where
  "resolving resolve token k x =
     ledger_call (resolve (hashBearerToken (sha256hex_of x) token)) (\<lambda>res. case res of
       Inr (Some tenantID) \<Rightarrow> k tenantID
     | _ \<Rightarrow> refuseUnidentifiedCaller) x"

definition requireTenantKey :: "resolver \<Rightarrow> middleware" where
  "requireTenantKey resolve next_handler r =
     (case bearerToken r of (token, ok) \<Rightarrow>
        if \<not> ok then refuseUnidentifiedCaller
        else resolving resolve token (\<lambda>tenantID. next_handler (withTenantScope (ScopedToTenant tenantID) r)))"

definition requireTenantKeyOrOperatorKey :: "string \<Rightarrow> resolver \<Rightarrow> middleware" where
  "requireTenantKeyOrOperatorKey operatorKey resolve next_handler r =
     (case bearerToken r of (token, ok) \<Rightarrow>
        if \<not> ok then refuseUnidentifiedCaller
        else if isOperatorKey token operatorKey then next_handler (withTenantScope Unscoped r)
        else resolving resolve token (\<lambda>tenantID. next_handler (withTenantScope (ScopedToTenant tenantID) r)))"

definition transferStateByID :: "string \<Rightarrow> TransferState option uow" where
  "transferStateByID transferID = read_only (transfers_Get transferID)"

text \<open>The one read of the transfer, and the one refusal for an absent and a foreign one.\<close>

definition admit_party :: "string option \<Rightarrow> (http_request \<Rightarrow> handler) \<Rightarrow> http_request \<Rightarrow> handler" where
  "admit_party callerTenantID next_handler r =
     ledger_call (transferStateByID (rq_urlParam r ''transfer_id'')) (\<lambda>res. case res of
       Inl e \<Rightarrow> writeDomainError e
     | Inr None \<Rightarrow> refuseTransferNotFound
     | Inr (Some state) \<Rightarrow>
         if (case callerTenantID of None \<Rightarrow> False
             | Some t \<Rightarrow> t \<noteq> ts_TenantID state \<and> t \<noteq> ts_CounterpartyTenantID state)
         then refuseTransferNotFound
         else next_handler r)"

definition requireTransferParty :: "string \<Rightarrow> resolver \<Rightarrow> middleware" where
  "requireTransferParty operatorKey resolve next_handler r =
     (case bearerToken r of (token, ok) \<Rightarrow>
        if \<not> ok then refuseUnidentifiedCaller
        else if isOperatorKey token operatorKey then admit_party None next_handler r
        else resolving resolve token (\<lambda>tenantID. admit_party (Some tenantID) next_handler r))"

section \<open>The log line\<close>

text \<open>The status recorder keeps the last status written, 200 before any.\<close>

definition recorded_status :: "exchange \<Rightarrow> int" where
  "recorded_status x = (if ex_written x = [] then 200 else fst (last (ex_written x)))"

definition requestLogger :: "string \<Rightarrow> middleware" where
  "requestLogger route next_handler r =
     reading_clock (\<lambda>started x.
       let y = next_handler r (x\<lparr>ex_fields := Map.empty\<rparr>) in
       reading_clock (\<lambda>now z. z\<lparr>ex_log := ex_log z @
         [\<lparr>log_warns = (500 \<le> recorded_status z),
           log_attrs = (ex_fields z)(''request_id'' \<mapsto> JStr (rq_requestID r), ''route'' \<mapsto> JStr route,
             ''status'' \<mapsto> json_int (recorded_status z)),
           log_elapsed = (now - started) sdiv 1000\<rparr>]\<rparr>) y)"

section \<open>Test-only routes\<close>

definition legFaultRequest :: wire_struct where
  "legFaultRequest = [(''transfer_id'', WireString), (''leg'', WireInt), (''fail_count'', WireInt)]"

definition transferIDRequest :: wire_struct where
  "transferIDRequest = [(''transfer_id'', WireString)]"

definition seedDueRequest :: wire_struct where
  "seedDueRequest = [(''count'', WireInt)]"

text \<open>These handlers write their refusals without noting a log field.\<close>

definition decoding_quietly :: "wire_struct \<Rightarrow> json option \<Rightarrow> (json \<Rightarrow> handler) \<Rightarrow> handler" where
  "decoding_quietly s found k =
     (if (case found of None \<Rightarrow> True | Some v \<Rightarrow> decode_error s False v)
      then writeJSON 400 (JObj [(''error'', JStr ''malformed_request'')])
      else k (the found))"

definition answer_ok :: handler where
  "answer_ok = writeJSON 200 (JObj [(''ok'', JBool True)])"

definition on_coordinator :: "(coordinator \<Rightarrow> coordinator) \<Rightarrow> handler" where
  "on_coordinator f x = x\<lparr>ex_coordinator := f (ex_coordinator x)\<rparr>"

definition fail_count :: "json \<Rightarrow> int" where
  "fail_count v = (let n = decode_int legFaultRequest v ''fail_count'' in if n \<le> 0 then 1 else n)"

definition injectLegFaultHandler :: "http_request \<Rightarrow> handler" where
  "injectLegFaultHandler r = decoding_quietly legFaultRequest (body_first (rq_body r)) (\<lambda>v x.
     answer_ok (on_coordinator (InjectLegFaultCount (decode_string legFaultRequest v ''transfer_id'')
       (decode_int legFaultRequest v ''leg'') (fail_count v)) x))"

definition injectReversalFaultHandler :: "http_request \<Rightarrow> handler" where
  "injectReversalFaultHandler r = decoding_quietly legFaultRequest (body_first (rq_body r)) (\<lambda>v x.
     answer_ok (on_coordinator (InjectReversalFaultCount (decode_string legFaultRequest v ''transfer_id'')
       (decode_int legFaultRequest v ''leg'') (fail_count v)) x))"

definition simulateCrashBeforeForwardLegHandler :: "http_request \<Rightarrow> handler" where
  "simulateCrashBeforeForwardLegHandler r =
     decoding_quietly transferIDRequest (body_first (rq_body r)) (\<lambda>v x.
       answer_ok (on_coordinator (SimulateCrashBeforeForwardLegAttempt
         (decode_string transferIDRequest v ''transfer_id'')) x))"

definition simulateCrashBeforeReversalHandler :: "http_request \<Rightarrow> handler" where
  "simulateCrashBeforeReversalHandler r =
     decoding_quietly transferIDRequest (body_first (rq_body r)) (\<lambda>v x.
       answer_ok (on_coordinator (SimulateCrashBeforeReversalAttempt
         (decode_string transferIDRequest v ''transfer_id'')) x))"

text \<open>The text of an error is a parameter: what the drivers say is not modelled.\<close>

definition failed_with :: "(go_error \<Rightarrow> string) \<Rightarrow> string \<Rightarrow> go_error \<Rightarrow> handler" where
  "failed_with error_text what e =
     writeJSON 500 (JObj [(''error'', JStr what), (''detail'', JStr (error_text e))])"

definition runRetryTickerOnceHandler :: "(go_error \<Rightarrow> string) \<Rightarrow> http_request \<Rightarrow> handler" where
  "runRetryTickerOnceHandler error_text r = calling ProcessDueTransfersOnce (\<lambda>res. case res of
       Inl e \<Rightarrow> failed_with error_text ''tick_failed'' e
     | Inr claimed \<Rightarrow> writeJSON 200 (JObj [(''claimed'', json_int (int claimed))]))"

text \<open>\<open>time.Time{}\<close>, the first instant of year 1, on a clock that counts from 1970.\<close>

definition zero_time :: time where
  "zero_time = - 62135596800 * second"

fun seed_loop :: "nat \<Rightarrow> string \<Rightarrow> string \<Rightarrow> time \<Rightarrow> Money \<Rightarrow> unit uow" where
  "seed_loop 0 sender counterparty now amount = ret ()"
| "seed_loop (Suc n) sender counterparty now amount =
     bindE nextID (\<lambda>i.
     bindE (SeedTransferStateDueNow
              (seeded_state (''xfr_testonly_seed_'' @ i) sender counterparty now amount)) (\<lambda>_.
       seed_loop n sender counterparty now amount))"

definition seed_transfers :: "int \<Rightarrow> unit uow" where
  "seed_transfers n =
     bindE nextID (\<lambda>i.
     bindE (ProvisionTenant (''testonly-seed-sender-'' @ i)) (\<lambda>sender.
     bindE nextID (\<lambda>j.
     bindE (ProvisionTenant (''testonly-seed-counterparty-'' @ j)) (\<lambda>counterparty.
     bindE (decide (NewMoney 1 ''USD'')) (\<lambda>amount.
     bindE clock (\<lambda>now.
     bindE (if now = zero_time then clock else ret now) (\<lambda>now.
       seed_loop (nat n) (prov_TenantID sender) (prov_TenantID counterparty) now amount)))))))"

definition seedTransfersDueForRetryHandler :: "(go_error \<Rightarrow> string) \<Rightarrow> http_request \<Rightarrow> handler" where
  "seedTransfersDueForRetryHandler error_text r =
     decoding_quietly seedDueRequest (body_first (rq_body r)) (\<lambda>v.
       let n = decode_int seedDueRequest v ''count'' in
       ledger_call (seed_transfers n) (\<lambda>res. case res of
         Inl e \<Rightarrow> failed_with error_text ''seed_failed'' e
       | Inr _ \<Rightarrow> writeJSON 200 (JObj [(''seeded'', json_int n)])))"

section \<open>Routes\<close>

text \<open>The patterns that are mounted, and what no pattern of the program answers.\<close>

datatype endpoint =
    GetMetrics | GetHealth
  | PostTenants | GetTrialBalance | GetVerdict | PostTenantLinks | DeleteTenantLink
  | PostAccounts | GetAccount | PostTransfers | PostCounterparties
  | GetTransferRoute | GetEntriesRoute
  | GetConsole | GetConsoleAsset
  | TestLegFault | TestReversalFault | TestCrashForward | TestCrashReversal | TestTick | TestSeedDue
  | NoRoute

fun route_pattern :: "endpoint \<Rightarrow> string" where
  "route_pattern GetMetrics = ''/metrics''"
| "route_pattern GetHealth = ''/health''"
| "route_pattern PostTenants = ''/tenants''"
| "route_pattern GetTrialBalance = ''/health/trial-balance''"
| "route_pattern GetVerdict = ''/console/verdict''"
| "route_pattern PostTenantLinks = ''/tenant-links''"
| "route_pattern DeleteTenantLink = ''/tenant-links/{link_id}''"
| "route_pattern PostAccounts = ''/accounts''"
| "route_pattern GetAccount = ''/accounts/{id}''"
| "route_pattern PostTransfers = ''/transfers''"
| "route_pattern PostCounterparties = ''/counterparties''"
| "route_pattern GetTransferRoute = ''/transfers/{transfer_id}''"
| "route_pattern GetEntriesRoute = ''/accounts/{id}/entries''"
| "route_pattern GetConsole = ''/console''"
| "route_pattern GetConsoleAsset = ''/console/*''"
| "route_pattern TestLegFault = ''/testonly/faults/leg''"
| "route_pattern TestReversalFault = ''/testonly/faults/reversal''"
| "route_pattern TestCrashForward = ''/testonly/faults/crash-forward''"
| "route_pattern TestCrashReversal = ''/testonly/faults/crash-reversal''"
| "route_pattern TestTick = ''/testonly/tick''"
| "route_pattern TestSeedDue = ''/testonly/seed-due''"
| "route_pattern NoRoute = []"

text \<open>
  \<open>Deps\<close> with the handlers of other packages, which answer from the request and the metrics:
  the exposition of \<open>promhttp\<close>, the file server, and the router's answer where nothing matches.
\<close>

record Deps =
  deps_OperatorKey :: string
  deps_TenantKeyResolver :: "resolver option"
  deps_EnableTestOnlyFaultSeam :: bool
  deps_console_built :: bool
  deps_error_text :: "go_error \<Rightarrow> string"
  deps_scrape :: "http_request \<Rightarrow> Metrics \<Rightarrow> int \<times> json"
  deps_serve_file :: "http_request \<Rightarrow> int \<times> json"
  deps_unmatched :: "http_request \<Rightarrow> int \<times> json"

definition answering :: "int \<times> json \<Rightarrow> handler" where
  "answering a = writeJSON (fst a) (snd a)"

definition healthHandler :: handler where
  "healthHandler = writeJSON 200 (JObj [(''status'', JStr ''ok'')])"

text \<open>The static routes exist only if the bundle was built when the router was.\<close>

definition mountConsole :: "Deps \<Rightarrow> http_request \<Rightarrow> handler" where
  "mountConsole deps r =
     answering (if deps_console_built deps then deps_serve_file deps r else deps_unmatched deps r)"

definition mountTestOnlyFaults :: "Deps \<Rightarrow> (http_request \<Rightarrow> handler) \<Rightarrow> http_request \<Rightarrow> handler" where
  "mountTestOnlyFaults deps h r =
     (if deps_EnableTestOnlyFaultSeam deps then requireOperatorKey (deps_OperatorKey deps) h r
      else answering (deps_unmatched deps r))"

fun route :: "Deps \<Rightarrow> endpoint \<Rightarrow> http_request \<Rightarrow> handler" where
  "route deps GetMetrics r = (\<lambda>x. answering (deps_scrape deps r (ex_metrics x)) x)"
| "route deps GetHealth r = healthHandler"
| "route deps PostTenants r = requireOperatorKey (deps_OperatorKey deps) provisionTenantHandler r"
| "route deps GetTrialBalance r = requireOperatorKey (deps_OperatorKey deps) verdictHandler r"
| "route deps GetVerdict r = requireOperatorKey (deps_OperatorKey deps) verdictHandler r"
| "route deps PostTenantLinks r = requireOperatorKey (deps_OperatorKey deps) authorizeTenantPairHandler r"
| "route deps DeleteTenantLink r = requireOperatorKey (deps_OperatorKey deps) revokeTenantLinkHandler r"
| "route deps PostAccounts r =
     requireTenantKey (resolveTenantKeyResolver (deps_TenantKeyResolver deps)) createAccountHandler r"
| "route deps GetAccount r =
     requireTenantKey (resolveTenantKeyResolver (deps_TenantKeyResolver deps)) getBalanceHandler r"
| "route deps PostTransfers r =
     requireTenantKey (resolveTenantKeyResolver (deps_TenantKeyResolver deps))
       postTransferOrCrossTenantHandler r"
| "route deps PostCounterparties r =
     requireTenantKey (resolveTenantKeyResolver (deps_TenantKeyResolver deps))
       registerCounterpartyAliasHandler r"
| "route deps GetTransferRoute r =
     requireTransferParty (deps_OperatorKey deps) (resolveTenantKeyResolver (deps_TenantKeyResolver deps))
       getTransferHandler r"
| "route deps GetEntriesRoute r =
     requireTenantKeyOrOperatorKey (deps_OperatorKey deps)
       (resolveTenantKeyResolver (deps_TenantKeyResolver deps)) getEntriesHandler r"
| "route deps GetConsole r = mountConsole deps r"
| "route deps GetConsoleAsset r = mountConsole deps r"
| "route deps TestLegFault r = mountTestOnlyFaults deps injectLegFaultHandler r"
| "route deps TestReversalFault r = mountTestOnlyFaults deps injectReversalFaultHandler r"
| "route deps TestCrashForward r = mountTestOnlyFaults deps simulateCrashBeforeForwardLegHandler r"
| "route deps TestCrashReversal r = mountTestOnlyFaults deps simulateCrashBeforeReversalHandler r"
| "route deps TestTick r = mountTestOnlyFaults deps (runRetryTickerOnceHandler (deps_error_text deps)) r"
| "route deps TestSeedDue r =
     mountTestOnlyFaults deps (seedTransfersDueForRetryHandler (deps_error_text deps)) r"
| "route deps NoRoute r = answering (deps_unmatched deps r)"

text \<open>
  One request to the router: a fresh exchange over the process, logged. The context of a
  request carries no scope when it arrives.
\<close>

definition NewRouter :: "Deps \<Rightarrow> endpoint \<Rightarrow> http_request \<Rightarrow> handler" where
  "NewRouter deps e r x =
     requestLogger (route_pattern e) (route deps e) (r\<lparr>rq_scope := None\<rparr>) (x\<lparr>ex_written := []\<rparr>)"

section \<open>The process\<close>

text \<open>What \<open>serve\<close> of \<open>cmd/api/main.go\<close> wires: the keys are the environment's, the seam is off.\<close>

definition production :: "string \<Rightarrow> string \<Rightarrow> Deps \<Rightarrow> Deps" where
  "production operatorKey demoTenantKey deps = deps
     \<lparr>deps_OperatorKey := operatorKey,
      deps_TenantKeyResolver := Some (demoTenantResolver demoTenantKey NewTenantKeyResolver),
      deps_EnableTestOnlyFaultSeam := False\<rparr>"

definition started :: "world \<Rightarrow> (nat \<Rightarrow> int) \<Rightarrow> exchange" where
  "started w draws = \<lparr>ex_coordinator = NewTransferCoordinator w draws, ex_metrics = NewMetrics,
     ex_log = [], ex_fields = Map.empty, ex_written = []\<rparr>"

text \<open>
  What happens to a process: a request, a goroutine of the coordinator waking up, a restart
  (its log is kept by whoever collects it).
\<close>

datatype event =
    Request endpoint http_request
  | Wakes nat
  | Restarts

fun happen :: "Deps \<Rightarrow> event \<Rightarrow> exchange \<Rightarrow> exchange" where
  "happen deps (Request e r) x = NewRouter deps e r x"
| "happen deps (Wakes n) x = x\<lparr>ex_coordinator := snd (wake n (ex_coordinator x))\<rparr>"
| "happen deps Restarts x =
     (started (co_world (ex_coordinator x)) (co_draws (ex_coordinator x)))\<lparr>ex_log := ex_log x\<rparr>"

fun happen_all :: "Deps \<Rightarrow> event list \<Rightarrow> exchange \<Rightarrow> exchange" where
  "happen_all deps [] x = x"
| "happen_all deps (e # es) x = happen_all deps es (happen deps e x)"

end
