(* ===== verification/Serving.thy ===== *)
theory Serving
  imports Router System
begin

text \<open>
  What every route keeps, whatever the request: a request is answered exactly once and logged
  exactly once, and it moves the committed database by commits of the specification only.
\<close>

section \<open>Handlers that answer once\<close>

abbreviation world_of :: "exchange \<Rightarrow> world" where
  "world_of x \<equiv> co_world (ex_coordinator x)"

text \<open>The contract of a handler: it answers once, does not log, and refines the specification.\<close>

definition served :: "exchange \<Rightarrow> exchange \<Rightarrow> bool" where
  "served x y \<longleftrightarrow> moves (world_of x) (world_of y) \<and>
     (\<exists>a. ex_written y = ex_written x @ [a]) \<and> ex_log y = ex_log x"

definition proper :: "handler \<Rightarrow> bool" where
  "proper h \<longleftrightarrow> (\<forall>x. well_behaved (world_of x) \<longrightarrow> served x (h x))"

lemma properD: "proper h \<Longrightarrow> well_behaved (world_of x) \<Longrightarrow> served x (h x)"
  by (simp add: proper_def)

text \<open>Log fields and metrics change nothing a client or the database sees.\<close>

definition silent :: "handler \<Rightarrow> bool" where
  "silent f \<longleftrightarrow> (\<forall>x. ex_coordinator (f x) = ex_coordinator x \<and> ex_written (f x) = ex_written x \<and>
     ex_log (f x) = ex_log x)"

lemma silent_set_field [simp]: "silent (set_field k v)"
  and silent_with_metrics [simp]: "silent (with_metrics f)"
  and silent_recordPostingFailure [simp]: "silent (recordPostingFailure e d)"
  and silent_recordTransferLogFields [simp]: "silent (recordTransferLogFields a b m k res)"
  by (simp_all add: silent_def set_field_def with_metrics_def recordPostingFailure_def
      recordTransferLogFields_def Let_def)

lemma proper_after:
  assumes "proper h" and "silent f"
  shows "proper (\<lambda>x. h (f x))"
  unfolding proper_def
proof (intro allI impI)
  fix x assume "well_behaved (world_of x)"
  then have "served (f x) (h (f x))" using assms by (intro properD) (simp_all add: silent_def)
  then show "served x (h (f x))" using assms(2) by (simp add: served_def silent_def)
qed

lemma proper_writeJSON [preserve_intros]: "proper (writeJSON s v)"
  by (simp add: proper_def served_def writeJSON_def)

lemma proper_answering [preserve_intros]: "proper (answering a)"
  unfolding answering_def by (rule proper_writeJSON)

lemma proper_writeInternalError [preserve_intros]: "proper writeInternalError"
  unfolding writeInternalError_def by (rule proper_writeJSON)

lemma proper_writeRefusal [preserve_intros]: "proper (writeRefusal s k extra)"
  unfolding writeRefusal_def by (rule proper_after [OF proper_writeJSON]) simp

lemma proper_writeViolation [preserve_intros]: "proper (writeViolation v)"
proof (cases "v_kind v")
qed (unfold writeViolation_def Let_def, simp_all only: ViolationKind.case,
     (rule proper_after [OF proper_writeRefusal] proper_after [OF proper_writeInternalError], simp)+)

lemma proper_writeDomainError [preserve_intros]: "proper (writeDomainError e)"
  by (cases e) (simp_all add: writeDomainError_def proper_writeViolation proper_writeInternalError)

lemma proper_malformed [preserve_intros]: "proper malformed"
  unfolding malformed_def by (rule proper_writeRefusal)

lemma proper_unidentified [preserve_intros]: "proper refuseUnidentifiedCaller"
  unfolding refuseUnidentifiedCaller_def by (rule proper_after [OF proper_writeJSON]) simp

lemma proper_transfer_not_found [preserve_intros]: "proper refuseTransferNotFound"
  unfolding refuseTransferNotFound_def by (rule proper_writeRefusal)

section \<open>Rules for the ways a handler goes on\<close>

lemma proper_calling [preserve_intros]:
  assumes "saga_ok m" and "\<And>r. proper (k r)"
  shows "proper (calling m k)"
  unfolding proper_def
proof (intro allI impI)
  fix x assume x: "well_behaved (world_of x)"
  obtain r c where c: "m (ex_coordinator x) = (r, c)" by (cases "m (ex_coordinator x)")
  then have m: "moves (world_of x) (co_world c)" using saga_okD [OF assms(1) x] by simp
  then have "well_behaved (co_world c)" using x same_run_well_behaved moves_def by blast
  then have "served (x\<lparr>ex_coordinator := c\<rparr>) (k r (x\<lparr>ex_coordinator := c\<rparr>))"
    using properD [OF assms(2)] by simp
  then show "served x (calling m k x)"
    using c moves_trans [OF m] by (simp add: calling_def served_def)
qed

lemma proper_ledger_call [preserve_intros]:
  "refines m \<Longrightarrow> (\<And>r. proper (k r)) \<Longrightarrow> proper (ledger_call m k)"
  unfolding ledger_call_def by (intro preserve_intros)

lemma proper_case_sum [preserve_intros]:
  "(\<And>x. proper (f x)) \<Longrightarrow> (\<And>x. proper (g x)) \<Longrightarrow> proper (case r of Inl x \<Rightarrow> f x | Inr x \<Rightarrow> g x)"
  by (cases r) auto

lemma proper_case_option [preserve_intros]:
  "proper h \<Longrightarrow> (\<And>x. proper (f x)) \<Longrightarrow> proper (case r of None \<Rightarrow> h | Some x \<Rightarrow> f x)"
  by (cases r) auto

lemma proper_case_prod [preserve_intros]:
  "(\<And>x y. proper (f x y)) \<Longrightarrow> proper (case p of (x, y) \<Rightarrow> f x y)"
  by (cases p) auto

lemma proper_if [preserve_intros]: "proper h \<Longrightarrow> proper k \<Longrightarrow> proper (if c then h else k)"
  by simp

lemma proper_reading_clock [preserve_intros]: "(\<And>t. proper (k t)) \<Longrightarrow> proper (reading_clock k)"
  unfolding reading_clock_def by (intro preserve_intros)

lemma proper_decoding [preserve_intros]: "(\<And>v. proper (k v)) \<Longrightarrow> proper (decoding s strict found k)"
  unfolding decoding_def by (intro preserve_intros)

lemma proper_decoding_quietly [preserve_intros]:
  "(\<And>v. proper (k v)) \<Longrightarrow> proper (decoding_quietly s found k)"
  unfolding decoding_quietly_def by (intro preserve_intros)

lemma proper_reading_amount [preserve_intros]: "(\<And>m. proper (k m)) \<Longrightarrow> proper (reading_amount text k)"
  by (auto simp: reading_amount_def intro: preserve_intros split: sum.splits amount_error.splits)

lemma proper_recordPostingSuccess [preserve_intros]:
  assumes "\<And>s. proper (k s)"
  shows "proper (recordPostingSuccess res d k)"
  unfolding recordPostingSuccess_def Let_def by (rule proper_after [OF assms]) simp

text \<open>A unit of work that is rolled back moves nothing.\<close>

lemma read_only_world:
  "snd (read_only m w) = snd (withUnitOfWork (bindE m (\<lambda>_. throw ErrTransferNotFound :: unit uow)) w)"
proof (cases "Begin w")
  case (Pair r v)
  then show ?thesis
    by (cases r; cases "m v"; cases "fst (m v)")
       (auto simp: read_only_def withUnitOfWork_def bindE_def throw_def split: sum.splits prod.splits)
qed

lemma refines_read_only:
  assumes "works m"
  shows "refines (read_only m)"
proof -
  have "works (bindE m (\<lambda>_. throw ErrTransferNotFound :: unit uow))" using assms by (intro preserve_intros)
  then have "refines (withUnitOfWork (bindE m (\<lambda>_. throw ErrTransferNotFound :: unit uow)))"
    by (intro refines_withUnitOfWork works_body_ok)
  then show ?thesis by (simp add: refines_def read_only_world)
qed

section \<open>The handlers\<close>

lemma works_lookups [preserve_intros]:
  "works (tenants_ByName n)" "works (transfers_Get x)"
  unfolding tenants_ByName_def transfers_Get_def scan_found_def by (intro preserve_intros)+

lemma refines_http_reads [preserve_intros]:
  "refines (resolveProvisionedTenantID n)" "refines (transferStateByID x)" "refines (NewTenantKeyResolver h)"
  unfolding resolveProvisionedTenantID_def transferStateByID_def NewTenantKeyResolver_def
  by (intro refines_read_only preserve_intros)+

lemma proper_createAccountHandler [preserve_intros]: "proper (createAccountHandler r)"
  unfolding createAccountHandler_def Let_def by (intro preserve_intros)

lemma proper_provisionTenantHandler [preserve_intros]: "proper (provisionTenantHandler r)"
  unfolding provisionTenantHandler_def Let_def by (intro preserve_intros)

lemma proper_authorizeTenantPairHandler [preserve_intros]: "proper (authorizeTenantPairHandler r)"
  unfolding authorizeTenantPairHandler_def Let_def by (intro preserve_intros)

lemma proper_revokeTenantLinkHandler [preserve_intros]: "proper (revokeTenantLinkHandler r)"
  unfolding revokeTenantLinkHandler_def Let_def by (intro preserve_intros)

lemma proper_registerCounterpartyAliasHandler [preserve_intros]:
  "proper (registerCounterpartyAliasHandler r)"
  unfolding registerCounterpartyAliasHandler_def Let_def by (intro preserve_intros)

lemma proper_getBalanceHandler [preserve_intros]: "proper (getBalanceHandler r)"
  unfolding getBalanceHandler_def by (intro preserve_intros)

lemma proper_getEntriesHandler [preserve_intros]: "proper (getEntriesHandler r)"
  unfolding getEntriesHandler_def Let_def by (intro preserve_intros)

lemma proper_getTransferHandler [preserve_intros]: "proper (getTransferHandler r)"
  unfolding getTransferHandler_def by (intro preserve_intros)

lemma proper_verdictHandler [preserve_intros]: "proper (verdictHandler r)"
  unfolding verdictHandler_def Let_def
  by (intro preserve_intros proper_after [where f = "with_metrics _"]) simp

lemma proper_postTransferHandler [preserve_intros]: "proper (postTransferHandler r)"
  unfolding postTransferHandler_def Let_def
  by (intro preserve_intros proper_after [where f = "recordPostingFailure _ _"]
      proper_after [where f = "recordTransferLogFields _ _ _ _ _"]) simp_all

text \<open>The trigger of the other legs only puts a goroutine to sleep.\<close>

lemma proper_then_trigger:
  assumes "proper h"
  shows "proper (\<lambda>x. if b then calling (TriggerForwardLegs i) (\<lambda>_ z. z) (h x) else h x)"
  unfolding proper_def
proof (intro allI impI)
  fix x assume "well_behaved (world_of x)"
  then have "served x (h x)" using assms by (rule properD [rotated])
  then show "served x (if b then calling (TriggerForwardLegs i) (\<lambda>_ z. z) (h x) else h x)"
    by (simp add: served_def calling_def TriggerForwardLegs_def spawn_def)
qed

lemma proper_sendCrossTenantTransferHandler [preserve_intros]:
  "proper (sendCrossTenantTransferHandler r)"
  unfolding sendCrossTenantTransferHandler_def Let_def
  by (intro preserve_intros proper_then_trigger)

lemma proper_postTransferOrCrossTenantHandler [preserve_intros]:
  "proper (postTransferOrCrossTenantHandler r)"
  unfolding postTransferOrCrossTenantHandler_def Let_def by (intro preserve_intros)

section \<open>The guards and the test-only routes\<close>

lemma proper_resolving [preserve_intros]:
  assumes "\<And>h. refines (resolve h)" and "\<And>t. proper (k t)"
  shows "proper (resolving resolve token k)"
proof -
  have "proper (ledger_call (resolve h) (\<lambda>res. case res of
       Inr (Some tenantID) \<Rightarrow> k tenantID | _ \<Rightarrow> refuseUnidentifiedCaller))" for h
    using assms by (intro preserve_intros)
  then show ?thesis by (simp add: proper_def resolving_def)
qed

lemma proper_requireOperatorKey [preserve_intros]:
  "(\<And>r. proper (h r)) \<Longrightarrow> proper (requireOperatorKey key h r)"
  unfolding requireOperatorKey_def by (intro preserve_intros)

lemma proper_requireTenantKey [preserve_intros]:
  "(\<And>h. refines (resolve h)) \<Longrightarrow> (\<And>r. proper (h r)) \<Longrightarrow> proper (requireTenantKey resolve h r)"
  unfolding requireTenantKey_def by (intro preserve_intros)

lemma proper_requireTenantKeyOrOperatorKey [preserve_intros]:
  "(\<And>h. refines (resolve h)) \<Longrightarrow> (\<And>r. proper (h r)) \<Longrightarrow>
     proper (requireTenantKeyOrOperatorKey key resolve h r)"
  unfolding requireTenantKeyOrOperatorKey_def by (intro preserve_intros)

lemma proper_requireTransferParty [preserve_intros]:
  "(\<And>h. refines (resolve h)) \<Longrightarrow> (\<And>r. proper (h r)) \<Longrightarrow> proper (requireTransferParty key resolve h r)"
  unfolding requireTransferParty_def admit_party_def by (intro preserve_intros)

lemma proper_on_coordinator:
  assumes "\<And>c. co_world (f c) = co_world c"
  shows "proper (\<lambda>x. answer_ok (on_coordinator f x))"
  by (simp add: proper_def served_def answer_ok_def writeJSON_def on_coordinator_def assms)

lemma proper_failed_with [preserve_intros]: "proper (failed_with f what e)"
  unfolding failed_with_def by (rule proper_writeJSON)

lemma refines_seed_loop [preserve_intros]: "refines (seed_loop n a b now m)"
  by (induction n) (auto intro!: preserve_intros)

lemma refines_seed_transfers [preserve_intros]: "refines (seed_transfers n)"
  unfolding seed_transfers_def by (intro preserve_intros)

lemma proper_test_only [preserve_intros]:
  "proper (injectLegFaultHandler r)" "proper (injectReversalFaultHandler r)"
  "proper (simulateCrashBeforeForwardLegHandler r)" "proper (simulateCrashBeforeReversalHandler r)"
  "proper (runRetryTickerOnceHandler f r)" "proper (seedTransfersDueForRetryHandler f r)"
  unfolding injectLegFaultHandler_def injectReversalFaultHandler_def simulateCrashBeforeForwardLegHandler_def
    simulateCrashBeforeReversalHandler_def runRetryTickerOnceHandler_def
    seedTransfersDueForRetryHandler_def Let_def
  by (intro preserve_intros proper_on_coordinator saga_tick, simp?)+

lemma proper_mounts [preserve_intros]:
  "proper (mountConsole deps r)"
  "(\<And>r. proper (h r)) \<Longrightarrow> proper (mountTestOnlyFaults deps h r)"
  unfolding mountConsole_def mountTestOnlyFaults_def by (intro preserve_intros; simp)+

section \<open>Every route\<close>

text \<open>The resolver refines the specification: it reads. The production one does.\<close>

definition reading_resolver :: "Deps \<Rightarrow> bool" where
  "reading_resolver deps \<longleftrightarrow> (\<forall>h. refines (resolveTenantKeyResolver (deps_TenantKeyResolver deps) h))"

lemma proper_route:
  assumes "reading_resolver deps"
  shows "proper (route deps e r)"
proof -
  have "refines (resolveTenantKeyResolver (deps_TenantKeyResolver deps) h)" for h
    using assms by (simp add: reading_resolver_def)
  moreover have "proper (\<lambda>x. answering (deps_scrape deps r (ex_metrics x)) x)"
    by (simp add: proper_def served_def answering_def writeJSON_def)
  moreover have "proper healthHandler" unfolding healthHandler_def by (rule proper_writeJSON)
  ultimately show ?thesis by (cases e) (auto intro!: preserve_intros)
qed

lemma refines_demoTenantResolver:
  assumes "\<And>h. refines (f h)"
  shows "refines (demoTenantResolver key f h)"
  using assms by (auto simp: demoTenantResolver_def refines_def ret_def)

lemma reading_production: "reading_resolver (production key demo deps)"
  by (simp add: reading_resolver_def production_def resolveTenantKeyResolver_def
      refines_demoTenantResolver refines_http_reads)

lemma clock_run: "clock w = (Inr (w_clock w (w_reads w)), w\<lparr>w_reads := Suc (w_reads w)\<rparr>)"
  by (simp add: clock_def)

lemma reading_clock_eq:
  "reading_clock k x = k (w_clock (world_of x) (w_reads (world_of x)))
     (x\<lparr>ex_coordinator := (ex_coordinator x)
        \<lparr>co_world := (world_of x)\<lparr>w_reads := Suc (w_reads (world_of x))\<rparr>\<rparr>\<rparr>)"
  by (simp add: reading_clock_def ledger_call_def calling_def on_ledger_def clock_run)

text \<open>A reading of the clock is no move of the database.\<close>

lemma moves_read: "moves w (w\<lparr>w_reads := Suc (w_reads w)\<rparr>)"
  by (simp add: moves_def same_run_def)

lemma NewRouter_serves:
  assumes "reading_resolver deps" and "well_behaved (world_of x)"
  shows "moves (world_of x) (world_of (NewRouter deps e r x))"
    and "\<exists>status v line. ex_written (NewRouter deps e r x) = [(status, v)] \<and>
           ex_log (NewRouter deps e r x) = ex_log x @ [line] \<and> (log_warns line \<longleftrightarrow> 500 \<le> status) \<and>
           log_attrs line ''status'' = Some (json_int status) \<and>
           log_attrs line ''route'' = Some (JStr (route_pattern e)) \<and>
           log_attrs line ''request_id'' = Some (JStr (rq_requestID r))"
proof -
  let ?w = "world_of x"
  let ?x = "x\<lparr>ex_written := [], ex_coordinator := (ex_coordinator x)
      \<lparr>co_world := ?w\<lparr>w_reads := Suc (w_reads ?w)\<rparr>\<rparr>, ex_fields := Map.empty\<rparr>"
  let ?y = "route deps e (r\<lparr>rq_scope := None\<rparr>) ?x"
  have "well_behaved (world_of ?x)" using assms(2) by (simp add: well_behaved_def)
  then have y: "served ?x ?y" by (rule properD [OF proper_route [OF assms(1)]])
  have eq: "NewRouter deps e r x = ?y\<lparr>ex_coordinator := (ex_coordinator ?y)
        \<lparr>co_world := (world_of ?y)\<lparr>w_reads := Suc (w_reads (world_of ?y))\<rparr>\<rparr>,
      ex_log := ex_log ?y @ [\<lparr>log_warns = (500 \<le> recorded_status ?y),
        log_attrs = (ex_fields ?y)(''request_id'' \<mapsto> JStr (rq_requestID r),
          ''route'' \<mapsto> JStr (route_pattern e), ''status'' \<mapsto> json_int (recorded_status ?y)),
        log_elapsed = (w_clock (world_of ?y) (w_reads (world_of ?y)) - w_clock ?w (w_reads ?w)) sdiv 1000\<rparr>]\<rparr>"
    unfolding NewRouter_def requestLogger_def Let_def reading_clock_eq
    by (simp add: recorded_status_def)
  have "moves ?w (world_of ?x)" using moves_read [of ?w] by simp
  then have "moves ?w (world_of ?y)" using y moves_trans by (fastforce simp: served_def)
  then show "moves (world_of x) (world_of (NewRouter deps e r x))"
    unfolding eq using moves_trans [OF _ moves_read] by simp
  obtain a where "ex_written ?y = [a]" using y by (auto simp: served_def)
  moreover have "ex_log ?y = ex_log x" using y by (simp add: served_def)
  ultimately show "\<exists>status v line. ex_written (NewRouter deps e r x) = [(status, v)] \<and>
           ex_log (NewRouter deps e r x) = ex_log x @ [line] \<and> (log_warns line \<longleftrightarrow> 500 \<le> status) \<and>
           log_attrs line ''status'' = Some (json_int status) \<and>
           log_attrs line ''route'' = Some (JStr (route_pattern e)) \<and>
           log_attrs line ''request_id'' = Some (JStr (rq_requestID r))"
    unfolding eq by (cases a) (simp add: recorded_status_def)
qed

section \<open>A process over time\<close>

lemma happen_moves:
  assumes "reading_resolver deps" and "well_behaved (world_of x)"
  shows "moves (world_of x) (world_of (happen deps e x))"
proof (cases e)
  case (Wakes n)
  then show ?thesis using saga_okD [OF saga_wake assms(2)] by simp
qed (use NewRouter_serves(1) [OF assms] in \<open>simp_all add: started_def\<close>)

lemma happen_all_moves:
  assumes "reading_resolver deps"
  shows "well_behaved (world_of x) \<Longrightarrow> moves (world_of x) (world_of (happen_all deps es x))"
proof (induction es arbitrary: x)
  case (Cons e es)
  have m: "moves (world_of x) (world_of (happen deps e x))" using assms Cons.prems by (rule happen_moves)
  then have "well_behaved (world_of (happen deps e x))"
    using Cons.prems same_run_well_behaved moves_def by blast
  then have "moves (world_of (happen deps e x)) (world_of (happen_all deps es (happen deps e x)))"
    by (rule Cons.IH)
  with m show ?case using moves_trans by simp
qed simp

end
