(* ===== verification/WireProps.thy ===== *)
theory WireProps
  imports Wire
begin

text \<open>
  Amounts survive the trip over the wire, fingerprints tell requests apart, and the verdict
  comes before the figures in what \<open>GET /health/trial-balance\<close> answers.
\<close>

section \<open>Amounts\<close>

lemma quotient_text:
  assumes "0 \<le> (n :: int)"
  shows "fmt_int (n sdiv 100) = dec_text (nat n div 100)" and "n smod 100 = int (nat n mod 100)"
  using assms by (simp_all add: signed_divide_int_def signed_modulo_int_def fmt_int_def
      nat_div_distrib zmod_int sgn_if abs_if pos_imp_zdiv_neg_iff)

lemma digit_0: "digit_char 0 = CHR ''0''"
  unfolding digit_char_def by code_simp

definition two_digits :: "nat \<Rightarrow> string" where
  "two_digits n = [digit_char (n div 10), digit_char (n mod 10)]"

lemma cents_text:
  assumes "c < 100"
  shows "(if length (fmt_int (int c)) < 2 then CHR ''0'' # fmt_int (int c) else fmt_int (int c)) = two_digits c"
proof (cases "c < 10")
  case True
  then show ?thesis by (simp add: fmt_int_def dec_text.simps [of c] two_digits_def digit_0)
next
  case False
  then have "dec_text (c div 10) = [digit_char (c div 10)]"
    using assms by (simp add: dec_text.simps [of "c div 10"])
  then show ?thesis using False by (simp add: fmt_int_def dec_text.simps [of c] two_digits_def)
qed

text \<open>The text of an amount: a sign, the whole units, a point, two digits.\<close>

lemma formatMoney_text:
  assumes "sint (minorUnits m) \<noteq> - (2 ^ 63)"
  defines "a \<equiv> nat \<bar>sint (minorUnits m)\<bar>"
  shows "formatMoney m = (if sint (minorUnits m) < 0 then ''-'' else []) @ dec_text (a div 100) @ ''.'' @
    two_digits (a mod 100)"
proof -
  let ?minor = "if sint (minorUnits m) < 0 then - minorUnits m else minorUnits m"
  have s: "sint ?minor = int a" using sint_minus_exact [OF assms(1)] by (auto simp: a_def)
  have q: "sint ?minor smod 100 = int (a mod 100)" "fmt_int (sint ?minor sdiv 100) = dec_text (a div 100)"
    unfolding s using quotient_text [of "int a"] by simp_all
  have c: "a mod 100 < 100" by simp
  show ?thesis unfolding formatMoney_def Let_def q cents_text [OF c] by (rule refl)
qed

lemma digits_split:
  assumes "list_all is_digit ds"
  shows "takeWhile is_digit (ds @ CHR ''.'' # s) = ds" and "dropWhile is_digit (ds @ CHR ''.'' # s) = CHR ''.'' # s"
proof -
  have "\<forall>c \<in> set ds. is_digit c" using assms by (simp add: list_all_iff)
  moreover have "\<not> is_digit (CHR ''.'')" by (simp add: is_digit_def)
  ultimately show "takeWhile is_digit (ds @ CHR ''.'' # s) = ds"
    and "dropWhile is_digit (ds @ CHR ''.'' # s) = CHR ''.'' # s"
    by (simp_all add: takeWhile_append2 dropWhile_append2)
qed

lemma minus_not_digit: "is_digit c \<Longrightarrow> c \<noteq> CHR ''-'' \<and> c \<noteq> CHR ''+''"
  by (auto simp: is_digit_def)

lemma decimalLiteral_text:
  assumes "list_all is_digit ds" "ds \<noteq> []" "list_all is_digit fs" "fs \<noteq> []" and "s = [] \<or> s = ''-''"
  shows "decimalLiteral (s @ ds @ ''.'' @ fs) = Some (s, ds, fs)"
proof -
  obtain c cs where ds: "ds = c # cs" using assms(2) by (cases ds) auto
  then have c: "c \<noteq> CHR ''-''" using assms(1) minus_not_digit by (auto simp: list_all_iff)
  have p: "\<not> is_digit (CHR ''.'')" by (simp add: is_digit_def)
  have d: "list_all is_digit cs" "is_digit c" using assms(1) ds by simp_all
  note split = digits_split [OF d(1), of fs]
  show ?thesis
  proof (cases "s = []")
    case True
    then show ?thesis using assms(3,4) c p d split by (simp add: decimalLiteral_def Let_def ds)
  next
    case False
    then have "s = ''-''" using assms(5) by simp
    then show ?thesis using assms(3,4) p d split by (simp add: decimalLiteral_def Let_def ds)
  qed
qed

lemma big_set_digits:
  assumes "list_all is_digit ds" "ds \<noteq> []"
  shows "big_set_string ds = Some (int (dec_value ds))"
proof -
  obtain c cs where ds: "ds = c # cs" using assms(2) by (cases ds) auto
  then have c: "c \<noteq> CHR ''-'' \<and> c \<noteq> CHR ''+''" using assms(1) minus_not_digit by (auto simp: list_all_iff)
  then show ?thesis using assms ds by (simp add: big_set_string_def Let_def)
qed

lemma dec_text_all: "list_all is_digit (dec_text n)"
  using dec_text_digits by (simp add: list_all_iff)

lemma dec_value_append_two:
  assumes "c < 100"
  shows "dec_value (ds @ two_digits c) = 100 * dec_value ds + c"
proof -
  have "dec_value (ds @ two_digits c) = 10 * (10 * dec_value ds + c div 10) + c mod 10"
    using assms dec_value_snoc [of "ds @ [digit_char (c div 10)]" "digit_char (c mod 10)"]
    by (simp add: two_digits_def)
  then show ?thesis by simp
qed

lemma parse_format:
  assumes "currency m = ''USD''" and "sint (minorUnits m) \<noteq> - (2 ^ 63)"
  shows "parseAmount (formatMoney m) = Inr m"
proof -
  let ?s = "sint (minorUnits m)"
  define a where "a = nat \<bar>?s\<bar>"
  have two: "list_all is_digit (two_digits c)" "two_digits c \<noteq> []" "length (two_digits c) = 2" if "c < 100" for c
    using that by (simp_all add: two_digits_def)
  have lit: "decimalLiteral (formatMoney m) =
      Some (if ?s < 0 then ''-'' else [], dec_text (a div 100), two_digits (a mod 100))"
    unfolding formatMoney_text [OF assms(2)] a_def [symmetric]
    by (rule decimalLiteral_text) (simp_all add: two dec_text_all)
  have "dec_value (dec_text (a div 100) @ two_digits (a mod 100)) = a"
    by (subst dec_value_append_two) simp_all
  then have mag: "big_set_string (dec_text (a div 100) @ two_digits (a mod 100)) = Some (int a)"
    using big_set_digits [of "dec_text (a div 100) @ two_digits (a mod 100)"] two [of "a mod 100"]
    by (simp add: dec_text_all)
  have val: "(if ?s < 0 then - int a else int a) = ?s" by (simp add: a_def)
  have "currencyScales ''USD'' = Some 2" by (simp add: currencyScales_def)
  then have "NewMoneyFromDecimalLiteral ((if ?s < 0 then ''-'' else []) = ''-'') (dec_text (a div 100))
      (two_digits (a mod 100)) ''USD'' = Inr \<lparr>minorUnits = word_of_int ?s, currency = ''USD''\<rparr>"
    using mag val two [of "a mod 100"]
    by (cases "?s < 0") (simp_all add: NewMoneyFromDecimalLiteral_def Let_def)
  then show ?thesis using lit assms(1) by (simp add: parseAmount_def)
qed

section \<open>Fingerprints\<close>

lemma fmt_d_chars: "set (fmt_d x) \<subseteq> insert (CHR ''-'') {c. is_digit c}"
  using dec_text_digits by (auto simp: fmt_d_def)

lemma fmt_d_no_bar: "CHR ''|'' \<notin> set (fmt_d x)"
  using fmt_d_chars [of x] by (auto simp: is_digit_def)

lemma until_bar: "CHR ''|'' \<notin> set a \<Longrightarrow> takeWhile (\<lambda>c. c \<noteq> CHR ''|'') (a @ CHR ''|'' # s) = a"
  by (induction a) auto

lemma bar_split:
  assumes "a @ CHR ''|'' # s = b @ CHR ''|'' # t" and "CHR ''|'' \<notin> set a" and "CHR ''|'' \<notin> set b"
  shows "a = b \<and> s = t"
proof -
  have "a = b" using until_bar [OF assms(2), of s] until_bar [OF assms(3), of t] assms(1) by simp
  then show ?thesis using assms(1) by simp
qed

lemma fingerprint_inject:
  assumes "fingerprintTransfer a b m = fingerprintTransfer a' b' m'"
    and "CHR ''|'' \<notin> set a" "CHR ''|'' \<notin> set a'" "CHR ''|'' \<notin> set b" "CHR ''|'' \<notin> set b'"
  shows "a = a' \<and> b = b' \<and> m = m'"
proof -
  let ?rest = "\<lambda>m. fmt_d (minorUnits m) @ CHR ''|'' # currency m"
  have 1: "a = a' \<and> b @ CHR ''|'' # ?rest m = b' @ CHR ''|'' # ?rest m'"
    using assms(1) by (intro bar_split assms(2,3)) (simp add: fingerprintTransfer_def)
  then have 2: "b = b' \<and> ?rest m = ?rest m'"
    by (intro bar_split assms(4,5)) simp
  then have "fmt_d (minorUnits m) = fmt_d (minorUnits m') \<and> currency m = currency m'"
    by (intro bar_split fmt_d_no_bar) simp
  then show ?thesis using 1 2 by (simp add: fmt_d_inject)
qed

text \<open>With a bar in an account id two requests that move different money share a fingerprint.\<close>

lemma fingerprint_collision:
  "fingerprintTransfer ''a|b'' ''c'' m = fingerprintTransfer ''a'' ''b|c'' m"
  by (simp add: fingerprintTransfer_def)

section \<open>The verdict comes first\<close>

text \<open>
  The body is rendered with the verdict before every figure: the measured positions are the
  same for every report, but for the length of the verdict.
\<close>

lemma verdict_text:
  "\<exists>rest. marshal rfc (verdict_json b) = ''{'' @ quote_text ''verdict'' @ '':'' @ quote_text (vb_Verdict b) @
     '','' @ quote_text ''imbalance_minor'' @ rest"
  by (simp add: verdict_json_def)

lemma quoted_names:
  "quote_text ''verdict'' = CHR 0x22 # ''verdict'' @ [CHR 0x22]"
  "quote_text ''imbalance_minor'' = CHR 0x22 # ''imbalance_minor'' @ [CHR 0x22]"
  "quote_text ''Books balance: YES'' = CHR 0x22 # ''Books balance: YES'' @ [CHR 0x22]"
  "quote_text ''Books balance: NO'' = CHR 0x22 # ''Books balance: NO'' @ [CHR 0x22]"
  by code_simp+

lemma verdict_positions:
  "vb_VerdictPosition (verdictBodyFor report) = 1"
  "vb_FigurePosition (verdictBodyFor report) = (if rep_Balanced report then 32 else 31)"
proof -
  let ?b = "\<lparr>vb_Verdict = (if rep_Balanced report then ''Books balance: YES'' else ''Books balance: NO''),
      vb_ImbalanceMinor = minorUnits (rep_TrialBalance report),
      vb_EntryCount = rep_EntryCount report, vb_ElapsedMillis = rep_ElapsedMillis report,
      vb_Drifted = map driftWire_of (rep_Drifted report), vb_VerdictPosition = 0, vb_FigurePosition = 0\<rparr>"
  obtain rest where r: "marshal (\<lambda>_. []) (verdict_json ?b) = ''{'' @ quote_text ''verdict'' @ '':'' @
      quote_text (vb_Verdict ?b) @ '','' @ quote_text ''imbalance_minor'' @ rest"
    using verdict_text [of "\<lambda>_. []" ?b] by blast
  have "index_from 0 (''{'' @ quote_text ''verdict'' @ s) (quote_text ''verdict'') = 1" for s
    unfolding quoted_names by (simp add: index_from.simps)
  then show "vb_VerdictPosition (verdictBodyFor report) = 1"
    by (simp add: verdictBodyFor_def Let_def r)
  show "vb_FigurePosition (verdictBodyFor report) = (if rep_Balanced report then 32 else 31)"
    unfolding verdictBodyFor_def Let_def r
    by (cases "rep_Balanced report") (simp_all add: quoted_names index_from.simps)
qed

end
