(* ===== verification/HttpProps.thy ===== *)
theory HttpProps
  imports Serving WireProps CalmSaga
begin

text \<open>
  Who is let in and what a caller learns: callers nobody knows are refused, a tenant's key
  never reads another tenant's entries, and a transfer of other tenants answers like one that
  does not exist.
\<close>

section \<open>Running a handler\<close>

definition with_world :: "world \<Rightarrow> exchange \<Rightarrow> exchange" where
  "with_world w x = x\<lparr>ex_coordinator := (ex_coordinator x)\<lparr>co_world := w\<rparr>\<rparr>"

lemma with_world_sel [simp]:
  "world_of (with_world w x) = w" "ex_written (with_world w x) = ex_written x"
  "ex_fields (with_world w x) = ex_fields x" "ex_log (with_world w x) = ex_log x"
  "ex_metrics (with_world w x) = ex_metrics x"
  by (simp_all add: with_world_def)

lemma ledger_call_run: "m (world_of x) = (r, w) \<Longrightarrow> ledger_call m k x = k r (with_world w x)"
  by (simp add: ledger_call_def calling_def on_ledger_def with_world_def)

lemma ledger_call_eq: "ledger_call m k x = (case m (world_of x) of (r, w) \<Rightarrow> k r (with_world w x))"
  by (simp add: ledger_call_run split: prod.split)

definition later :: "exchange \<Rightarrow> exchange" where
  "later x = with_world ((world_of x)\<lparr>w_reads := Suc (w_reads (world_of x))\<rparr>) x"

lemma reading_clock_run:
  "reading_clock k x = k (w_clock (world_of x) (w_reads (world_of x))) (later x)"
  by (simp add: reading_clock_eq later_def with_world_def)

lemma later_sel [simp]:
  "w_committed (world_of (later x)) = w_committed (world_of x)"
  "ex_written (later x) = ex_written x"
  by (simp_all add: later_def)

text \<open>The router around a route: one reading of the clock before it, one after.\<close>

definition arriving :: "exchange \<Rightarrow> exchange" where
  "arriving x = (later (x\<lparr>ex_written := []\<rparr>))\<lparr>ex_fields := Map.empty\<rparr>"

definition logged :: "endpoint \<Rightarrow> http_request \<Rightarrow> time \<Rightarrow> exchange \<Rightarrow> exchange" where
  "logged e r began y = (later y)\<lparr>ex_log := ex_log y @
     [\<lparr>log_warns = (500 \<le> recorded_status y),
       log_attrs = (ex_fields y)(''request_id'' \<mapsto> JStr (rq_requestID r), ''route'' \<mapsto> JStr (route_pattern e),
         ''status'' \<mapsto> json_int (recorded_status y)),
       log_elapsed = (w_clock (world_of y) (w_reads (world_of y)) - began) sdiv 1000\<rparr>]\<rparr>"

lemma NewRouter_run:
  "NewRouter deps e r x = logged e r (w_clock (world_of x) (w_reads (world_of x)))
     (route deps e (r\<lparr>rq_scope := None\<rparr>) (arriving x))"
  by (simp add: NewRouter_def requestLogger_def reading_clock_run arriving_def logged_def Let_def
      later_def with_world_def recorded_status_def)

lemma logged_sel [simp]:
  "ex_written (logged e r t y) = ex_written y"
  "w_committed (world_of (logged e r t y)) = w_committed (world_of y)"
  by (simp_all add: logged_def later_def)

section \<open>Callers nobody knows\<close>

text \<open>Nobody has the token whose hash it is: no tenant now, and no other session makes one.\<close>

definition unknown_hash :: "world \<Rightarrow> string \<Rightarrow> bool" where
  "unknown_hash w h \<longleftrightarrow> resolveTenantKey (w_committed w) h = None \<and>
     (\<forall>n d. resolveTenantKey d h = None \<longrightarrow> resolveTenantKey (w_env w n d) h = None)"

lemma resolver_unknown:
  assumes "unknown_hash w h"
  shows "\<exists>r w'. NewTenantKeyResolver h w = (r, w') \<and> (\<forall>t. r \<noteq> Inr (Some t)) \<and> since w w'"
proof -
  let ?v = "w\<lparr>w_ops := Suc (w_ops w), w_db := w_committed w, w_locks := [], w_dirty := False\<rparr>"
  let ?u = "(turn ?v)\<lparr>w_ops := Suc (Suc (w_ops w))\<rparr>"
  have "since w ?v" by (simp add: since_def same_run_def)
  moreover have "since ?v (turn ?v)" by (rule turn_since)
  ultimately have s: "since w (turn ?v)" by (rule since_trans)
  have u: "since w ?u" "since w (Rollback ?u)"
    using s by (simp_all add: since_def same_run_def Rollback_def)
  have b: "since w (w\<lparr>w_ops := Suc (w_ops w)\<rparr>)" by (simp add: since_def same_run_def)
  have none: "resolveTenantKey (w_db ?u) h = None"
    using assms by (simp add: turn_def unknown_hash_def Let_def)
  have ops: "w_ops (turn ?v) = Suc (w_ops w)" "w_faults (turn ?v) = w_faults w"
    by (simp_all add: turn_def Let_def)
  show ?thesis
    using u b none ops
    by (auto simp: NewTenantKeyResolver_def read_only_def bindE_def Begin_def query_def statement_def Let_def)
qed

text \<open>A request whose token is not the operator's, not the demo tenant's and nobody else's.\<close>

definition stranger :: "string \<Rightarrow> string \<Rightarrow> world \<Rightarrow> http_request \<Rightarrow> bool" where
  "stranger operatorKey demoTenantKey w r \<longleftrightarrow>
     \<not> isOperatorKey (fst (bearerToken r)) operatorKey \<and>
     (snd (bearerToken r) \<longrightarrow>
        unknown_hash w (w_sha256hex w (fst (bearerToken r))) \<and>
        (demoTenantKey \<noteq> [] \<longrightarrow> w_sha256hex w (fst (bearerToken r)) \<noteq> w_sha256hex w demoTenantKey))"

fun guarded :: "endpoint \<Rightarrow> bool" where
  "guarded e \<longleftrightarrow> e \<in> {PostTenants, GetTrialBalance, GetVerdict, PostTenantLinks, DeleteTenantLink, PostAccounts,
     GetAccount, PostTransfers, PostCounterparties, GetTransferRoute, GetEntriesRoute}"

abbreviation production_resolver :: "string \<Rightarrow> resolver" where
  "production_resolver demoTenantKey \<equiv> demoTenantResolver demoTenantKey NewTenantKeyResolver"

lemma production_sel [simp]:
  "deps_OperatorKey (production key demo deps) = key"
  "resolveTenantKeyResolver (deps_TenantKeyResolver (production key demo deps)) = production_resolver demo"
  "deps_EnableTestOnlyFaultSeam (production key demo deps) = False"
  by (simp_all add: production_def resolveTenantKeyResolver_def)

lemmas hash_defs = hashBearerToken_def hashIdempotencyKey_def hashCredential_def

text \<open>What a refusal leaves behind: the one answer, and nothing of its own in the database.\<close>

definition refused :: "exchange \<Rightarrow> exchange \<Rightarrow> bool" where
  "refused x y \<longleftrightarrow> ex_written y = ex_written x @ [(401, JObj [(''error'', JStr ''unidentified_caller'')])] \<and>
     since (world_of x) (world_of y)"

lemma refused_now [simp]: "refused x (refuseUnidentifiedCaller x)"
  by (simp add: refused_def refuseUnidentifiedCaller_def writeJSON_def set_field_def)

lemma refused_resolving:
  assumes "unknown_hash (world_of x) (w_sha256hex (world_of x) token)"
    and "demoTenantKey \<noteq> [] \<Longrightarrow> w_sha256hex (world_of x) token \<noteq> w_sha256hex (world_of x) demoTenantKey"
  shows "refused x (resolving (production_resolver demoTenantKey) token k x)"
proof -
  obtain r w' where w': "NewTenantKeyResolver (w_sha256hex (world_of x) token) (world_of x) = (r, w')"
      "\<forall>t. r \<noteq> Inr (Some t)" "since (world_of x) w'"
    using resolver_unknown [OF assms(1)] by blast
  then have "production_resolver demoTenantKey (w_sha256hex (world_of x) token) (world_of x) = (r, w')"
    using assms(2) by (auto simp: demoTenantResolver_def hashCredential_def)
  then have "resolving (production_resolver demoTenantKey) token k x = refuseUnidentifiedCaller (with_world w' x)"
    using w'(2) by (auto simp: resolving_def hash_defs ledger_call_run split: sum.splits option.splits)
  then show ?thesis
    using w'(3) by (simp add: refused_def refuseUnidentifiedCaller_def writeJSON_def set_field_def)
qed

lemma refused_route:
  assumes "guarded e" and "stranger key demo (world_of x) r"
  shows "refused x (route (production key demo deps) e r x)"
proof -
  have op: "\<not> isOperatorKey (fst (bearerToken r)) key" using assms(2) by (simp add: stranger_def)
  have "refused x (resolving (production_resolver demo) (fst (bearerToken r)) k x)" if "snd (bearerToken r)" for k
    using assms(2) that by (intro refused_resolving) (simp_all add: stranger_def)
  then show ?thesis
    using assms(1) op
    by (cases e) (auto simp: requireOperatorKey_def requireTenantKey_def requireTenantKeyOrOperatorKey_def
        requireTransferParty_def split: prod.splits)
qed

lemma arriving_world:
  "world_of (arriving x) = (world_of x)\<lparr>w_reads := Suc (w_reads (world_of x))\<rparr>" "ex_written (arriving x) = []"
  by (simp_all add: arriving_def later_def with_world_def)

lemma refused_request:
  fixes deps
  assumes "guarded e" and "stranger key demo (world_of x) r"
  defines "y \<equiv> NewRouter (production key demo deps) e r x"
  shows "ex_written y = [(401, JObj [(''error'', JStr ''unidentified_caller'')])] \<and>
    since (world_of x) (world_of y)"
proof -
  let ?x = "arriving x" and ?r = "r\<lparr>rq_scope := None\<rparr>"
  have "stranger key demo (world_of ?x) ?r"
    using assms(2) by (simp add: stranger_def unknown_hash_def arriving_world bearerToken_def)
  then have z: "refused ?x (route (production key demo deps) e ?r ?x)" by (rule refused_route [OF assms(1)])
  have "since (world_of x) (world_of ?x)" by (simp add: arriving_world since_reads)
  then have "since (world_of x) (world_of (route (production key demo deps) e ?r ?x))"
    using z since_trans by (auto simp: refused_def)
  then have "since (world_of x) (world_of y)"
    unfolding y_def NewRouter_run by (simp add: logged_def later_def since_reads)
  then show ?thesis using z unfolding y_def NewRouter_run by (simp add: refused_def arriving_world)
qed

section \<open>A tenant's key reads one tenant's entries\<close>

lemma withUnitOfWork_Inr:
  "withUnitOfWork fn w = (Inr x, w') \<Longrightarrow> \<exists>u u'. fn u = (Inr x, u')"
  by (auto simp: withUnitOfWork_def bindE_def split: sum.splits prod.splits)

lemma bindE_Inr: "bindE m f w = (Inr y, w') \<Longrightarrow> \<exists>x u. m w = (Inr x, u) \<and> f x u = (Inr y, w')"
  by (auto simp: bindE_def split: sum.splits prod.splits)

lemma query_Inr: "query f w = (Inr x, w') \<Longrightarrow> \<exists>d. x = f d"
  by (auto simp: query_def statement_def Let_def split: if_splits)

lemma decide_Inr: "decide r w = (Inr x, w') \<Longrightarrow> r = Inr x"
  by (auto simp: decide_def throw_def ret_def split: sum.splits)

lemma scan_all_rows:
  "scan_all f rows = Inr es \<Longrightarrow> \<forall>e \<in> set es. \<exists>r \<in> set rows. f r = Inr e"
  by (induction rows arbitrary: es) (auto split: sum.splits)

lemma EntriesFor_tenant:
  assumes "EntriesFor (ScopedToTenant t) i w = (Inr es, w')"
  shows "\<forall>e \<in> set es. te_TenantID e = t"
proof -
  obtain rows u where q: "sorted_query (\<lambda>collate d. sort_key
        (\<lambda>r. (collate (er_tenant r), er_recorded_at r, sint (er_sequence r)))
        (filter (\<lambda>r. in_scope (ScopedToTenant t) (er_tenant r) \<and> er_account r = i) (entries d))) w = (Inr rows, u)"
      and s: "scanAccountEntries rows i = Inr es"
    using assms unfolding EntriesFor_def by (blast dest: bindE_Inr decide_Inr)
  have "\<forall>r \<in> set rows. er_tenant r = t" using q unfolding sorted_query_def by (auto dest!: query_Inr)
  then show ?thesis
    using s by (fastforce simp: scanAccountEntries_def dest!: scan_all_rows split: sum.splits)
qed

lemma running_loop_tenants:
  "running_loop st es = Inr traced \<Longrightarrow> map trace_TenantID traced = map te_TenantID es"
  by (induction es arbitrary: st traced) (auto simp: Let_def split: sum.splits)

lemma GetEntries_tenant:
  assumes "GetEntries (ScopedToTenant t) i w = (Inr traced, w')"
  shows "\<forall>row \<in> set traced. trace_TenantID row = t"
proof -
  obtain es u where es: "runningBalances es = Inr traced"
      and "withUnitOfWork (bindE (bindE (accounts_Get t i) (\<lambda>_. ret ()))
             (\<lambda>_. EntriesFor (ScopedToTenant t) i)) w = (Inr es, u)"
    using assms unfolding GetEntries_def Resolve_simps by (auto dest!: bindE_Inr decide_Inr)
  then obtain v v' where "EntriesFor (ScopedToTenant t) i v = (Inr es, v')"
    by (blast dest: withUnitOfWork_Inr bindE_Inr)
  then have "\<forall>e \<in> set es. te_TenantID e = t" by (rule EntriesFor_tenant)
  moreover have "map trace_TenantID traced = map te_TenantID es"
    using es running_loop_tenants by (simp add: runningBalances_def)
  ultimately show ?thesis by (metis (no_types, lifting) ex_map_conv list.set_map imageE imageI)
qed

text \<open>Every refusal is an object that starts with its kind.\<close>

definition refusal :: "json \<Rightarrow> bool" where
  "refusal v \<longleftrightarrow> (\<exists>kind extra. v = JObj ((''error'', JStr kind) # extra))"

definition refuses :: "handler \<Rightarrow> bool" where
  "refuses h \<longleftrightarrow> (\<forall>x. \<exists>s v. refusal v \<and> ex_written (h x) = ex_written x @ [(s, v)])"

lemma refuses_basic:
  "refuses (writeRefusal s k extra)" "refuses writeInternalError" "refuses refuseUnidentifiedCaller"
  by (simp_all add: refuses_def refusal_def writeRefusal_def writeInternalError_def writeJSON_def
      set_field_def refuseUnidentifiedCaller_def)

lemma refuses_after: "refuses h \<Longrightarrow> silent f \<Longrightarrow> refuses (\<lambda>x. h (f x))"
  unfolding refuses_def silent_def by metis

lemma refuses_writeViolation: "refuses (writeViolation v)"
proof (cases "v_kind v")
qed (unfold writeViolation_def Let_def, simp_all only: ViolationKind.case,
     (rule refuses_after [OF refuses_basic(1)] refuses_after [OF refuses_basic(2)], simp)+)

lemma refuses_writeDomainError: "refuses (writeDomainError e)"
  by (cases e) (simp_all add: writeDomainError_def refuses_writeViolation refuses_basic)

lemma refusesD: "refuses h \<Longrightarrow> \<exists>s v. refusal v \<and> ex_written (h x) = ex_written x @ [(s, v)]"
  by (simp add: refuses_def)

definition of_tenant :: "string \<Rightarrow> json \<Rightarrow> bool" where
  "of_tenant t row \<longleftrightarrow> (\<exists>members. row = JObj members \<and> map_of members ''tenant_id'' = Some (JStr t))"

text \<open>What the handler of entries writes for a caller who is one tenant.\<close>

lemma scope_stays:
  "entriesScopeFromQuery (ScopedToTenant t) i named = Inr scope \<Longrightarrow> scope = ScopedToTenant t"
  by (auto simp: entriesScopeFromQuery_def split: if_splits)

lemma getEntries_one_tenant:
  "\<exists>s v. ex_written (getEntriesHandler (withTenantScope (ScopedToTenant t) r) x) = ex_written x @ [(s, v)] \<and>
     (refusal v \<or> (\<exists>rows. v = JObj [(''entries'', JArr rows)] \<and> (\<forall>row \<in> set rows. of_tenant t row)))"
proof -
  let ?r = "withTenantScope (ScopedToTenant t) r"
  have scope: "TenantScopeFromContext ?r = ScopedToTenant t"
    by (simp add: TenantScopeFromContext_def withTenantScope_def)
  have refusing: ?thesis if "getEntriesHandler ?r x = writeDomainError e y" "ex_written y = ex_written x" for e y
    using refusesD [OF refuses_writeDomainError, of e y] that by auto
  show ?thesis
  proof (cases "entriesScopeFromQuery (ScopedToTenant t) (rq_urlParam ?r ''id'') (rq_queryTenantID ?r)")
    case (Inl e)
    then show ?thesis using refusing [of e x] by (simp add: getEntriesHandler_def scope)
  next
    case (Inr s)
    then have s: "s = ScopedToTenant t" by (rule scope_stays)
    obtain res w where w: "GetEntries (ScopedToTenant t) (rq_urlParam ?r ''id'') (world_of x) = (res, w)"
      by fastforce
    have run: "getEntriesHandler ?r x = (case res of Inl e \<Rightarrow> writeDomainError e
        | Inr traced \<Rightarrow> writeJSON 200 (JObj [(''entries'', JArr (entriesToWire traced))])) (with_world w x)"
      unfolding getEntriesHandler_def Let_def scope Inr s by (simp add: ledger_call_eq w)
    show ?thesis
    proof (cases res)
      case (Inl e)
      then show ?thesis using refusing [of e "with_world w x"] run by simp
    next
      case (Inr traced)
      then have "\<forall>row \<in> set traced. trace_TenantID row = t" using w GetEntries_tenant by blast
      then have "\<forall>row \<in> set (entriesToWire traced). of_tenant t row"
        by (auto simp: entriesToWire_def entryWire_def of_tenant_def)
      then show ?thesis using run Inr by (simp add: writeJSON_def)
    qed
  qed
qed

lemma resolving_cases:
  assumes "production_resolver demo (w_sha256hex (world_of x) token) (world_of x) = (res, w)"
  shows "resolving (production_resolver demo) token k x =
     (case res of Inr (Some t) \<Rightarrow> k t | _ \<Rightarrow> refuseUnidentifiedCaller) (with_world w x)"
  unfolding resolving_def hash_defs by (simp add: ledger_call_eq assms)

lemma entries_of_one_tenant:
  assumes "\<not> isOperatorKey (fst (bearerToken r)) key"
    and "ex_written (route (production key demo deps) GetEntriesRoute r x) =
      ex_written x @ [(200, JObj [(''entries'', JArr rows)])]"
  shows "\<exists>t. fst (production_resolver demo (w_sha256hex (world_of x) (fst (bearerToken r))) (world_of x)) =
      Inr (Some t) \<and> (\<forall>row \<in> set rows. of_tenant t row)"
proof -
  let ?token = "fst (bearerToken r)"
  obtain res w where w: "production_resolver demo (w_sha256hex (world_of x) ?token) (world_of x) = (res, w)"
    by fastforce
  have refusal_no: "ex_written (refuseUnidentifiedCaller y) \<noteq> ex_written y @ [(200, v)]" for y v
    by (simp add: refuseUnidentifiedCaller_def writeJSON_def set_field_def)
  let ?k = "\<lambda>t. getEntriesHandler (withTenantScope (ScopedToTenant t) r)"
  have run: "route (production key demo deps) GetEntriesRoute r x =
      (if \<not> snd (bearerToken r) then refuseUnidentifiedCaller x
       else (case res of Inr (Some t) \<Rightarrow> ?k t | _ \<Rightarrow> refuseUnidentifiedCaller) (with_world w x))"
    using assms(1) resolving_cases [OF w, of ?k] by (cases "bearerToken r") (simp add: requireTenantKeyOrOperatorKey_def)
  then have ok: "snd (bearerToken r)" using assms(2) refusal_no [of x] by (auto split: if_splits)
  show ?thesis
  proof (cases "\<exists>t. res = Inr (Some t)")
    case True
    then obtain t where t: "res = Inr (Some t)" by blast
    obtain s v where v: "ex_written (?k t (with_world w x)) = ex_written (with_world w x) @ [(s, v)]"
        and "refusal v \<or> (\<exists>rows. v = JObj [(''entries'', JArr rows)] \<and> (\<forall>row \<in> set rows. of_tenant t row))"
      using getEntries_one_tenant [of t r "with_world w x"] by blast
    then show ?thesis using assms(2) run ok t w by (auto simp: refusal_def)
  next
    case False
    then have "(case res of Inr (Some t) \<Rightarrow> ?k t | _ \<Rightarrow> refuseUnidentifiedCaller) = refuseUnidentifiedCaller"
      by (auto split: sum.splits option.splits)
    then show ?thesis using assms(2) run ok refusal_no [of "with_world w x"] by simp
  qed
qed

section \<open>A foreign transfer and no transfer\<close>

definition forget :: "string \<Rightarrow> db \<Rightarrow> db" where
  "forget i d = d\<lparr>transfer_states := filter (\<lambda>r. xr_id r \<noteq> i) (transfer_states d)\<rparr>"

definition forget_world :: "string \<Rightarrow> world \<Rightarrow> world" where
  "forget_world i w = w\<lparr>w_committed := forget i (w_committed w), w_db := forget i (w_db w)\<rparr>"

definition forget_in :: "string \<Rightarrow> exchange \<Rightarrow> exchange" where
  "forget_in i x = with_world (forget_world i (world_of x)) x"

definition undisturbed :: "world \<Rightarrow> bool" where
  "undisturbed w \<longleftrightarrow> (\<forall>n d. w_env w n d = d)"

text \<open>The tenant a request's token stands for.\<close>

definition presented_tenant :: "string \<Rightarrow> world \<Rightarrow> http_request \<Rightarrow> string option" where
  "presented_tenant demoTenantKey w r =
     (let h = w_sha256hex w (fst (bearerToken r)) in
      if demoTenantKey \<noteq> [] \<and> h = w_sha256hex w demoTenantKey then Some legacySeedTenantID
      else resolveTenantKey (w_committed w) h)"

lemma bearerToken_scope [simp]: "bearerToken (r\<lparr>rq_scope := s\<rparr>) = bearerToken r"
  by (simp add: bearerToken_def)

lemma presented_tenant_read [simp]:
  "presented_tenant demo (w\<lparr>w_reads := n\<rparr>) (r\<lparr>rq_scope := s\<rparr>) = presented_tenant demo w r"
  by (simp add: presented_tenant_def Let_def)

lemma forget_sel [simp]:
  "resolveTenantKey (forget i d) h = resolveTenantKey d h"
  by (simp add: resolveTenantKey_def forget_def)

lemma forget_absent: "db_transfer (forget i d) i = None"
  by (auto simp: db_transfer_def forget_def find_None_ball)

lemma forget_world_sel [simp]:
  "w_sha256hex (forget_world i w) = w_sha256hex w" "w_faults (forget_world i w) = w_faults w"
  "w_clock (forget_world i w) = w_clock w" "w_reads (forget_world i w) = w_reads w"
  "w_committed (forget_world i w) = forget i (w_committed w)"
  by (simp_all add: forget_world_def)

text \<open>Two reads of which one cannot see the forgotten row.\<close>

lemma read_only_forget:
  assumes "undisturbed w"
  shows "\<exists>r w'. read_only (query f) w = (r, w') \<and> undisturbed w' \<and> w_committed w' = w_committed w \<and>
     w_sha256hex w' = w_sha256hex w \<and>
     (r = Inr (f (w_committed w)) \<and> read_only (query f) (forget_world i w) =
        (Inr (f (forget i (w_committed w))), forget_world i w') \<or>
      (\<exists>e. r = Inl e \<and> read_only (query f) (forget_world i w) = (r, forget_world i w')))"
  using assms
  by (cases "w_faults w (w_ops w) = NoFault"; cases "w_faults w (Suc (w_ops w)) = NoFault")
     (auto simp: read_only_def bindE_def Begin_def query_def statement_def turn_def Let_def undisturbed_def
        forget_world_def Rollback_def)

lemma resolver_forget:
  assumes "undisturbed w" and "w_sha256hex w (fst (bearerToken r)) = h"
  shows "\<exists>res w'. production_resolver demo h w = (res, w') \<and>
     production_resolver demo h (forget_world i w) = (res, forget_world i w') \<and>
     undisturbed w' \<and> w_committed w' = w_committed w \<and>
     (\<forall>t. res = Inr (Some t) \<longrightarrow> presented_tenant demo w r = Some t)"
proof (cases "demo \<noteq> [] \<and> h = w_sha256hex w demo")
  case True
  then show ?thesis using assms
    by (auto simp: demoTenantResolver_def hashCredential_def presented_tenant_def ret_def)
next
  case False
  obtain res w' where res: "read_only (query (\<lambda>d. resolveTenantKey d h)) w = (res, w')"
      "read_only (query (\<lambda>d. resolveTenantKey d h)) (forget_world i w) = (res, forget_world i w')"
      "undisturbed w'" "w_committed w' = w_committed w"
      "\<forall>x. res = Inr x \<longrightarrow> x = resolveTenantKey (w_committed w) h"
    using read_only_forget [OF assms(1), of "\<lambda>d. resolveTenantKey d h" i] by fastforce
  moreover have "production_resolver demo h v = NewTenantKeyResolver h v"
    if "w_sha256hex v = w_sha256hex w" for v
    using False that by (auto simp: demoTenantResolver_def hashCredential_def)
  ultimately show ?thesis
    using False assms(2) by (auto simp: NewTenantKeyResolver_def presented_tenant_def)
qed

lemma transfer_read_forget:
  assumes "undisturbed w" and "db_transfer (w_committed w) i = Some row" and "scanTransferState row = Inr s"
  shows "\<exists>w'. (transferStateByID i w = (Inr (Some s), w') \<and>
       transferStateByID i (forget_world i w) = (Inr None, forget_world i w')) \<or>
     (\<exists>e. transferStateByID i w = (Inl e, w') \<and> transferStateByID i (forget_world i w) = (Inl e, forget_world i w'))"
proof -
  have split: "transferStateByID i v =
      (case read_only (query (\<lambda>d. db_transfer d i)) v of
         (Inl e, u) \<Rightarrow> (Inl e, u)
       | (Inr x, u) \<Rightarrow> (case x of None \<Rightarrow> (Inr None, u)
          | Some r \<Rightarrow> (case scanTransferState r of Inl e \<Rightarrow> (Inl (ErrViolation e), u) | Inr s \<Rightarrow> (Inr (Some s), u))))"
    for v
    by (auto simp: transferStateByID_def transfers_Get_def scan_found_def read_only_def bindE_def decide_def
        throw_def ret_def split: sum.splits prod.splits option.splits)
  show ?thesis
    using read_only_forget [OF assms(1), of "\<lambda>d. db_transfer d i" i] assms(2,3) forget_absent
    by (auto simp: split)
qed

lemma refusals_forget:
  "refuseUnidentifiedCaller (forget_in i x) = forget_in i (refuseUnidentifiedCaller x)"
  "refuseTransferNotFound (forget_in i x) = forget_in i (refuseTransferNotFound x)"
  "writeInternalError (forget_in i x) = forget_in i (writeInternalError x)"
  by (simp_all add: refuseUnidentifiedCaller_def refuseTransferNotFound_def writeInternalError_def
      writeRefusal_def writeJSON_def set_field_def forget_in_def with_world_def)

lemma violation_forget: "writeDomainError e (forget_in i x) = forget_in i (writeDomainError e x)"
proof (cases e)
  case (ErrViolation v)
  show ?thesis unfolding ErrViolation
    by (cases "v_kind v") (simp_all add: writeDomainError_def writeViolation_def Let_def
        writeRefusal_def writeInternalError_def writeJSON_def set_field_def forget_in_def with_world_def)
qed (simp_all add: writeDomainError_def refusals_forget)

lemma with_forget_world: "with_world (forget_world i w) (forget_in i x) = forget_in i (with_world w x)"
  by (simp add: forget_in_def with_world_def)

lemma forget_in_world: "world_of (forget_in i x) = forget_world i (world_of x)"
  by (simp add: forget_in_def)

text \<open>Past the credential: the read of the transfer and the refusal.\<close>

lemma party_forget:
  assumes "undisturbed (world_of x)" and "db_transfer (w_committed (world_of x)) i = Some row"
    and "scanTransferState row = Inr s" and "rq_urlParam r ''transfer_id'' = i"
    and "t \<noteq> ts_TenantID s" "t \<noteq> ts_CounterpartyTenantID s"
  shows "admit_party (Some t) h r (forget_in i x) = forget_in i (admit_party (Some t) h r x)"
proof -
  obtain w' where "(transferStateByID i (world_of x) = (Inr (Some s), w') \<and>
       transferStateByID i (forget_world i (world_of x)) = (Inr None, forget_world i w')) \<or>
     (\<exists>e. transferStateByID i (world_of x) = (Inl e, w') \<and>
        transferStateByID i (forget_world i (world_of x)) = (Inl e, forget_world i w'))"
    using transfer_read_forget [OF assms(1-3)] by blast
  then show ?thesis
    using assms(4-6)
    by (auto simp: admit_party_def ledger_call_eq forget_in_world with_forget_world refusals_forget violation_forget)
qed

lemma route_forget:
  assumes "undisturbed (world_of x)" and "db_transfer (w_committed (world_of x)) i = Some row"
    and "scanTransferState row = Inr s" and "rq_urlParam r ''transfer_id'' = i"
    and "\<not> isOperatorKey (fst (bearerToken r)) key"
    and "presented_tenant demo (world_of x) r \<notin> {Some (ts_TenantID s), Some (ts_CounterpartyTenantID s)}"
  shows "route (production key demo deps) GetTransferRoute r (forget_in i x) =
     forget_in i (route (production key demo deps) GetTransferRoute r x)"
proof -
  let ?token = "fst (bearerToken r)" and ?w = "world_of x"
  let ?h = "w_sha256hex ?w ?token" and ?k = "\<lambda>t. admit_party (Some t) getTransferHandler r"
  obtain res w' where res: "production_resolver demo ?h ?w = (res, w')"
      "production_resolver demo ?h (forget_world i ?w) = (res, forget_world i w')"
      "undisturbed w'" "w_committed w' = w_committed ?w"
      "\<forall>t. res = Inr (Some t) \<longrightarrow> presented_tenant demo ?w r = Some t"
    using resolver_forget [OF assms(1) refl, where r = r and demo = demo and i = i] by blast
  have run: "resolving (production_resolver demo) ?token ?k x =
      (case res of Inr (Some t) \<Rightarrow> ?k t | _ \<Rightarrow> refuseUnidentifiedCaller) (with_world w' x)"
    by (rule resolving_cases [OF res(1)])
  have "resolving (production_resolver demo) ?token ?k (forget_in i x) =
      (case res of Inr (Some t) \<Rightarrow> ?k t | _ \<Rightarrow> refuseUnidentifiedCaller)
        (with_world (forget_world i w') (forget_in i x))"
    by (rule resolving_cases) (simp add: forget_in_world res(2))
  also have "\<dots> = (case res of Inr (Some t) \<Rightarrow> ?k t | _ \<Rightarrow> refuseUnidentifiedCaller)
      (forget_in i (with_world w' x))"
    by (simp only: with_forget_world)
  also have "\<dots> = forget_in i (resolving (production_resolver demo) ?token ?k x)"
  proof (cases "\<exists>t. res = Inr (Some t)")
    case True
    then obtain t where t: "res = Inr (Some t)" by blast
    then have "t \<noteq> ts_TenantID s" "t \<noteq> ts_CounterpartyTenantID s" using res(5) assms(6) by auto
    moreover have "undisturbed (world_of (with_world w' x))"
        "db_transfer (w_committed (world_of (with_world w' x))) i = Some row"
      using res(3,4) assms(2) by simp_all
    ultimately show ?thesis unfolding run t using party_forget assms(3,4) by simp
  next
    case False
    then have "(case res of Inr (Some t) \<Rightarrow> ?k t | _ \<Rightarrow> refuseUnidentifiedCaller) = refuseUnidentifiedCaller"
      by (auto split: sum.splits option.splits)
    then show ?thesis unfolding run by (simp add: refusals_forget)
  qed
  finally show ?thesis
    using assms(5) by (cases "bearerToken r") (simp add: requireTransferParty_def refusals_forget)
qed

lemma NewRouter_forget:
  assumes "undisturbed (world_of x)" and "db_transfer (w_committed (world_of x)) i = Some row"
    and "scanTransferState row = Inr s" and "rq_urlParam r ''transfer_id'' = i"
    and "\<not> isOperatorKey (fst (bearerToken r)) key"
    and "presented_tenant demo (world_of x) r \<notin> {Some (ts_TenantID s), Some (ts_CounterpartyTenantID s)}"
  shows "NewRouter (production key demo deps) GetTransferRoute r (forget_in i x) =
     forget_in i (NewRouter (production key demo deps) GetTransferRoute r x)"
proof -
  let ?r = "r\<lparr>rq_scope := None\<rparr>"
  have a: "arriving (forget_in i x) = forget_in i (arriving x)"
    by (simp add: arriving_def later_def forget_in_def with_world_def forget_world_def)
  have l: "logged e r t (forget_in i y) = forget_in i (logged e r t y)" for e t y
    by (simp add: logged_def later_def forget_in_def with_world_def forget_world_def recorded_status_def)
  have "route (production key demo deps) GetTransferRoute ?r (forget_in i (arriving x)) =
      forget_in i (route (production key demo deps) GetTransferRoute ?r (arriving x))"
    using assms by (intro route_forget [where row = row and s = s])
      (simp_all add: arriving_world undisturbed_def)
  then show ?thesis unfolding NewRouter_run a by (simp add: l forget_in_world)
qed

end
