(* ===== verification/HttpPosting.thy ===== *)
theory HttpPosting
  imports HttpProps
begin

text \<open>
  \<open>POST /transfers\<close> from the request to the answer, and the retry of it: the second answer is
  the first one, byte for byte.
\<close>

section \<open>The credential in a quiet world\<close>

text \<open>The database, the identifiers and the environment as they were.\<close>

definition as_before :: "world \<Rightarrow> world \<Rightarrow> bool" where
  "as_before w w' \<longleftrightarrow> same_run w w' \<and> w_committed w' = w_committed w \<and> w_minted w' = w_minted w"

lemma as_before_trans: "as_before u v \<Longrightarrow> as_before v w \<Longrightarrow> as_before u w"
  by (auto simp: as_before_def intro: same_run_trans)

lemma as_before_read: "as_before w (w\<lparr>w_reads := Suc (w_reads w)\<rparr>)"
  by (simp add: as_before_def same_run_def)

lemma as_before_quiet: "as_before w w' \<Longrightarrow> quiet w \<Longrightarrow> quiet w'"
  using quiet_same_run [of w w'] by (simp add: as_before_def)

lemma read_only_quiet:
  assumes "quiet w"
  shows "\<exists>w'. read_only (query f) w = (Inr (f (w_committed w)), w') \<and> as_before w w'"
  using quiet_steps [OF assms]
  by (auto simp: read_only_def run_defs as_before_def same_run_def)

lemma production_resolver_quiet:
  assumes "quiet w" and "presented_tenant demo w r = Some t"
  shows "\<exists>w'. production_resolver demo (w_sha256hex w (fst (bearerToken r))) w = (Inr (Some t), w') \<and>
     as_before w w'"
proof -
  let ?h = "w_sha256hex w (fst (bearerToken r))"
  obtain w' where "NewTenantKeyResolver ?h w = (Inr (resolveTenantKey (w_committed w) ?h), w')" "as_before w w'"
    using read_only_quiet [OF assms(1), of "\<lambda>d. resolveTenantKey d ?h"]
    unfolding NewTenantKeyResolver_def by blast
  then show ?thesis
    using assms(2) by (auto simp: demoTenantResolver_def hashCredential_def presented_tenant_def Let_def
        ret_def as_before_def split: if_splits)
qed

section \<open>The request\<close>

definition transfer_json :: "string \<Rightarrow> string \<Rightarrow> string \<Rightarrow> json" where
  "transfer_json from to amount = JObj [(''from'', JStr from), (''to'', JStr to), (''amount'', JStr amount)]"

definition transfer_body :: "string \<Rightarrow> string \<Rightarrow> string \<Rightarrow> body" where
  "transfer_body from to amount = \<lparr>body_reads = True, body_first = Some (transfer_json from to amount),
     body_whole = Some (transfer_json from to amount)\<rparr>"

lemma fold_names:
  "fold_key ''from'' = ''from''" "fold_key ''to'' = ''to''" "fold_key ''amount'' = ''amount''"
  "fold_key ''counterparty_alias'' = ''counterparty_alias''"
  by code_simp+

lemma transfer_body_fields:
  "field_of postTransferRequest ''from'' = Some (''from'', WireString)"
  "field_of postTransferRequest ''to'' = Some (''to'', WireString)"
  "field_of postTransferRequest ''amount'' = Some (''amount'', WireString)"
  "field_of discriminator ''from'' = None" "field_of discriminator ''to'' = None"
  "field_of discriminator ''amount'' = None"
  by (simp_all add: field_of_def postTransferRequest_def discriminator_def fold_names)

lemma transfer_json_decodes:
  "\<not> decode_error postTransferRequest True (transfer_json a b text)"
  "decode_string postTransferRequest (transfer_json a b text) ''from'' = a"
  "decode_string postTransferRequest (transfer_json a b text) ''to'' = b"
  "decode_string postTransferRequest (transfer_json a b text) ''amount'' = text"
  "decode_string discriminator (transfer_json a b text) ''counterparty_alias'' = []"
  by (simp_all add: transfer_json_def decode_error_def decode_string_def members_of_def transfer_body_fields)

lemma parseAmount_text: "parseAmount text = Inr m \<Longrightarrow> text \<noteq> []"
  by (auto simp: parseAmount_def decimalLiteral_def)

text \<open>The command the handler hands to the ledger.\<close>

definition command_of :: "string \<Rightarrow> string \<Rightarrow> string \<Rightarrow> Money \<Rightarrow> string \<Rightarrow> TransferRequest" where
  "command_of t a b m key = \<lparr>req_From = a, req_To = b, req_Amount = m, req_IdempotencyKey = key,
     req_Fingerprint = fingerprintTransfer a b m, req_TenantID = t\<rparr>"

lemma postTransferHandler_answers:
  assumes "rq_body r = transfer_body a b text" and "rq_idempotencyKey r \<noteq> []" and "a \<noteq> []" "b \<noteq> []"
    and "parseAmount text = Inr m"
    and "PostTransfer (command_of (caller_tenant r) a b m (rq_idempotencyKey r)) (world_of (later x)) = (Inr res, w)"
  defines "y \<equiv> postTransferOrCrossTenantHandler r x"
  shows "ex_written y = ex_written x @ [(if res_Replayed res then 200 else 201, transferAnswer res)] \<and>
    world_of y = w\<lparr>w_reads := Suc (w_reads w)\<rparr>"
proof -
  let ?v = "transfer_json a b text"
  have body: "body_first (rq_body r) = Some ?v" "body_whole (rq_body r) = Some ?v" "body_reads (rq_body r)"
    by (simp_all add: assms(1) transfer_body_def)
  have y: "y = postTransferHandler r x"
    by (simp add: y_def postTransferOrCrossTenantHandler_def body transfer_json_decodes)
  have "y = reading_clock (\<lambda>now. recordPostingSuccess res
        (now - w_clock (world_of x) (w_reads (world_of x))) (\<lambda>status z.
          writeJSON status (transferAnswer res)
            (recordTransferLogFields a b m (rq_idempotencyKey r) res z))) (with_world w (later x))"
    unfolding y postTransferHandler_def reading_clock_run Let_def decoding_def body option.case
      transfer_json_decodes
    using assms(2-6) parseAmount_text [OF assms(5)]
    by (simp add: reading_amount_def ledger_call_eq command_of_def transfer_json_decodes body(3))
  then show ?thesis
    by (simp add: reading_clock_run recordPostingSuccess_def Let_def writeJSON_def recordTransferLogFields_def
        set_field_def with_metrics_def later_def with_world_def)
qed

text \<open>The whole request: credential, handler, log line.\<close>

lemma as_before_later: "as_before (world_of x) (world_of (later x))"
  by (simp add: later_def as_before_read)

lemma post_request:
  assumes q: "quiet (world_of x)"
    and r: "snd (bearerToken r)" "presented_tenant demo (world_of x) r = Some t"
      "rq_body r = transfer_body a b text" "rq_idempotencyKey r \<noteq> []"
    and m: "a \<noteq> []" "b \<noteq> []" "parseAmount text = Inr m"
  shows "\<exists>w0. as_before (world_of x) w0 \<and>
    (\<forall>res w. PostTransfer (command_of t a b m (rq_idempotencyKey r)) w0 = (Inr res, w) \<longrightarrow>
      ex_written (NewRouter (production key demo deps) PostTransfers r x) =
        [(if res_Replayed res then 200 else 201, transferAnswer res)] \<and>
      as_before w (world_of (NewRouter (production key demo deps) PostTransfers r x)))"
proof -
  let ?r = "r\<lparr>rq_scope := None\<rparr>"
  let ?s = "withTenantScope (ScopedToTenant t) ?r"
  have ax: "as_before (world_of x) (world_of (arriving x))" by (simp add: arriving_world as_before_read)
  have qa: "quiet (world_of (arriving x))" using as_before_quiet [OF ax q] .
  have pa: "presented_tenant demo (world_of (arriving x)) ?r = Some t" using r(2) by (simp add: arriving_world)
  obtain w' where w': "production_resolver demo (w_sha256hex (world_of (arriving x)) (fst (bearerToken ?r)))
        (world_of (arriving x)) = (Inr (Some t), w')" "as_before (world_of (arriving x)) w'"
    using production_resolver_quiet [OF qa pa] by blast
  let ?z = "with_world w' (arriving x)"
  have route: "route (production key demo deps) PostTransfers ?r (arriving x) =
      postTransferOrCrossTenantHandler ?s ?z"
    using resolving_cases [OF w'(1)] r(1) by (cases "bearerToken ?r") (simp add: requireTenantKey_def)
  let ?w0 = "world_of (later ?z)"
  have "as_before (world_of x) ?w0"
    using as_before_trans [OF as_before_trans [OF ax w'(2)]] as_before_later [of ?z] by simp
  moreover have "ex_written (NewRouter (production key demo deps) PostTransfers r x) =
        [(if res_Replayed res then 200 else 201, transferAnswer res)] \<and>
      as_before w (world_of (NewRouter (production key demo deps) PostTransfers r x))"
    if run: "PostTransfer (command_of t a b m (rq_idempotencyKey r)) ?w0 = (Inr res, w)" for res w
  proof -
    have s: "caller_tenant ?s = t" "rq_body ?s = transfer_body a b text" "rq_idempotencyKey ?s = rq_idempotencyKey r"
      using r(3) by (simp_all add: caller_tenant_def TenantScopeFromContext_def withTenantScope_def)
    have "PostTransfer (command_of (caller_tenant ?s) a b m (rq_idempotencyKey ?s)) ?w0 = (Inr res, w)"
      using run s by simp
    then have y: "ex_written (postTransferOrCrossTenantHandler ?s ?z) =
          ex_written ?z @ [(if res_Replayed res then 200 else 201, transferAnswer res)] \<and>
        world_of (postTransferOrCrossTenantHandler ?s ?z) = w\<lparr>w_reads := Suc (w_reads w)\<rparr>"
      using s(2,3) r(4) m by (intro postTransferHandler_answers) simp_all
    then show ?thesis
      unfolding NewRouter_run route
      by (simp add: arriving_world logged_def later_def as_before_def same_run_def)
  qed
  ultimately show ?thesis by blast
qed

section \<open>A retry\<close>

lemma stored_entries_new:
  assumes "references d" and "\<not> transaction_exists d tid"
  shows "stored_entries (posted t a b m tid now k fp d) t tid =
    [leg t tid a b (- minorUnits m) (currency m) now 0, leg t tid b a (minorUnits m) (currency m) now 1]"
proof -
  have "filter (\<lambda>r. er_tenant r = t \<and> er_transaction r = tid) (entries d) = []"
    using assms by (auto simp: references_def filter_empty_conv)
  then show ?thesis by (simp add: stored_entries_def)
qed

text \<open>What the answer to a posting shows does not depend on whether it is fresh or replayed.\<close>

lemma transferAnswer_replay:
  assumes "references d" and "\<not> transaction_exists d tid"
  shows "transferAnswer \<lparr>res_Posting = stored_posting (posted t a b m tid now' k fp d) t
        \<lparr>tr_tenant = t, tr_id = tid, tr_recorded_at = now'\<rparr>, res_Replayed = rep\<rparr> =
    transferAnswer \<lparr>res_Posting = posting_of \<lparr>req_From = a, req_To = b, req_Amount = m, req_IdempotencyKey = k,
        req_Fingerprint = fp, req_TenantID = t\<rparr> tid now, res_Replayed = rep'\<rparr>"
  using stored_entries_new [OF assms]
  by (simp add: transferAnswer_def stored_posting_def row_entry_def posting_of_def formatMoney_def)

definition posting_body :: "string \<Rightarrow> string \<Rightarrow> string \<Rightarrow> Money \<Rightarrow> json" where
  "posting_body tid a b m = JObj [(''transaction_id'', JStr tid),
     (''legs'', JArr [JObj [(''account'', JStr a), (''amount'', JStr (formatMoney (Money_Negate m)))],
                    JObj [(''account'', JStr b), (''amount'', JStr (formatMoney m))]])]"

lemma transferAnswer_fresh:
  "transferAnswer \<lparr>res_Posting = posting_of (command_of t a b m k) tid now, res_Replayed = rep\<rparr> =
     posting_body tid a b m"
  by (simp add: transferAnswer_def posting_of_def command_of_def posting_body_def)

lemma presented_tenant_posted:
  assumes "same_run w w'" and "tenants (w_committed w') = tenants (w_committed w)"
  shows "presented_tenant demo w' r = presented_tenant demo w r"
  using assms by (simp add: presented_tenant_def resolveTenantKey_def same_run_def Let_def)

lemma command_of_sel [simp]:
  "req_TenantID (command_of t a b m k) = t" "req_From (command_of t a b m k) = a"
  "req_To (command_of t a b m k) = b" "req_Amount (command_of t a b m k) = m"
  "req_IdempotencyKey (command_of t a b m k) = k"
  "req_Fingerprint (command_of t a b m k) = fingerprintTransfer a b m"
  by (simp_all add: command_of_def)

text \<open>The first request posts, whoever asks.\<close>

lemma post_first:
  assumes w: "quiet (world_of x)" "books (w_committed (world_of x))"
      "\<And>n. w_minted (world_of x) \<le> n \<Longrightarrow> \<not> transaction_exists (w_committed (world_of x)) (w_ids (world_of x) n)"
    and r: "snd (bearerToken r)" "presented_tenant demo (world_of x) r = Some t"
      "rq_body r = transfer_body a b text" "rq_idempotencyKey r \<noteq> []"
    and m: "a \<noteq> []" "b \<noteq> []" "parseAmount text = Inr m"
    and mv: "movable t a b m (w_committed (world_of x))" "a \<noteq> b"
      "db_key (w_committed (world_of x)) (rq_idempotencyKey r) = None"
  shows "\<exists>tid now. \<not> transaction_exists (w_committed (world_of x)) tid \<and>
      (let y = NewRouter (production key demo deps) PostTransfers r x in
       tid \<in> w_ids (world_of x) ` {..< w_minted (world_of y)} \<and> ex_written y = [(201, posting_body tid a b m)] \<and>
       w_committed (world_of y) = posted t a b m tid now (rq_idempotencyKey r) (fingerprintTransfer a b m)
         (w_committed (world_of x)))"
proof -
  let ?cmd = "command_of t a b m (rq_idempotencyKey r)" and ?d = "w_committed (world_of x)"
  obtain w0 where w0: "as_before (world_of x) w0"
      "\<And>res w. PostTransfer ?cmd w0 = (Inr res, w) \<Longrightarrow>
        ex_written (NewRouter (production key demo deps) PostTransfers r x) =
          [(if res_Replayed res then 200 else 201, transferAnswer res)] \<and>
        as_before w (world_of (NewRouter (production key demo deps) PostTransfers r x))"
    using post_request [OF w(1) r m] by blast
  have same: "w_committed w0 = ?d" "w_ids w0 = w_ids (world_of x)" "w_minted w0 = w_minted (world_of x)"
    using w0(1) by (simp_all add: as_before_def same_run_def)
  have "\<exists>tid now w'. PostTransfer ?cmd w0 = (Inr \<lparr>res_Posting = posting_of ?cmd tid now, res_Replayed = False\<rparr>, w') \<and>
      tid \<in> w_ids w0 ` {w_minted w0 ..< w_minted w'} \<and>
      w_committed w' = posted (req_TenantID ?cmd) (req_From ?cmd) (req_To ?cmd) (req_Amount ?cmd) tid
        (timestamptz now) (req_IdempotencyKey ?cmd) (req_Fingerprint ?cmd) (w_committed w0)"
    using as_before_quiet [OF w0(1) w(1)] w(2,3) mv
    by (intro PostTransfer_succeeds) (simp_all add: same)
  then obtain tid now w' where p: "PostTransfer ?cmd w0 =
      (Inr \<lparr>res_Posting = posting_of ?cmd tid now, res_Replayed = False\<rparr>, w')"
      and tid: "tid \<in> w_ids w0 ` {w_minted w0 ..< w_minted w'}"
      and d: "w_committed w' = posted t a b m tid (timestamptz now) (rq_idempotencyKey r)
        (fingerprintTransfer a b m) ?d"
    by (auto simp: same)
  have "\<not> transaction_exists ?d tid" using tid w(3) by (auto simp: same)
  then show ?thesis
    using w0(2) [OF p] d tid by (auto simp: Let_def transferAnswer_fresh as_before_def same)
qed

text \<open>The second finds the claim of the first and shows what that recorded.\<close>

lemma post_again:
  assumes w: "quiet (world_of x)" "books (w_committed (world_of x))"
    and d: "w_committed (world_of x) = posted t a b m tid now (rq_idempotencyKey r) (fingerprintTransfer a b m) d0"
      "\<not> transaction_exists d0 tid" "db_key d0 (rq_idempotencyKey r) = None" "books d0"
    and r: "snd (bearerToken r)" "presented_tenant demo (world_of x) r = Some t"
      "rq_body r = transfer_body a b text" "rq_idempotencyKey r \<noteq> []"
    and m: "a \<noteq> []" "b \<noteq> []" "parseAmount text = Inr m"
  shows "let y = NewRouter (production key demo deps) PostTransfers r x in
      ex_written y = [(200, posting_body tid a b m)] \<and> w_committed (world_of y) = w_committed (world_of x)"
proof -
  let ?cmd = "command_of t a b m (rq_idempotencyKey r)" and ?d = "w_committed (world_of x)"
  obtain w0 where w0: "as_before (world_of x) w0"
      "\<And>res w. PostTransfer ?cmd w0 = (Inr res, w) \<Longrightarrow>
        ex_written (NewRouter (production key demo deps) PostTransfers r x) =
          [(if res_Replayed res then 200 else 201, transferAnswer res)] \<and>
        as_before w (world_of (NewRouter (production key demo deps) PostTransfers r x))"
    using post_request [OF w(1) r m] by blast
  have q0: "quiet w0" using as_before_quiet [OF w0(1) w(1)] .
  have c0: "w_committed w0 = ?d" using w0(1) by (simp add: as_before_def)
  let ?c = "\<lparr>kr_key = rq_idempotencyKey r, kr_fingerprint = fingerprintTransfer a b m, kr_transaction = tid\<rparr>"
  let ?t = "\<lparr>tr_tenant = t, tr_id = tid, tr_recorded_at = now\<rparr>"
  have "\<exists>w'. PostTransfer ?cmd w0 = (Inr \<lparr>res_Posting = stored_posting (w_committed w0) (req_TenantID ?cmd) ?t,
      res_Replayed = True\<rparr>, w') \<and> since w0 w'"
  proof (rule PostTransfer_replays)
    show "well_behaved w0" "\<not> faulty w0" using q0 quiet_well_behaved by (simp_all add: quiet_def)
    show "books (w_committed w0)" using w(2) c0 by simp
    show "db_key (w_committed w0) (req_IdempotencyKey ?cmd) = Some ?c"
      using d(1,3) c0 by (simp add: posted_key)
    show "stored_transaction (w_committed w0) (req_TenantID ?cmd) (kr_transaction ?c) = Some ?t"
      using stored_transaction_new [OF d(2)] d(1) c0 by simp
  qed simp
  then obtain w' where p: "PostTransfer ?cmd w0 =
      (Inr \<lparr>res_Posting = stored_posting ?d t ?t, res_Replayed = True\<rparr>, w')" "since w0 w'"
    by (auto simp: c0)
  have "references d0" using d(4) by (simp add: books_def)
  then have "transferAnswer \<lparr>res_Posting = stored_posting ?d t ?t, res_Replayed = True\<rparr> = posting_body tid a b m"
    using transferAnswer_replay [OF _ d(2), of t a b m now "rq_idempotencyKey r" "fingerprintTransfer a b m" True now True]
      transferAnswer_fresh [of t a b m "rq_idempotencyKey r" tid now True] d(1) by (simp add: command_of_def)
  moreover have "w_committed w' = ?d" using quiet_since [OF q0 p(2)] c0 by simp
  ultimately show ?thesis using w0(2) [OF p(1)] by (simp add: Let_def as_before_def)
qed

lemma post_twice:
  assumes w: "quiet (world_of x)" "books (w_committed (world_of x))"
      "\<And>n. w_minted (world_of x) \<le> n \<Longrightarrow> \<not> transaction_exists (w_committed (world_of x)) (w_ids (world_of x) n)"
    and r: "snd (bearerToken r)" "presented_tenant demo (world_of x) r = Some t"
      "rq_body r = transfer_body a b text" "rq_idempotencyKey r \<noteq> []"
    and m: "a \<noteq> []" "b \<noteq> []" "parseAmount text = Inr m"
    and mv: "movable t a b m (w_committed (world_of x))" "a \<noteq> b"
      "db_key (w_committed (world_of x)) (rq_idempotencyKey r) = None"
  shows "\<exists>tid now. (let y = NewRouter (production key demo deps) PostTransfers r x;
        z = NewRouter (production key demo deps) PostTransfers r y in
      ex_written y = [(201, posting_body tid a b m)] \<and> ex_written z = [(200, posting_body tid a b m)] \<and>
      w_committed (world_of y) = posted t a b m tid now (rq_idempotencyKey r) (fingerprintTransfer a b m)
        (w_committed (world_of x)) \<and>
      w_committed (world_of z) = w_committed (world_of y))"
proof -
  let ?d = "w_committed (world_of x)" and ?y = "NewRouter (production key demo deps) PostTransfers r x"
  obtain tid now where y: "\<not> transaction_exists ?d tid" "ex_written ?y = [(201, posting_body tid a b m)]"
      "w_committed (world_of ?y) = posted t a b m tid now (rq_idempotencyKey r) (fingerprintTransfer a b m) ?d"
    using post_first [OF w r m mv, of key deps] by (auto simp: Let_def)
  have wb: "well_behaved (world_of x)" using w(1) by (rule quiet_well_behaved)
  have mo: "moves (world_of x) (world_of ?y)" by (rule NewRouter_serves(1) [OF reading_production wb])
  then have s: "same_run (world_of x) (world_of ?y)" by (simp add: moves_def)
  have "quiet (world_of ?y)" using quiet_same_run [OF s] w(1) by simp
  moreover have "books (w_committed (world_of ?y))" using books.moved [OF mo] w(2) by simp
  moreover have "presented_tenant demo (world_of ?y) r = Some t"
    using presented_tenant_posted [OF s] y(3) r(2) by simp
  ultimately have "let z = NewRouter (production key demo deps) PostTransfers r ?y in
      ex_written z = [(200, posting_body tid a b m)] \<and> w_committed (world_of z) = w_committed (world_of ?y)"
    using y(1,3) w(2) r m mv(3) by (intro post_again [where ?d0.0 = ?d]) simp_all
  then show ?thesis using y(2,3) by (auto simp: Let_def)
qed

end
