(* ===== verification/Answering.thy ===== *)
theory Answering
  imports HttpPosting Settling
begin

text \<open>
  What an answer with success says of the database it leaves, whatever fails and whoever else is
  served: an accepted posting names the transaction its key is bound to.
\<close>

section \<open>Handlers that decline\<close>

text \<open>A handler that never answers 200 or 201, whatever it calls.\<close>

definition declines :: "handler \<Rightarrow> bool" where
  "declines h \<longleftrightarrow> (\<forall>x. \<exists>s v. s \<noteq> 200 \<and> s \<noteq> 201 \<and> ex_written (h x) = ex_written x @ [(s, v)])"

named_theorems declines_intros

lemma declines_after: "declines h \<Longrightarrow> silent f \<Longrightarrow> declines (\<lambda>x. h (f x))"
  unfolding declines_def silent_def by metis

lemma declines_writeJSON [declines_intros]: "s \<noteq> 200 \<Longrightarrow> s \<noteq> 201 \<Longrightarrow> declines (writeJSON s v)"
  by (simp add: declines_def writeJSON_def)

lemma declines_writeRefusal [declines_intros]: "s \<noteq> 200 \<Longrightarrow> s \<noteq> 201 \<Longrightarrow> declines (writeRefusal s k extra)"
  unfolding writeRefusal_def by (rule declines_after [OF declines_writeJSON]) simp_all

lemma declines_writeInternalError [declines_intros]: "declines writeInternalError"
  unfolding writeInternalError_def by (rule declines_writeJSON) simp_all

lemma declines_writeViolation [declines_intros]: "declines (writeViolation v)"
proof (cases "v_kind v")
qed (unfold writeViolation_def Let_def, simp_all only: ViolationKind.case,
     (rule declines_after [OF declines_writeRefusal] declines_after [OF declines_writeInternalError], simp_all)+)

lemma declines_writeDomainError [declines_intros]: "declines (writeDomainError e)"
  by (cases e) (simp_all add: writeDomainError_def declines_intros)

lemma declines_refusals [declines_intros]:
  "declines malformed" "declines refuseUnidentifiedCaller"
  unfolding malformed_def refuseUnidentifiedCaller_def
  by (rule declines_writeRefusal declines_after [OF declines_writeJSON]; simp)+

lemma declinesD: "declines h \<Longrightarrow> \<exists>s v. s \<noteq> 200 \<and> s \<noteq> 201 \<and> ex_written (h x) = ex_written x @ [(s, v)]"
  by (simp add: declines_def)

lemma declines_calling [declines_intros]:
  assumes "\<And>r. declines (k r)"
  shows "declines (calling m k)"
  unfolding declines_def calling_def
proof (intro allI)
  fix x :: exchange
  show "\<exists>s v. s \<noteq> 200 \<and> s \<noteq> 201 \<and>
      ex_written (case m (ex_coordinator x) of (r, c) \<Rightarrow> k r (x\<lparr>ex_coordinator := c\<rparr>)) = ex_written x @ [(s, v)]"
    using declinesD [OF assms, of "fst (m (ex_coordinator x))" "x\<lparr>ex_coordinator := snd (m (ex_coordinator x))\<rparr>"]
    by (simp add: case_prod_beta)
qed

lemma declines_ledger_call [declines_intros]: "(\<And>r. declines (k r)) \<Longrightarrow> declines (ledger_call m k)"
  unfolding ledger_call_def by (rule declines_calling)

lemma declines_case_sum [declines_intros]:
  "(\<And>x. declines (f x)) \<Longrightarrow> (\<And>x. declines (g x)) \<Longrightarrow> declines (case r of Inl x \<Rightarrow> f x | Inr x \<Rightarrow> g x)"
  by (cases r) auto

lemma declines_case_prod [declines_intros]:
  "(\<And>x y. declines (f x y)) \<Longrightarrow> declines (case p of (x, y) \<Rightarrow> f x y)"
  by (cases p) auto

lemma declines_if [declines_intros]: "declines h \<Longrightarrow> declines k \<Longrightarrow> declines (if c then h else k)"
  by simp

lemma declines_reading_clock [declines_intros]: "(\<And>t. declines (k t)) \<Longrightarrow> declines (reading_clock k)"
  unfolding reading_clock_def by (intro declines_intros)

lemma declines_decoding [declines_intros]: "(\<And>v. declines (k v)) \<Longrightarrow> declines (decoding s strict found k)"
  by (auto simp: decoding_def intro: declines_intros split: option.splits)

lemma declines_reading_amount [declines_intros]: "(\<And>m. declines (k m)) \<Longrightarrow> declines (reading_amount t k)"
  by (auto simp: reading_amount_def intro: declines_intros split: sum.splits amount_error.splits)

lemma declines_then_trigger:
  assumes "declines h"
  shows "declines (\<lambda>x. if b then calling (TriggerForwardLegs i) (\<lambda>_ z. z) (h x) else h x)"
  using assms by (simp add: declines_def calling_def TriggerForwardLegs_def spawn_def)

text \<open>A transfer to a counterparty is accepted, not done.\<close>

lemma declines_sendCrossTenantTransferHandler [declines_intros]:
  "declines (sendCrossTenantTransferHandler r)"
  unfolding sendCrossTenantTransferHandler_def Let_def
  by (intro declines_intros declines_then_trigger; simp)

section \<open>What a success says\<close>

text \<open>From a world that is right, the answer is right for the world it leaves.\<close>

definition answers :: "(world \<Rightarrow> bool) \<Rightarrow> (int \<Rightarrow> json \<Rightarrow> world \<Rightarrow> bool) \<Rightarrow> handler \<Rightarrow> bool" where
  "answers I P h \<longleftrightarrow> (\<forall>x. I (world_of x) \<longrightarrow>
     (\<exists>s v. ex_written (h x) = ex_written x @ [(s, v)] \<and> P s v (world_of (h x))))"

lemma answersD:
  "answers I P h \<Longrightarrow> I (world_of x) \<Longrightarrow>
     \<exists>s v. ex_written (h x) = ex_written x @ [(s, v)] \<and> P s v (world_of (h x))"
  by (simp add: answers_def)

text \<open>
  The contract of a statement about answers: calls that refine the specification keep what it
  starts from, it says nothing of refusals, and a reading of the clock does not matter to it.
\<close>

locale answering =
  fixes I :: "world \<Rightarrow> bool" and P :: "int \<Rightarrow> json \<Rightarrow> world \<Rightarrow> bool"
  assumes kept: "moves w w' \<Longrightarrow> I w \<Longrightarrow> I w'"
    and working: "I w \<Longrightarrow> well_behaved w"
    and lenient: "s \<noteq> 200 \<Longrightarrow> s \<noteq> 201 \<Longrightarrow> P s v w"
    and unread: "P s v w \<Longrightarrow> P s v (w\<lparr>w_reads := n\<rparr>)"
begin

lemma answers_declining: "declines h \<Longrightarrow> answers I P h"
  unfolding answers_def declines_def using lenient by metis

lemma answers_call:
  assumes "refines m"
    and "\<And>x r w. I (world_of x) \<Longrightarrow> m (world_of x) = (r, w) \<Longrightarrow> I w \<Longrightarrow>
      \<exists>s v. ex_written (k r (with_world w x)) = ex_written x @ [(s, v)] \<and> P s v (world_of (k r (with_world w x)))"
  shows "answers I P (ledger_call m k)"
  unfolding answers_def
proof (intro allI impI)
  fix x assume x: "I (world_of x)"
  obtain r w where m: "m (world_of x) = (r, w)" by fastforce
  have "moves (world_of x) w" using refinesD [OF assms(1) working [OF x]] m by simp
  then show "\<exists>s v. ex_written (ledger_call m k x) = ex_written x @ [(s, v)] \<and> P s v (world_of (ledger_call m k x))"
    using assms(2) [OF x m kept [OF _ x]] by (simp add: ledger_call_eq m)
qed

lemma answers_ledger_call: "refines m \<Longrightarrow> (\<And>r. answers I P (k r)) \<Longrightarrow> answers I P (ledger_call m k)"
  by (rule answers_call, assumption) (metis answersD with_world_sel(1,2))

lemma answers_reading_clock: "(\<And>t. answers I P (k t)) \<Longrightarrow> answers I P (reading_clock k)"
  unfolding reading_clock_def by (intro answers_ledger_call) (auto intro: preserve_intros split: sum.splits)

lemma answers_decoding: "(\<And>v. answers I P (k v)) \<Longrightarrow> answers I P (decoding s strict found k)"
  by (auto simp: decoding_def intro: answers_declining declines_intros split: option.splits)

lemma answers_if: "answers I P h \<Longrightarrow> answers I P k \<Longrightarrow> answers I P (if c then h else k)"
  by simp

lemma answers_reading_amount: "(\<And>m. answers I P (k m)) \<Longrightarrow> answers I P (reading_amount t k)"
  by (auto simp: reading_amount_def intro: answers_declining declines_intros split: sum.splits amount_error.splits)

lemma answers_resolving:
  assumes "\<And>h. refines (resolve h)"
    and "\<And>w t w'. I w \<Longrightarrow> resolve (hashBearerToken (w_sha256hex w) token) w = (Inr (Some t), w') \<Longrightarrow> answers I P (k t)"
  shows "answers I P (resolving resolve token k)"
  unfolding answers_def
proof (intro allI impI)
  fix x assume x: "I (world_of x)"
  let ?k = "\<lambda>res. case res of Inr (Some tenantID) \<Rightarrow> k tenantID | _ \<Rightarrow> refuseUnidentifiedCaller"
  obtain res w where run: "resolve (hashBearerToken (sha256hex_of x) token) (world_of x) = (res, w)" by fastforce
  have "moves (world_of x) w" using refinesD [OF assms(1) working [OF x]] run by (metis snd_conv)
  then have w: "I (world_of (with_world w x))" using kept x by simp
  have "answers I P (?k res)"
    using assms(2) [OF x] run
    by (auto intro: answers_declining declines_intros split: sum.splits option.splits)
  then show "\<exists>s v. ex_written (resolving resolve token k x) = ex_written x @ [(s, v)] \<and>
      P s v (world_of (resolving resolve token k x))"
    using answersD [of I P "?k res" "with_world w x"] w by (simp add: resolving_def ledger_call_eq run)
qed

lemma answers_requireTenantKey:
  "(\<And>h. refines (resolve h)) \<Longrightarrow>
     (\<And>w t w'. I w \<Longrightarrow> resolve (hashBearerToken (w_sha256hex w) (fst (bearerToken r))) w = (Inr (Some t), w') \<Longrightarrow>
        answers I P (next_handler (withTenantScope (ScopedToTenant t) r))) \<Longrightarrow>
     answers I P (requireTenantKey resolve next_handler r)"
  unfolding requireTenantKey_def
  by (auto intro: answers_resolving answers_declining declines_intros split: prod.splits)

lemma answers_NewRouter:
  assumes "\<And>r'. rq_idempotencyKey r' = rq_idempotencyKey r \<Longrightarrow> rq_authorization r' = rq_authorization r \<Longrightarrow>
      rq_urlParam r' = rq_urlParam r \<Longrightarrow> answers I P (route deps e r')"
    and "I (world_of x)"
  shows "\<exists>s v. ex_written (NewRouter deps e r x) = [(s, v)] \<and> P s v (world_of (NewRouter deps e r x))"
proof -
  have "I (world_of (arriving x))"
    unfolding arriving_world by (rule kept [OF moves_read assms(2)])
  then obtain s v where "ex_written (route deps e (r\<lparr>rq_scope := None\<rparr>) (arriving x)) = [(s, v)]"
      "P s v (world_of (route deps e (r\<lparr>rq_scope := None\<rparr>) (arriving x)))"
    using answersD [OF assms(1), of "r\<lparr>rq_scope := None\<rparr>" "arriving x"] by (auto simp: arriving_world(2))
  then show ?thesis
    unfolding NewRouter_run using unread by (simp add: logged_def later_def)
qed

text \<open>A posting: the answers of the use case are the handler's.\<close>

lemma answers_posting:
  assumes "\<And>cmd w res w'. req_IdempotencyKey cmd = rq_idempotencyKey r \<Longrightarrow> I w \<Longrightarrow>
      PostTransfer cmd w = (Inr res, w') \<Longrightarrow> P (if res_Replayed res then 200 else 201) (transferAnswer res) w'"
  shows "answers I P (postTransferHandler r)"
proof -
  have call: "answers I P (ledger_call (PostTransfer cmd) (\<lambda>res. case res of
       Inl e \<Rightarrow> if e = ErrIdempotencyKeyConflict then writeRefusal 409 ''idempotency_key_conflict'' []
         else reading_clock (\<lambda>now x. writeDomainError e (recordPostingFailure e (now - started) x))
     | Inr result \<Rightarrow> reading_clock (\<lambda>now. recordPostingSuccess result (now - started) (\<lambda>status x.
         writeJSON status (transferAnswer result)
           (recordTransferLogFields a b m (rq_idempotencyKey r) result x)))))"
    if "req_IdempotencyKey cmd = rq_idempotencyKey r" for cmd started a b m
  proof (rule answers_call [OF refines_PostTransfer])
    fix x res w
    let ?k = "\<lambda>res. case res of
       Inl e \<Rightarrow> if e = ErrIdempotencyKeyConflict then writeRefusal 409 ''idempotency_key_conflict'' []
         else reading_clock (\<lambda>now x. writeDomainError e (recordPostingFailure e (now - started) x))
     | Inr result \<Rightarrow> reading_clock (\<lambda>now. recordPostingSuccess result (now - started) (\<lambda>status x.
         writeJSON status (transferAnswer result)
           (recordTransferLogFields a b m (rq_idempotencyKey r) result x)))"
    assume x: "I (world_of x)" and run: "PostTransfer cmd (world_of x) = (res, w)" and w: "I w"
    have y: "I (world_of (with_world w x))" using w by simp
    show "\<exists>s v. ex_written (?k res (with_world w x)) = ex_written x @ [(s, v)] \<and>
        P s v (world_of (?k res (with_world w x)))"
    proof (cases res)
      case (Inl e)
      have "declines (\<lambda>x. writeDomainError e (recordPostingFailure e d x))" for d
        by (rule declines_after [OF declines_writeDomainError]) simp
      then have "answers I P (?k (Inl e))"
        by (auto intro!: answers_declining declines_intros)
      then show ?thesis using answersD [of I P "?k (Inl e)" "with_world w x"] y Inl by simp
    next
      case (Inr result)
      then have "P (if res_Replayed result then 200 else 201) (transferAnswer result) w"
        using assms [OF that x] run by simp
      then show ?thesis
        using Inr unread
        by (simp add: reading_clock_run recordPostingSuccess_def Let_def writeJSON_def recordTransferLogFields_def
            set_field_def with_metrics_def later_def with_world_def)
    qed
  qed
  show ?thesis
    unfolding postTransferHandler_def Let_def
    by (intro answers_reading_clock answers_if answers_decoding answers_reading_amount call;
        (rule answers_declining, intro declines_intros)?; simp)
qed

lemma answers_postTransfers:
  fixes key demo deps
  assumes "\<And>cmd w res w'. req_IdempotencyKey cmd = rq_idempotencyKey r \<Longrightarrow> I w \<Longrightarrow>
      PostTransfer cmd w = (Inr res, w') \<Longrightarrow> P (if res_Replayed res then 200 else 201) (transferAnswer res) w'"
    and "I (world_of x)"
  defines "y \<equiv> NewRouter (production key demo deps) PostTransfers r x"
  shows "\<exists>s v. ex_written y = [(s, v)] \<and> P s v (world_of y)"
  unfolding y_def
proof (rule answers_NewRouter [OF _ assms(2)])
  fix r' :: http_request assume r': "rq_idempotencyKey r' = rq_idempotencyKey r"
  have "answers I P (postTransferOrCrossTenantHandler (withTenantScope s r'))" for s
  proof -
    have "answers I P (postTransferHandler (withTenantScope s r'))"
      using r' by (intro answers_posting assms(1)) (simp_all add: withTenantScope_def)
    then show ?thesis
      by (auto simp: postTransferOrCrossTenantHandler_def Let_def intro: answers_declining declines_intros)
  qed
  then show "answers I P (route (production key demo deps) PostTransfers r')"
    using reading_production [of key demo deps]
    by (auto simp: reading_resolver_def intro: answers_requireTenantKey)
qed

text \<open>A balance.\<close>

lemma answers_getBalance:
  assumes "\<And>w a w'. I w \<Longrightarrow> GetBalance (caller_tenant r) (rq_urlParam r ''id'') w = (Inr a, w') \<Longrightarrow>
      P 200 (JObj [(''account_id'', JStr (acct_id a)), (''type'', JStr (kind_text (acct_kind a))),
        (''balance'', JStr (formatMoney (acct_balance a)))]) w'"
  shows "answers I P (getBalanceHandler r)"
  unfolding getBalanceHandler_def
proof (rule answers_call [OF refines_GetBalance])
  fix x res w
  assume x: "I (world_of x)" and run: "GetBalance (caller_tenant r) (rq_urlParam r ''id'') (world_of x) = (res, w)"
    and w: "I w"
  let ?k = "\<lambda>res. case res of Inl e \<Rightarrow> writeDomainError e
     | Inr account \<Rightarrow> writeJSON 200 (JObj
         [(''account_id'', JStr (acct_id account)), (''type'', JStr (kind_text (acct_kind account))),
          (''balance'', JStr (formatMoney (acct_balance account)))])"
  show "\<exists>s v. ex_written (?k res (with_world w x)) = ex_written x @ [(s, v)] \<and>
      P s v (world_of (?k res (with_world w x)))"
  proof (cases res)
    case (Inl e)
    then show ?thesis
      using answersD [OF answers_declining [OF declines_writeDomainError], of "with_world w x" e] w by simp
  next
    case (Inr a)
    then show ?thesis using assms [OF x] run by (simp add: writeJSON_def with_world_def)
  qed
qed

end

section \<open>A key names one transaction\<close>

text \<open>A posting that is answered has its key bound to the transaction it names, from then on.\<close>

lemma first_write_bound:
  "first_write cmd tid now d d' \<Longrightarrow>
     \<exists>c. db_key d' (req_IdempotencyKey cmd) = Some c \<and> kr_transaction c = tid"
  by (auto simp: first_write_def posted_key)

lemma PostTransfer_bound:
  assumes "well_behaved w" and run: "PostTransfer cmd w = (Inr res, w')"
  shows "\<exists>c. db_key (w_committed w') (req_IdempotencyKey cmd) = Some c \<and>
    kr_transaction c = txn_id (p_Transaction (res_Posting res))"
proof (cases "res_Replayed res")
  case True
  then obtain u v c where u: "since w u" "since u w'"
      "since w v" "db_key (w_committed v) (req_IdempotencyKey cmd) = Some c"
      "posting_read v (req_TenantID cmd) (kr_transaction c) (res_Posting res) u"
    using PostTransfer_outcome [OF run] by (auto simp: outcome_def replay_of_def)
  then have "since v u" by (auto simp: posting_read_def intro: since_trans)
  then have "since v w'" using u(2) since_trans by blast
  moreover have "well_behaved v" using assms(1) u(3) since_well_behaved by blast
  ultimately have "db_key (w_committed w') (req_IdempotencyKey cmd) = Some c"
    using u(4) since_keeps_key by blast
  then show ?thesis using u(5) by (auto simp: posting_read_def)
next
  case False
  then show ?thesis
    using PostTransfer_outcome [OF run] first_write_bound
    by (fastforce simp: outcome_def posting_of_def)
qed

text \<open>What a client reads of a member: of several of one name the last.\<close>

definition member_of :: "json \<Rightarrow> string \<rightharpoonup> json" where
  "member_of v = map_of (rev (members_of v))"

text \<open>What an accepted posting says, of the state it leaves or of the claim it has met.\<close>

definition names_transaction_of :: "string \<Rightarrow> json \<Rightarrow> bool" where
  "names_transaction_of tid v \<longleftrightarrow> member_of v ''transaction_id'' = Some (JStr tid)"

lemma transferAnswer_names: "names_transaction_of (txn_id (p_Transaction (res_Posting res))) (transferAnswer res)"
  by (simp add: names_transaction_of_def member_of_def members_of_def transferAnswer_def)

lemma names_one_transaction: "names_transaction_of a v \<Longrightarrow> names_transaction_of b v \<Longrightarrow> a = b"
  by (auto simp: names_transaction_of_def)

definition names_bound :: "string \<Rightarrow> int \<Rightarrow> json \<Rightarrow> world \<Rightarrow> bool" where
  "names_bound k s v w \<longleftrightarrow> (s = 200 \<or> s = 201 \<longrightarrow>
     (\<exists>c. db_key (w_committed w) k = Some c \<and> names_transaction_of (kr_transaction c) v))"

definition names_claimed :: "key_row \<Rightarrow> int \<Rightarrow> json \<Rightarrow> world \<Rightarrow> bool" where
  "names_claimed c s v w \<longleftrightarrow> (s = 200 \<or> s = 201 \<longrightarrow> s = 200 \<and> names_transaction_of (kr_transaction c) v)"

definition key_claimed :: "string \<Rightarrow> key_row \<Rightarrow> world \<Rightarrow> bool" where
  "key_claimed k c w \<longleftrightarrow> well_behaved w \<and> db_key (w_committed w) k = Some c"

lemma key_claimed_moved: "moves w w' \<Longrightarrow> key_claimed k c w \<Longrightarrow> key_claimed k c w'"
  using history.moved [of w w'] same_run_well_behaved [of w w'] extends_db_key
  by (auto simp: key_claimed_def moves_def)

lemma moves_well_behaved: "moves w w' \<Longrightarrow> well_behaved w \<Longrightarrow> well_behaved w'"
  using same_run_well_behaved by (auto simp: moves_def)

interpretation bound: answering well_behaved "names_bound k" for k
  by unfold_locales (auto simp: names_bound_def intro: moves_well_behaved)

interpretation claimed: answering "key_claimed k c" "names_claimed c" for k c
  by unfold_locales (fact key_claimed_moved, simp_all add: names_claimed_def key_claimed_def)

lemma posting_bound:
  fixes key demo deps r
  assumes "well_behaved (world_of x)"
  defines "y \<equiv> NewRouter (production key demo deps) PostTransfers r x"
  shows "\<exists>s v. ex_written y = [(s, v)] \<and> names_bound (rq_idempotencyKey r) s v (world_of y)"
  unfolding y_def
proof (rule bound.answers_postTransfers [OF _ assms(1)])
  fix cmd :: TransferRequest and w res w'
  assume "req_IdempotencyKey cmd = rq_idempotencyKey r" "well_behaved w" "PostTransfer cmd w = (Inr res, w')"
  then show "names_bound (rq_idempotencyKey r) (if res_Replayed res then 200 else 201) (transferAnswer res) w'"
    using PostTransfer_bound [of w cmd res w'] transferAnswer_names [of res] by (auto simp: names_bound_def)
qed

lemma posting_claimed:
  fixes key demo deps r
  assumes "key_claimed (rq_idempotencyKey r) c (world_of x)"
  defines "y \<equiv> NewRouter (production key demo deps) PostTransfers r x"
  shows "\<exists>s v. ex_written y = [(s, v)] \<and> names_claimed c s v (world_of y)"
  unfolding y_def
proof (rule claimed.answers_postTransfers [OF _ assms(1)])
  fix cmd :: TransferRequest and w res w'
  assume "req_IdempotencyKey cmd = rq_idempotencyKey r" "key_claimed (rq_idempotencyKey r) c w"
    "PostTransfer cmd w = (Inr res, w')"
  then show "names_claimed c (if res_Replayed res then 200 else 201) (transferAnswer res) w'"
    using claimed_key_replayed [of w cmd c res w'] transferAnswer_names [of res]
    by (auto simp: names_claimed_def key_claimed_def)
qed

end
