(* ===== verification/Stranded.thy ===== *)
theory Stranded
  imports HttpProps
begin

text \<open>
  Who drives a transfer: only the goroutines that were started for it and the retry ticker, and
  the ticker runs on the test-only route alone. Whatever a production process serves after a
  restart, the row of a transfer that was under way stays as it is.
\<close>

named_theorems watch_intros \<open>rules that a call keeps an invariant of its state\<close>

section \<open>Calls that keep an invariant of their state\<close>

definition keeps :: "('s \<Rightarrow> bool) \<Rightarrow> ('a, 's) call \<Rightarrow> ('a \<Rightarrow> bool) \<Rightarrow> bool" where
  "keeps G m Q \<longleftrightarrow> (\<forall>s. G s \<longrightarrow> G (snd (m s)) \<and> (\<forall>v. fst (m s) = Inr v \<longrightarrow> Q v))"

abbreviation always :: "'a \<Rightarrow> bool" where
  "always \<equiv> \<lambda>_. True"

lemma keepsD: "keeps G m Q \<Longrightarrow> G s \<Longrightarrow> m s = (r, s') \<Longrightarrow> G s' \<and> (\<forall>v. r = Inr v \<longrightarrow> Q v)"
  by (force simp: keeps_def)

lemma keeps_state: "keeps G m Q \<Longrightarrow> G s \<Longrightarrow> G (snd (m s)) \<and> (\<forall>v. fst (m s) = Inr v \<longrightarrow> Q v)"
  unfolding keeps_def by (drule spec, drule mp)

lemma keeps_bindE_with:
  assumes "keeps G m P" and "\<And>v. P v \<Longrightarrow> keeps G (f v) Q"
  shows "keeps G (bindE m f) Q"
  unfolding keeps_def
proof (intro allI impI)
  fix s assume s: "G s"
  obtain r u where u: "m s = (r, u)" by (cases "m s")
  have g: "G u \<and> (\<forall>v. r = Inr v \<longrightarrow> P v)" by (rule keepsD [OF assms(1) s u])
  then show "G (snd (bindE m f s)) \<and> (\<forall>v. fst (bindE m f s) = Inr v \<longrightarrow> Q v)"
  proof (cases r)
    case (Inl e)
    then show ?thesis using u g by (simp add: bindE_def)
  next
    case (Inr v)
    then have "keeps G (f v) Q" using g by (intro assms(2)) simp
    moreover have "G u" using g by (rule conjunct1)
    ultimately have "G (snd (f v u)) \<and> (\<forall>x. fst (f v u) = Inr x \<longrightarrow> Q x)" by (rule keeps_state)
    then show ?thesis using Inr u by (simp add: bindE_def)
  qed
qed

lemma keeps_weaken: "keeps G m P \<Longrightarrow> keeps G m always"
  by (simp add: keeps_def)

lemma keeps_bindE [watch_intros]:
  "keeps G m always \<Longrightarrow> (\<And>v. keeps G (f v) Q) \<Longrightarrow> keeps G (bindE m f) Q"
  by (rule keeps_bindE_with)

lemma keeps_ret: "Q v \<Longrightarrow> keeps G (ret v) Q"
  by (simp add: keeps_def ret_def)

lemma keeps_values [watch_intros]:
  "keeps G (ret v) always" "keeps G (Pair (Inr v)) always" "keeps G (throw e) Q" "keeps G (decide r) always"
  by (simp_all add: keeps_def ret_def throw_def decide_def split: sum.splits)

lemma keeps_case_option [watch_intros]:
  "keeps G m Q \<Longrightarrow> (\<And>x. keeps G (f x) Q) \<Longrightarrow> keeps G (case r of None \<Rightarrow> m | Some x \<Rightarrow> f x) Q"
  by (cases r) auto

lemma keeps_case_sum [watch_intros]:
  "(\<And>x. keeps G (f x) Q) \<Longrightarrow> (\<And>x. keeps G (g x) Q) \<Longrightarrow> keeps G (case r of Inl x \<Rightarrow> f x | Inr x \<Rightarrow> g x) Q"
  by (cases r) auto

lemma keeps_case_prod [watch_intros]:
  "(\<And>x y. keeps G (f x y) Q) \<Longrightarrow> keeps G (case p of (x, y) \<Rightarrow> f x y) Q"
  by (cases p) auto

lemma keeps_if [watch_intros]:
  "(c \<Longrightarrow> keeps G m Q) \<Longrightarrow> (\<not> c \<Longrightarrow> keeps G n Q) \<Longrightarrow> keeps G (if c then m else n) Q"
  by simp

lemma keeps_attempt [watch_intros]: "keeps G m always \<Longrightarrow> keeps G (attempt m) always"
  by (force simp: keeps_def attempt_def split: prod.splits)

lemma keeps_forE [watch_intros]: "(\<And>x. keeps G (f x) always) \<Longrightarrow> keeps G (forE xs f) always"
  by (induction xs) (auto intro!: watch_intros)

section \<open>Units of work\<close>

text \<open>The committed database and the view of a unit of work satisfy \<open>I\<close>, and others keep it.\<close>

definition holds :: "(db \<Rightarrow> bool) \<Rightarrow> world \<Rightarrow> bool" where
  "holds I w \<longleftrightarrow> I (w_committed w) \<and> I (w_db w) \<and> (\<forall>n d. I d \<longrightarrow> I (w_env w n d))"

lemma holds_turn: "holds I w \<Longrightarrow> holds I (turn w)"
  by (simp add: holds_def turn_def Let_def)

lemma keeps_statement:
  assumes "keeps (holds I) m Q"
  shows "keeps (holds I) (statement m) Q"
  unfolding keeps_def
proof (intro allI impI)
  fix w assume "holds I w"
  then have "holds I ((turn w)\<lparr>w_ops := Suc (w_ops w)\<rparr>)" using holds_turn by (simp add: holds_def)
  then show "holds I (snd (statement m w)) \<and> (\<forall>v. fst (statement m w) = Inr v \<longrightarrow> Q v)"
    using assms by (simp add: keeps_def statement_def Let_def)
qed

lemma keeps_query [watch_intros]: "keeps (holds I) (query f) always"
  unfolding query_def by (rule keeps_statement) (simp add: keeps_def)

lemma keeps_sorted_query [watch_intros]: "keeps (holds I) (sorted_query f) always"
  using keeps_query by (force simp: keeps_def sorted_query_def)

lemma keeps_select_for_update [watch_intros]: "keeps (holds I) (select_for_update k f) always"
  unfolding select_for_update_def
  by (rule keeps_statement) (simp add: keeps_def holds_def split: option.splits)

lemma keeps_command:
  assumes "\<And>d v d'. f d = Inr (v, d') \<Longrightarrow> I d \<Longrightarrow> I d' \<and> Q v"
  shows "keeps (holds I) (command f) Q"
  unfolding command_def
proof (rule keeps_statement)
  show "keeps (holds I) (\<lambda>w. case f (w_db w) of
       Inl e \<Rightarrow> (Inl e, w)
     | Inr (x, d) \<Rightarrow> (Inr x, w\<lparr>w_db := d, w_dirty := True\<rparr>)) Q"
    using assms by (fastforce simp: keeps_def holds_def split: sum.splits prod.splits)
qed

lemma keeps_clock [watch_intros]: "keeps (holds I) clock always"
  and keeps_nextID [watch_intros]: "keeps (holds I) nextID always"
  and keeps_Begin [watch_intros]: "keeps (holds I) Begin always"
  and keeps_Commit: "keeps (holds I) Commit always"
  by (simp_all add: keeps_def holds_def clock_def nextID_def Begin_def Commit_def Let_def split: fault.splits)

lemma holds_Rollback: "holds I w \<Longrightarrow> holds I (Rollback w)"
  by (simp add: holds_def Rollback_def)

lemma keeps_withUnitOfWork [watch_intros]:
  assumes "keeps (holds I) fn Q"
  shows "keeps (holds I) (withUnitOfWork fn) Q"
  unfolding withUnitOfWork_def
proof (rule keeps_bindE [OF keeps_Begin], unfold keeps_def, intro allI impI)
  fix u :: unit and w assume w: "holds I w"
  let ?run = "case fn w of (Inl e, w') \<Rightarrow> (Inl e, Rollback w')
     | (Inr x, w') \<Rightarrow> (case Commit w' of (Inl e, w'') \<Rightarrow> (Inl e, Rollback w'') | (Inr _, w'') \<Rightarrow> (Inr x, w''))"
  obtain r v where v: "fn w = (r, v)" by (cases "fn w")
  obtain c z where z: "Commit v = (c, z)" by (cases "Commit v")
  have hv: "holds I v \<and> (\<forall>x. r = Inr x \<longrightarrow> Q x)" by (rule keepsD [OF assms w v])
  then have "holds I z" using keepsD [OF keeps_Commit _ z] by simp
  then show "holds I (snd ?run) \<and> (\<forall>x. fst ?run = Inr x \<longrightarrow> Q x)"
    using hv v z holds_Rollback [of I v] holds_Rollback [of I z] by (cases r; cases c) simp_all
qed

lemma keeps_read_only [watch_intros]:
  assumes "keeps (holds I) m always"
  shows "keeps (holds I) (read_only m) always"
  unfolding read_only_def
proof (rule keeps_bindE [OF keeps_Begin], unfold keeps_def, intro allI impI)
  fix u :: unit and w assume "holds I w"
  then have "holds I (Rollback (snd (m w)))" using assms holds_Rollback by (simp add: keeps_def)
  then show "holds I (snd (case m w of (r, w') \<Rightarrow> (r, Rollback w'))) \<and>
      (\<forall>v. fst (case m w of (r, w') \<Rightarrow> (r, Rollback w')) = Inr v \<longrightarrow> True)"
    by (cases "m w") simp
qed

section \<open>Reading\<close>

lemma keeps_lock_loop: "keeps (holds I) (lock_loop t ids) always"
  unfolding lockOne_def by (induction ids) (auto simp: lockOne_def intro!: watch_intros)

lemma keeps_trial_loop: "keeps (holds I) (trial_loop rows s n c b) always"
  by (induction rows s n c b rule: trial_loop.induct) (auto intro!: watch_intros)

lemma keeps_computed_loop: "keeps (holds I) (computed_loop rows m) always"
proof (induction rows m rule: computed_loop.induct)
  case (2 u a c s n rows m)
  then show ?case unfolding computed_loop.simps by (intro watch_intros) blast
qed (auto intro: watch_intros)

lemma keeps_reads [watch_intros]:
  "keeps (holds I) (accounts_Get t a) always" "keeps (holds I) (accounts_All scope) always"
  "keeps (holds I) (ExistsAnyTenant a) always" "keeps (holds I) (LockForUpdate t ids) always"
  "keeps (holds I) (transactions_Get t x) always" "keeps (holds I) (EntriesFor scope a) always"
  "keeps (holds I) (TrialBalance scope) always" "keeps (holds I) (ComputedBalances scope) always"
  "keeps (holds I) (idempotency_Lookup k) always" "keeps (holds I) (tenants_ByName n) always"
  "keeps (holds I) (tenants_ByID t) always" "keeps (holds I) (links_ActiveByPair t u) always"
  "keeps (holds I) (links_ByID l) always" "keeps (holds I) (aliases_ByTenantAndAlias t n) always"
  "keeps (holds I) (transfers_Get x) always" "keeps (holds I) (ByTenantAndIdempotencyKey t k) always"
  "keeps (holds I) (transferStateIsDue s) always"
  unfolding accounts_Get_def accounts_All_def ExistsAnyTenant_def LockForUpdate_def transactions_Get_def
    entriesForTransaction_def EntriesFor_def TrialBalance_def ComputedBalances_def idempotency_Lookup_def
    tenants_ByName_def tenants_ByID_def links_ActiveByPair_def links_ByID_def aliases_ByTenantAndAlias_def
    transfers_Get_def ByTenantAndIdempotencyKey_def scan_found_def transferStateIsDue_def
  by (intro watch_intros keeps_lock_loop keeps_trial_loop keeps_computed_loop)+

lemma keeps_provisionedTenants [watch_intros]: "keeps (holds I) (provisionedTenants ts) always"
  by (induction ts) (auto intro!: watch_intros)

lemma keeps_read_cases [watch_intros]:
  "keeps (holds I) (GetBalance t a) always" "keeps (holds I) (GetEntries scope a) always"
  "keeps (holds I) (VerifyBooks scope) always" "keeps (holds I) (GetTransfer x) always"
  "keeps (holds I) (walletAccountID t) always" "keeps (holds I) (existingTransfer t k) always"
  "keeps (holds I) (legPostedStatus k) always"
  unfolding GetBalance_def GetEntries_def VerifyBooks_def verify_body_def GetTransfer_def walletAccountID_def
    existingTransfer_def leg1DisplayStatus_def leg2DisplayStatus_def legPostedStatus_def
  by (intro watch_intros)+

text \<open>The transfer a goroutine works on.\<close>

fun task_transfer :: "task \<Rightarrow> string" where
  "task_transfer (ForwardLegsFrom x n) = x"
| "task_transfer (RetryLeg1Reversal x s) = x"
| "task_transfer (RetryLeg2ThenLeg1 x s b) = x"

definition unattended :: "string \<Rightarrow> coordinator \<Rightarrow> bool" where
  "unattended i c \<longleftrightarrow> (\<forall>p \<in> set (co_spawned c). task_transfer (snd p) \<noteq> i)"

section \<open>A row that only its own claims touch\<close>

text \<open>
  An invariant of the database that speaks of the transfer \<open>i\<close> alone: other tables do not
  matter to it, a transfer that is created is another one, and so is one that is advanced.
\<close>

locale watched_transfer =
  fixes i :: string and I :: "db \<Rightarrow> bool"
  assumes other_tables: "transfer_states d' = transfer_states d \<Longrightarrow> I d \<Longrightarrow> I d'"
    and other_created: "insert_transfer r d = Inr ((), d') \<Longrightarrow> I d \<Longrightarrow> I d' \<and> xr_id r \<noteq> i"
    and other_advanced: "(\<And>r. xr_id (f r) = xr_id r) \<Longrightarrow> y \<noteq> i \<Longrightarrow> I d \<Longrightarrow>
      I (d\<lparr>transfer_states := map (\<lambda>r. if xr_id r = y then f r else r) (transfer_states d)\<rparr>)"
begin

lemma keeps_other_command:
  assumes "\<And>d v d'. f d = Inr (v, d') \<Longrightarrow> transfer_states d' = transfer_states d"
  shows "keeps (holds I) (command f) always"
  by (rule keeps_command) (use assms other_tables in blast)

lemma keeps_advance_command:
  "y \<noteq> i \<Longrightarrow> (\<And>r. xr_id (f r) = xr_id r) \<Longrightarrow> keeps (holds I) (command (update_transfer y f)) always"
  by (rule keeps_command) (auto simp: update_transfer_def intro: other_advanced)

lemma keeps_create: "keeps (holds I) (transfers_Create s) (\<lambda>_. ts_TransferID s \<noteq> i)"
  unfolding transfers_Create_def
proof (rule keeps_command)
  fix d v d' assume c: "insert_transfer (transfer_to_row s) d = Inr (v, d')" and "I d"
  then have "I d' \<and> xr_id (transfer_to_row s) \<noteq> i" by (intro other_created) simp_all
  then show "I d' \<and> ts_TransferID s \<noteq> i" by (simp add: transfer_to_row_def)
qed

text \<open>The repositories.\<close>

lemma keeps_writes [watch_intros]:
  "keeps (holds I) (accounts_Create t a) always"
  "keeps (holds I) (tenants_Create x) always"
  "keeps (holds I) (links_Create l) always"
  "keeps (holds I) (aliases_Create c) always"
  "keeps (holds I) (links_Revoke x') always"
  "keeps (holds I) (idempotency_Claim k fp tid) always"
  "keeps (holds I) (ApplyDeltas t ds) always"
  "keeps (holds I) (Append t p) always"
proof -
  show "keeps (holds I) (tenants_Create x) always"
    using keeps_other_command [of "insert_tenant r" for r]
    by (fastforce simp: keeps_def tenants_Create_def inserted)
  show "keeps (holds I) (links_Revoke x') always" unfolding links_Revoke_def
    by (rule keeps_bindE [OF keeps_other_command]) (auto intro: watch_intros)
  show "keeps (holds I) (idempotency_Claim k fp tid) always" unfolding idempotency_Claim_def
    by (rule keeps_bindE [OF keeps_other_command])
       (auto simp: insert_key_def violates_def intro: watch_intros split: if_splits)
  show "keeps (holds I) (ApplyDeltas t ds) always" unfolding ApplyDeltas_def
    by (intro keeps_forE keeps_bindE keeps_other_command)
       (auto simp: update_balance_def Let_def intro: watch_intros split: if_splits)
  show "keeps (holds I) (Append t p) always" unfolding Append_def
    by (intro keeps_forE keeps_bindE keeps_other_command)
       (auto simp: insert_transaction_def insert_entry_def violates_def split: if_splits)
qed (unfold accounts_Create_def links_Create_def aliases_Create_def,
     (rule keeps_other_command, auto simp: inserted)+)

text \<open>The use cases.\<close>

lemma keeps_use_cases [watch_intros]:
  "keeps (holds I) (CreateAccount t a k) always" "keeps (holds I) (ProvisionTenant n) always"
  "keeps (holds I) (AuthorizeTenantPair t u) always" "keeps (holds I) (RevokeTenantLink l) always"
  "keeps (holds I) (RegisterCounterpartyAlias t n u a) always"
  "keeps (holds I) (prepareTransfer t n) always"
  unfolding CreateAccount_def accountAlreadyOpen_def ProvisionTenant_def tenantNameAlreadyTaken_def
    AuthorizeTenantPair_def activeLinkSnapshot_def RevokeTenantLink_def tenantLinkSnapshot_def
    RegisterCounterpartyAlias_def prepareTransfer_def linkSnapshotFor_def ensureSettlementAccount_def
    ensurePlatformMirrorAccount_def ensureAccount_def Let_def
  by (intro watch_intros)+

lemma keeps_post_body: "keeps (holds I) (post_body cmd) always"
  unfolding post_body_def by (intro watch_intros)

lemma keeps_PostTransfer_loop:
  assumes "PostTransfer_loop cmd w = Some r"
  shows "holds I w \<longrightarrow> holds I (snd r)"
proof -
  have body: "keeps (holds I) (withUnitOfWork (post_body cmd)) always" for cmd
    by (intro watch_intros keeps_post_body)
  have unit: "holds I (snd (withUnitOfWork (post_body cmd) w))" if "holds I w" for cmd w
    using keeps_state [OF body that] by (rule conjunct1)
  show ?thesis
    by (rule PostTransfer_loop_induct [OF _ _ assms, of "\<lambda>cmd w r. holds I w \<longrightarrow> holds I (snd r)"])
       (use unit in auto)
qed

lemma keeps_PostTransfer [watch_intros]: "keeps (holds I) (PostTransfer cmd) always"
  using keeps_PostTransfer_loop by (force simp: keeps_def PostTransfer_def split: option.splits)

text \<open>A transfer that \<open>SendTransfer\<close> creates is another one.\<close>

lemma keeps_SendTransfer:
  "keeps (holds I) (SendTransfer t n m k fp) (\<lambda>(view, created). created \<longrightarrow> view_TransferID view \<noteq> i)"
proof -
  have create: "keeps (holds I) (createTransferState s) (\<lambda>_. ts_TransferID s \<noteq> i)" for s
    unfolding createTransferState_def by (intro keeps_withUnitOfWork keeps_create)
  let ?Q = "\<lambda>(view, created). created \<longrightarrow> view_TransferID view \<noteq> i"
  have last: "keeps (holds I) (bindE (createTransferState (newTransferState x t k now c m)) (\<lambda>_.
      ret (leg1_view x legPending, True))) ?Q" for x now c
    by (rule keeps_bindE_with [OF create]) (simp add: keeps_ret leg1_view_def newTransferState_def)
  have found: "keeps (holds I) (ret (leg1_view x s, False)) ?Q" for x s
    by (simp add: keeps_ret)
  show ?thesis unfolding SendTransfer_def
    by (rule keeps_bindE [OF keeps_read_cases(6)], rule keeps_case_option,
        rule keeps_bindE [OF keeps_use_cases(6)], rule keeps_bindE [OF keeps_read_cases(5)],
        rule keeps_bindE [OF keeps_PostTransfer], rule keeps_bindE [OF keeps_nextID],
        rule keeps_bindE [OF keeps_clock], rule last, rule found)
qed

section \<open>The goroutines of other transfers\<close>

lemma keeps_claimTransfer [watch_intros]:
  assumes "y \<noteq> i"
  shows "keeps (holds I) (claimTransfer y) always"
proof -
  have one: "keeps (holds I) (ClaimOne y claimLeaseDuration) always"
    unfolding ClaimOne_def scan_found_def Let_def
    by (intro watch_intros keeps_advance_command [OF assms]) simp
  have "keeps (holds I) (bindE (ClaimOne y claimLeaseDuration) (\<lambda>r. case r of
        None \<Rightarrow> throw ErrTransferNotFound | Some s \<Rightarrow> ret s)) always"
    by (intro watch_intros one)
  then have "keeps (holds I) (withUnitOfWork (bindE (ClaimOne y claimLeaseDuration) (\<lambda>r. case r of
        None \<Rightarrow> throw ErrTransferNotFound | Some s \<Rightarrow> ret s))) always"
    by (rule keeps_withUnitOfWork)
  then show ?thesis unfolding keeps_def claimTransfer_world by simp
qed

lemma keeps_advance [watch_intros]:
  "y \<noteq> i \<Longrightarrow> keeps (holds I) (advanceAfterLegOutcome y s t reason) always"
  "y \<noteq> i \<Longrightarrow> keeps (holds I) (recordLegSuccess y n) always"
  unfolding recordLegSuccess_def advanceAfterLegOutcome_def AdvanceAfterLegOutcome_def
  by (intro watch_intros keeps_advance_command; simp)+

definition good :: "coordinator \<Rightarrow> bool" where
  "good c \<longleftrightarrow> holds I (co_world c) \<and> unattended i c"

lemma keeps_on_ledger [watch_intros]: "keeps (holds I) m Q \<Longrightarrow> keeps good (on_ledger m) Q"
  by (force simp: keeps_def on_ledger_def good_def unattended_def split: prod.splits)

lemma keeps_spawn [watch_intros]: "task_transfer t \<noteq> i \<Longrightarrow> keeps good (spawn d t) always"
  by (auto simp: keeps_def spawn_def good_def unattended_def)

lemma keeps_memory [watch_intros]:
  "keeps good (record_failure k) always" "keeps good rand_Float64 always" "keeps good (consumeFault k) always"
  "keeps good (consumeForwardCrashSimulation x) always" "keeps good (consumeReversalCrashSimulation x) always"
  "keeps good onReversalFailed always"
  by (simp_all add: keeps_def good_def unattended_def record_failure_def rand_Float64_def consumeFault_def
      consumeForwardCrashSimulation_def consumeReversalCrashSimulation_def onReversalFailed_def Let_def)

lemma keeps_advance_now: "y \<noteq> i \<Longrightarrow> keeps good (advance_now y s reason) always"
  unfolding advance_now_def by (intro watch_intros)

lemma keeps_handleReversalFailure:
  assumes "y \<noteq> i" and "task_transfer t = y"
  shows "keeps good (handleReversalFailure y n e reason t) always"
  unfolding handleReversalFailure_def markReversalFailed_def scheduleReversalRetry_def
    recordFailedReversalAttempt_def
  by (intro watch_intros keeps_advance_now assms) (simp add: assms)

lemma keeps_attemptLeg1Reversal:
  assumes "y \<noteq> i"
  shows "keeps good (attemptLeg1Reversal y s) always"
  unfolding attemptLeg1Reversal_def postLeg1Reversal_def post_leg_def consumeInjectedReversalFault_def
  by (intro watch_intros keeps_advance_now keeps_handleReversalFailure assms) simp

lemma keeps_reverseLeg2ThenLeg1:
  assumes "y \<noteq> i"
  shows "keeps good (reverseLeg2ThenLeg1 y s b) always"
  unfolding reverseLeg2ThenLeg1_def postLeg2Reversal_def post_leg_def consumeInjectedReversalFault_def
  by (intro watch_intros keeps_advance_now keeps_handleReversalFailure keeps_attemptLeg1Reversal assms)
     simp_all

lemma keeps_attemptLeg:
  assumes "y \<noteq> i"
  shows "keeps good (attemptLeg y n b) always"
  unfolding attemptLeg_def handleLegFailure_def reverseLeg1_def post_leg_def scheduleRetry_def
    recordFailedAttempt_def consumeInjectedLegFault_def
  by (intro watch_intros keeps_advance_now keeps_reverseLeg2ThenLeg1 keeps_attemptLeg1Reversal assms)
     (simp add: assms)

lemma keeps_run_task: "task_transfer t \<noteq> i \<Longrightarrow> keeps good (run_task t) always"
  by (cases t) (auto simp: attemptForwardLegsFrom_def
      intro!: watch_intros keeps_attemptLeg keeps_attemptLeg1Reversal keeps_reverseLeg2ThenLeg1)

lemma good_wake:
  assumes "good c"
  shows "good (snd (wake n c))"
proof (cases "n < length (co_spawned c)")
  case True
  let ?c = "c\<lparr>co_spawned := take n (co_spawned c) @ drop (Suc n) (co_spawned c)\<rparr>"
  have "co_spawned c ! n \<in> set (co_spawned c)" using True by simp
  then have t: "task_transfer (snd (co_spawned c ! n)) \<noteq> i"
    using assms by (simp add: good_def unattended_def)
  have "good ?c"
    using assms by (auto simp: good_def unattended_def dest: in_set_takeD in_set_dropD)
  then have "good (snd (run_task (snd (co_spawned c ! n)) ?c))"
    using keeps_state [OF keeps_run_task [OF t]] by blast
  then show ?thesis using True by (simp add: wake_def)
qed (use assms in \<open>simp add: wake_def\<close>)

section \<open>Handlers\<close>

definition safe :: "handler \<Rightarrow> bool" where
  "safe h \<longleftrightarrow> (\<forall>x. good (ex_coordinator x) \<longrightarrow> good (ex_coordinator (h x)))"

lemma safe_calling:
  assumes "keeps good m Q" and "\<And>v. Q v \<Longrightarrow> safe (k (Inr v))" and "\<And>e. safe (k (Inl e))"
  shows "safe (calling m k)"
  unfolding safe_def
proof (intro allI impI)
  fix x :: exchange assume g: "good (ex_coordinator x)"
  obtain r c where c: "m (ex_coordinator x) = (r, c)" by (cases "m (ex_coordinator x)")
  have gc: "good c \<and> (\<forall>v. r = Inr v \<longrightarrow> Q v)" by (rule keepsD [OF assms(1) g c])
  have "safe (k r)" using gc assms(2,3) by (cases r) auto
  then show "good (ex_coordinator (calling m k x))" using gc c by (simp add: calling_def safe_def)
qed

lemma safe_ledger_call [watch_intros]:
  "keeps (holds I) m always \<Longrightarrow> (\<And>r. safe (k r)) \<Longrightarrow> safe (ledger_call m k)"
  unfolding ledger_call_def by (rule safe_calling) (intro watch_intros)

text \<open>Writing, log fields and metrics leave the coordinator alone.\<close>

definition distant :: "handler \<Rightarrow> bool" where
  "distant h \<longleftrightarrow> (\<forall>x. ex_coordinator (h x) = ex_coordinator x)"

lemma safe_distant: "distant h \<Longrightarrow> safe h"
  by (simp add: safe_def distant_def)

lemma safe_after: "safe h \<Longrightarrow> silent f \<Longrightarrow> safe (\<lambda>x. h (f x))"
  by (simp add: safe_def silent_def)

lemma distant_writes:
  "distant (writeJSON s v)" "distant (writeRefusal s k extra)" "distant writeInternalError"
  "distant refuseUnidentifiedCaller" "distant malformed" "distant refuseTransferNotFound"
  "distant (writeDomainError e)" "distant (answering a)" "distant healthHandler"
  by (auto simp: distant_def writeJSON_def writeRefusal_def writeInternalError_def set_field_def
      refuseUnidentifiedCaller_def malformed_def refuseTransferNotFound_def writeDomainError_def
      writeViolation_def answering_def healthHandler_def Let_def split: go_error.splits ViolationKind.splits)

lemmas safe_writes [watch_intros] = distant_writes [THEN safe_distant]

lemma safe_cases [watch_intros]:
  "(\<And>x. safe (f x)) \<Longrightarrow> (\<And>y. safe (g y)) \<Longrightarrow> safe (case r of Inl x \<Rightarrow> f x | Inr y \<Rightarrow> g y)"
  "safe h \<Longrightarrow> (\<And>x. safe (f' x)) \<Longrightarrow> safe (case o' of None \<Rightarrow> h | Some x \<Rightarrow> f' x)"
  "(\<And>x y. safe (h' x y)) \<Longrightarrow> safe (case p of (x, y) \<Rightarrow> h' x y)"
  "safe h1 \<Longrightarrow> safe h2 \<Longrightarrow> safe (if c then h1 else h2)"
  by (auto split: sum.split option.split prod.split)

lemma safe_wrappers [watch_intros]:
  "(\<And>t. safe (k t)) \<Longrightarrow> safe (reading_clock k)"
  "(\<And>v. safe (k' v)) \<Longrightarrow> safe (decoding s strict found k')"
  "(\<And>m. safe (l m)) \<Longrightarrow> safe (reading_amount text l)"
  "(\<And>n. safe (f n)) \<Longrightarrow> safe (recordPostingSuccess res d f)"
proof -
  show "(\<And>t. safe (k t)) \<Longrightarrow> safe (reading_clock k)" unfolding reading_clock_def by (intro watch_intros)
  show "(\<And>v. safe (k' v)) \<Longrightarrow> safe (decoding s strict found k')" unfolding decoding_def by (intro watch_intros)
  show "(\<And>m. safe (l m)) \<Longrightarrow> safe (reading_amount text l)"
    by (auto simp: reading_amount_def intro: watch_intros split: sum.splits amount_error.splits)
  show "(\<And>n. safe (f n)) \<Longrightarrow> safe (recordPostingSuccess res d f)"
    unfolding recordPostingSuccess_def Let_def by (rule safe_after) simp_all
qed

lemma safe_handlers [watch_intros]:
  "safe (createAccountHandler r)" "safe (provisionTenantHandler r)" "safe (authorizeTenantPairHandler r)"
  "safe (revokeTenantLinkHandler r)" "safe (registerCounterpartyAliasHandler r)" "safe (getBalanceHandler r)"
  "safe (getEntriesHandler r)" "safe (getTransferHandler r)"
  unfolding createAccountHandler_def provisionTenantHandler_def authorizeTenantPairHandler_def
    resolveProvisionedTenantID_def revokeTenantLinkHandler_def registerCounterpartyAliasHandler_def
    getBalanceHandler_def getEntriesHandler_def getTransferHandler_def Let_def
  by (intro watch_intros)+

lemma safe_verdictHandler [watch_intros]: "safe (verdictHandler r)"
  unfolding verdictHandler_def Let_def by (intro watch_intros safe_after [where f = "with_metrics _"]) simp

lemma safe_postTransferHandler [watch_intros]: "safe (postTransferHandler r)"
  unfolding postTransferHandler_def Let_def
  by (intro watch_intros safe_after [where f = "recordPostingFailure _ _"]
      safe_after [where f = "recordTransferLogFields _ _ _ _ _"]) simp_all

text \<open>The goroutine a request starts is for the transfer it has created.\<close>

lemma safe_then_trigger:
  assumes "created \<longrightarrow> y \<noteq> i"
  shows "safe (\<lambda>x. if created then calling (TriggerForwardLegs y) (\<lambda>_ z. z) (writeJSON s v x)
                 else writeJSON s v x)"
  using assms
  by (auto simp: safe_def calling_def TriggerForwardLegs_def spawn_def writeJSON_def good_def unattended_def)

lemma safe_sendCrossTenantTransferHandler [watch_intros]: "safe (sendCrossTenantTransferHandler r)"
proof -
  let ?k = "\<lambda>res. case res of Inl e \<Rightarrow> writeDomainError e
    | Inr (view, created) \<Rightarrow> (\<lambda>x.
        let y = writeJSON 202 (transferViewAnswer view False) x in
        if created then calling (TriggerForwardLegs (view_TransferID view)) (\<lambda>_ z. z) y else y)"
  have "safe (ledger_call (SendTransfer t n m key fp) ?k)" for t n m key fp
    unfolding ledger_call_def
  proof (rule safe_calling [OF keeps_on_ledger [OF keeps_SendTransfer]])
    fix v :: "TransferView \<times> bool"
    assume "case v of (view, created) \<Rightarrow> created \<longrightarrow> view_TransferID view \<noteq> i"
    then show "safe (?k (Inr v))"
      using safe_then_trigger by (cases v) (simp add: Let_def)
  qed (simp add: safe_writes)
  then show ?thesis unfolding sendCrossTenantTransferHandler_def Let_def
    by (intro safe_cases(4) safe_wrappers(2,3) safe_writes)
qed

lemma safe_postTransferOrCrossTenantHandler [watch_intros]: "safe (postTransferOrCrossTenantHandler r)"
  unfolding postTransferOrCrossTenantHandler_def Let_def by (intro watch_intros)

lemma safe_resolving [watch_intros]:
  assumes "\<And>t. safe (k t)"
  shows "safe (resolving (production_resolver demo) token k)"
proof -
  have read: "keeps (holds I) (NewTenantKeyResolver h) always" for h
    unfolding NewTenantKeyResolver_def by (intro watch_intros)
  have "keeps (holds I) (production_resolver demo h) always" for h
    using keeps_state [OF read] by (auto simp: keeps_def demoTenantResolver_def ret_def)
  then have "safe (ledger_call (production_resolver demo h) (\<lambda>res. case res of
       Inr (Some tenantID) \<Rightarrow> k tenantID | _ \<Rightarrow> refuseUnidentifiedCaller))" for h
    using assms by (intro watch_intros)
  then show ?thesis by (simp add: safe_def resolving_def)
qed

lemma safe_admit_party [watch_intros]: "(\<And>r. safe (h r)) \<Longrightarrow> safe (admit_party t h r)"
  unfolding admit_party_def transferStateByID_def by (intro watch_intros)

lemma safe_route: "safe (route (production key demo deps) e r)"
proof -
  have "safe (\<lambda>x. answering (deps_scrape d r (ex_metrics x)) x)" for d
    by (simp add: safe_def answering_def writeJSON_def)
  then show ?thesis
    by (cases e) (auto simp: requireOperatorKey_def requireTenantKey_def requireTenantKeyOrOperatorKey_def
        requireTransferParty_def mountConsole_def mountTestOnlyFaults_def intro!: watch_intros split: prod.splits)
qed

section \<open>A production process\<close>

lemma good_later: "good (ex_coordinator x) \<Longrightarrow> good (ex_coordinator (later x))"
  by (simp add: good_def unattended_def holds_def later_def with_world_def)

lemma good_request:
  assumes "good (ex_coordinator x)"
  shows "good (ex_coordinator (NewRouter (production key demo deps) e r x))"
proof -
  have "good (ex_coordinator (arriving x))" using assms good_later by (simp add: arriving_def)
  then have "good (ex_coordinator (route (production key demo deps) e (r\<lparr>rq_scope := None\<rparr>) (arriving x)))"
    using safe_route by (simp add: safe_def)
  then show ?thesis unfolding NewRouter_run logged_def using good_later by simp
qed

lemma good_happen:
  assumes "good (ex_coordinator x)"
  shows "good (ex_coordinator (happen (production key demo deps) e x))"
proof (cases e)
  case (Request ep r)
  then show ?thesis using good_request [OF assms] by simp
next
  case (Wakes n)
  then show ?thesis using good_wake [OF assms] by simp
next
  case Restarts
  then show ?thesis
    using assms by (simp add: started_def NewTransferCoordinator_def good_def unattended_def)
qed

lemma good_happen_all:
  "good (ex_coordinator x) \<Longrightarrow> good (ex_coordinator (happen_all (production key demo deps) es x))"
  by (induction es arbitrary: x) (auto intro: good_happen)

end

section \<open>The row of a transfer\<close>

definition has_row :: "string \<Rightarrow> transfer_row \<Rightarrow> db \<Rightarrow> bool" where
  "has_row i r d \<longleftrightarrow> db_transfer d i = Some r"

lemma has_row_created:
  assumes "insert_transfer x d = Inr ((), d')" and "has_row i r d"
  shows "has_row i r d' \<and> xr_id x \<noteq> i"
  using assms by (auto simp: inserted has_row_def db_transfer_def find_append split: option.splits)

lemma has_row_advanced:
  assumes "\<And>r. xr_id (f r) = xr_id r" and "y \<noteq> i" and "has_row i r d"
  shows "has_row i r (d\<lparr>transfer_states := map (\<lambda>r. if xr_id r = y then f r else r) (transfer_states d)\<rparr>)"
proof -
  let ?g = "\<lambda>r. if xr_id r = y then f r else r"
  have "List.find (\<lambda>r. xr_id r = i) (map ?g (transfer_states d)) =
      map_option ?g (List.find (\<lambda>r. xr_id r = i) (transfer_states d))"
    by (rule find_map_keep) (use assms(1) in auto)
  then show ?thesis using assms(2,3) find_Some_memD by (fastforce simp: has_row_def db_transfer_def)
qed

interpretation row_watch: watched_transfer i "has_row i r" for i r
  by unfold_locales (auto simp: has_row_created has_row_advanced, simp add: has_row_def db_transfer_def)

lemma row_untouched:
  assumes "db_transfer (w_committed w) i = Some r" and "w_db w = w_committed w"
    and "\<And>n d. db_transfer d i = Some r \<Longrightarrow> db_transfer (w_env w n d) i = Some r"
  shows "db_transfer (w_committed (world_of
    (happen_all (production key demo deps) es (started w draws)))) i = Some r"
proof -
  have "row_watch.good i r (ex_coordinator (started w draws))"
    using assms by (simp add: row_watch.good_def holds_def has_row_def unattended_def started_def
        NewTransferCoordinator_def)
  then have "row_watch.good i r (ex_coordinator (happen_all (production key demo deps) es (started w draws)))"
    by (rule row_watch.good_happen_all)
  then show ?thesis by (simp add: row_watch.good_def holds_def has_row_def)
qed

end
