(* ===== verification/Api.thy ===== *)
theory Api
  imports Samples Answering Stranded
begin

text \<open>
  What holds of the service as its callers see it: requests over HTTP, wake-ups of the
  goroutines they start, restarts. \<open>production\<close> is the router as \<open>serve\<close> of \<open>cmd/api/main.go\<close>
  wires it, \<open>happen_all\<close> what the process goes through.
\<close>

section \<open>A sample service\<close>

text \<open>Tenants' keys are their identifiers here: the digest of the sample world is the identity.\<close>

definition no_body :: body where
  "no_body = \<lparr>body_reads = True, body_first = None, body_whole = None\<rparr>"

definition asking :: "string \<Rightarrow> string \<Rightarrow> (string \<Rightarrow> string) \<Rightarrow> body \<Rightarrow> http_request" where
  "asking token key params b = \<lparr>rq_authorization = ''Bearer '' @ token, rq_idempotencyKey = key,
     rq_queryTenantID = [], rq_urlParam = params, rq_body = b, rq_scope = None, rq_requestID = ''r''\<rparr>"

lemma asking_sel [simp]:
  "bearerToken (asking token key params b) = (token, True)"
  "rq_idempotencyKey (asking token key params b) = key" "rq_body (asking token key params b) = b"
  "rq_urlParam (asking token key params b) = params" "rq_requestID (asking token key params b) = ''r''"
  by (simp_all add: asking_def bearerToken_def)

definition sample_deps :: Deps where
  "sample_deps = \<lparr>deps_OperatorKey = [], deps_TenantKeyResolver = None, deps_EnableTestOnlyFaultSeam = False,
     deps_console_built = False, deps_error_text = (\<lambda>_. []), deps_scrape = (\<lambda>_ _. (200, JObj [])),
     deps_serve_file = (\<lambda>_. (200, JObj [])), deps_unmatched = (\<lambda>_. (404, JObj []))\<rparr>"

abbreviation served_by :: "event list \<Rightarrow> world \<Rightarrow> exchange" where
  "served_by es w \<equiv> happen_all (production ''op'' [] sample_deps) es (started w (\<lambda>_. 0))"

lemma started_sel [simp]:
  "world_of (started w draws) = w" "ex_log (started w draws) = []" "ex_written (started w draws) = []"
  "ex_coordinator (started w draws) = NewTransferCoordinator w draws"
  by (simp_all add: started_def NewTransferCoordinator_def)

lemma sample_keys_of_tenants:
  "resolveTenantKey sample_db ''a'' = Some ''a''" "resolveTenantKey sample_db ''b'' = Some ''b''"
  "resolveTenantKey sample_db ''z'' = None"
  "resolveTenantKey transfer_db ''p'' = Some ''tnt_platform''"
  by (simp_all add: resolveTenantKey_def sample_db_def transfer_db_def recorded_def posted_def provisioned_def)

section \<open>Whatever is asked\<close>

text \<open>
  C24: whatever is requested of the service, by whom, in whatever order goroutines wake up and
  however often the process restarts: the books stay in order, the journal double entry, and
  what is recorded is only appended to.
\<close>

theorem http_keeps_books:
  assumes "well_behaved w" and "books (w_committed w)" and "journal (w_committed w)"
  shows "books (w_committed (world_of (happen_all (production key demo deps) es (started w draws)))) \<and>
    journal (w_committed (world_of (happen_all (production key demo deps) es (started w draws)))) \<and>
    extends (w_committed w) (w_committed (world_of (happen_all (production key demo deps) es (started w draws))))"
proof -
  have m: "moves w (world_of (happen_all (production key demo deps) es (started w draws)))"
    using happen_all_moves [OF reading_production, of "started w draws"] assms(1) by simp
  show ?thesis using books.moved [OF m assms(2)] journal.moved [OF m assms(3)] history.moved [OF m] by blast
qed

theorem http_keeps_books_witness:
  "books (w_committed (world_of (served_by [Request PostTransfers (asking ''a'' ''K'' (\<lambda>_. [])
     (transfer_body ''w'' ''k'' ''2.00'')), Wakes 0, Restarts] (quiet_world sample_db))))"
  by (rule conjunct1 [OF http_keeps_books]) simp_all

text \<open>
  C25: a request is answered once and leaves one log line: whatever the route and whatever
  fails on the way, exactly one response is written, and the one line that is added to the log
  carries the response's status, the route's pattern and the request's id, and is a warning
  iff the status is 500 or above.
\<close>

theorem answered_once:
  assumes "well_behaved w"
  shows "\<exists>status v line.
    ex_written (NewRouter (production key demo deps) e r (started w draws)) = [(status, v)] \<and>
    ex_log (NewRouter (production key demo deps) e r (started w draws)) = [line] \<and>
    (log_warns line \<longleftrightarrow> 500 \<le> status) \<and>
    log_attrs line ''status'' = Some (json_int status) \<and>
    log_attrs line ''route'' = Some (JStr (route_pattern e)) \<and>
    log_attrs line ''request_id'' = Some (JStr (rq_requestID r))"
  using NewRouter_serves(2) [OF reading_production, of "started w draws"] assms by simp

theorem answered_once_witness:
  "\<exists>status v line. ex_written (served_by [Request GetHealth (asking [] [] (\<lambda>_. []) no_body)]
      (quiet_world sample_db)) = [(status, v)] \<and>
    ex_log (served_by [Request GetHealth (asking [] [] (\<lambda>_. []) no_body)] (quiet_world sample_db)) = [line] \<and>
    log_attrs line ''route'' = Some (JStr ''/health'')"
  using answered_once [of "quiet_world sample_db" "''op''" "[]" sample_deps GetHealth
      "asking [] [] (\<lambda>_. []) no_body" "\<lambda>_. 0"] by auto

section \<open>Who may ask\<close>

text \<open>
  C26: a caller nobody knows learns and changes nothing: on every guarded route a request
  without a bearer token, or with one that is neither the operator's, nor the demo tenant's,
  nor any tenant's, is answered 401 \<open>unidentified_caller\<close>, and whatever is committed
  meanwhile is committed by others.
\<close>

theorem unidentified_refused:
  assumes "guarded e" and "stranger key demo w r"
  shows "ex_written (NewRouter (production key demo deps) e r (started w draws)) =
      [(401, JObj [(''error'', JStr ''unidentified_caller'')])] \<and>
    since w (world_of (NewRouter (production key demo deps) e r (started w draws)))"
  using refused_request [of e key demo "started w draws" r deps] assms by simp

theorem unidentified_refused_witness:
  "ex_written (served_by [Request GetTransferRoute (asking ''z'' [] (\<lambda>_. ''x'') no_body)]
     (quiet_world sample_db)) = [(401, JObj [(''error'', JStr ''unidentified_caller'')])]"
proof -
  have "stranger ''op'' [] (quiet_world sample_db) (asking ''z'' [] (\<lambda>_. ''x'') no_body)"
    using sample_keys_of_tenants
    by (simp add: stranger_def isOperatorKey_def unknown_hash_def) (simp add: quiet_world_def)
  then show ?thesis
    using unidentified_refused [of GetTransferRoute "''op''" "[]" "quiet_world sample_db"] by simp
qed

text \<open>
  C27: a tenant's key reads that tenant's entries only: whatever account it names and whatever
  tenant it asks for in the query, every row of the entries it is shown belongs to the tenant
  its token resolves to.
\<close>

theorem entries_one_tenant:
  assumes "\<not> isOperatorKey (fst (bearerToken r)) key"
    and "ex_written (route (production key demo deps) GetEntriesRoute r x) =
      ex_written x @ [(200, JObj [(''entries'', JArr rows)])]"
  shows "\<exists>t. fst (production_resolver demo (w_sha256hex (world_of x) (fst (bearerToken r))) (world_of x)) =
      Inr (Some t) \<and> (\<forall>row \<in> set rows. of_tenant t row)"
  using assms by (rule entries_of_one_tenant)

theorem entries_one_tenant_witness:
  "\<exists>rows. ex_written (route (production ''op'' [] sample_deps) GetEntriesRoute
      (asking ''a'' [] (\<lambda>_. ''w'') no_body) (started (quiet_world sample_db) (\<lambda>_. 0))) =
        [(200, JObj [(''entries'', JArr rows)])] \<and>
     (\<exists>t. \<forall>row \<in> set rows. of_tenant t row)"
proof -
  let ?r = "asking ''a'' [] (\<lambda>_. ''w'') no_body" and ?x = "started (quiet_world sample_db) (\<lambda>_. 0)"
  have "presented_tenant [] (quiet_world sample_db) ?r = Some ''a''"
    using sample_keys_of_tenants by (simp add: presented_tenant_def) (simp add: quiet_world_def)
  from production_resolver_quiet [OF quiet_quiet_world this] obtain w where
    w: "production_resolver [] (w_sha256hex (quiet_world sample_db) ''a'') (quiet_world sample_db) = (Inr (Some ''a''), w)"
      "as_before (quiet_world sample_db) w" by auto
  have q: "quiet w" "books (w_committed w)" "known_to (ScopedToTenant ''a'') ''w'' (w_committed w)"
    using as_before_quiet [OF w(2)] w(2) sample_accounts
    by (simp_all add: as_before_def known_to_def account_exists_def)
  from GetEntries_trace [OF q] obtain es v where "GetEntries (ScopedToTenant ''a'') ''w'' w = (Inr es, v)" by blast
  then have "ex_written (getEntriesHandler (withTenantScope (ScopedToTenant ''a'') ?r) (with_world w ?x)) =
      [(200, JObj [(''entries'', JArr (entriesToWire es))])]"
    by (simp add: getEntriesHandler_def TenantScopeFromContext_def withTenantScope_def entriesScopeFromQuery_def)
       (simp add: asking_def ledger_call_eq writeJSON_def)
  then have "ex_written (route (production ''op'' [] sample_deps) GetEntriesRoute ?r ?x) =
      [(200, JObj [(''entries'', JArr (entriesToWire es))])]"
    using resolving_cases [of "[]" ?x "''a''" "Inr (Some ''a'')" w] w(1)
    by (simp add: requireTenantKeyOrOperatorKey_def isOperatorKey_def)
  then show ?thesis
    using entries_one_tenant [of ?r "''op''" "[]" sample_deps ?x "entriesToWire es"] by (auto simp: isOperatorKey_def)
qed

text \<open>
  C28: a transfer of others cannot be told from no transfer: to a caller who is neither party
  to the transfer, nor the operator, the service answers the request for it, byte for byte and
  log line included, as if the transfer had never been recorded.
\<close>

theorem foreign_transfer_unseen:
  assumes "undisturbed (world_of x)" and "db_transfer (w_committed (world_of x)) i = Some row"
    and "scanTransferState row = Inr s" and "rq_urlParam r ''transfer_id'' = i"
    and "\<not> isOperatorKey (fst (bearerToken r)) key"
    and "presented_tenant demo (world_of x) r \<notin> {Some (ts_TenantID s), Some (ts_CounterpartyTenantID s)}"
  shows "ex_written (NewRouter (production key demo deps) GetTransferRoute r x) =
      ex_written (NewRouter (production key demo deps) GetTransferRoute r (forget_in i x)) \<and>
    ex_log (NewRouter (production key demo deps) GetTransferRoute r x) =
      ex_log (NewRouter (production key demo deps) GetTransferRoute r (forget_in i x))"
  using NewRouter_forget [OF assms, of deps] by (simp add: forget_in_def)

theorem foreign_transfer_unseen_witness:
  "ex_written (NewRouter (production ''op'' [] sample_deps) GetTransferRoute
      (asking ''p'' [] (\<lambda>_. ''x'') no_body) (started (quiet_world transfer_db) (\<lambda>_. 0))) =
   ex_written (NewRouter (production ''op'' [] sample_deps) GetTransferRoute
      (asking ''p'' [] (\<lambda>_. ''x'') no_body) (forget_in ''x'' (started (quiet_world transfer_db) (\<lambda>_. 0))))"
  using foreign_transfer_unseen [of "started (quiet_world transfer_db) (\<lambda>_. 0)" "''x''" sample_row sample_state
      "asking ''p'' [] (\<lambda>_. ''x'') no_body" "''op''" "[]" sample_deps] sample_keys_of_tenants
  by (simp add: undisturbed_def isOperatorKey_def presented_tenant_def newTransferState_def)
     (simp add: quiet_world_def)

section \<open>Moving money over HTTP\<close>

text \<open>
  C29: a retried posting is answered as the first one was: the first request under a free key
  moves the money and answers 201, the same request again answers 200 with the same body and
  commits nothing.
\<close>

theorem http_retry_same_answer:
  fixes key deps draws
  assumes "quiet w" and "books (w_committed w)"
    and "\<And>n. w_minted w \<le> n \<Longrightarrow> \<not> transaction_exists (w_committed w) (w_ids w n)"
    and "snd (bearerToken r)" and "presented_tenant demo w r = Some t"
    and "rq_body r = transfer_body a b text" and "rq_idempotencyKey r \<noteq> []"
    and "a \<noteq> []" and "b \<noteq> []" and "parseAmount text = Inr m"
    and "movable t a b m (w_committed w)" and "a \<noteq> b"
    and "db_key (w_committed w) (rq_idempotencyKey r) = None"
  defines "y \<equiv> NewRouter (production key demo deps) PostTransfers r (started w draws)"
  defines "z \<equiv> NewRouter (production key demo deps) PostTransfers r y"
  shows "\<exists>tid now. ex_written y = [(201, posting_body tid a b m)] \<and> ex_written z = [(200, posting_body tid a b m)] \<and>
    w_committed (world_of y) = posted t a b m tid now (rq_idempotencyKey r) (fingerprintTransfer a b m)
      (w_committed w) \<and>
    w_committed (world_of z) = w_committed (world_of y)"
  using post_twice [of "started w draws" r demo t a b "text" m key deps] assms(1-13)
  by (simp add: y_def z_def Let_def)

theorem http_retry_same_answer_witness:
  "\<exists>tid y z. y = served_by [Request PostTransfers (asking ''a'' ''K'' (\<lambda>_. []) (transfer_body ''w'' ''k'' ''2.00''))]
       (quiet_world sample_db) \<and>
     z = happen (production ''op'' [] sample_deps)
       (Request PostTransfers (asking ''a'' ''K'' (\<lambda>_. []) (transfer_body ''w'' ''k'' ''2.00''))) y \<and>
     ex_written y = [(201, posting_body tid ''w'' ''k'' (usd 200))] \<and>
     ex_written z = [(200, posting_body tid ''w'' ''k'' (usd 200))] \<and>
     w_committed (world_of z) = w_committed (world_of y)"
proof -
  have "parseAmount ''2.00'' = Inr (usd 200)" unfolding usd_def by code_simp
  moreover have "presented_tenant [] (quiet_world sample_db)
      (asking ''a'' ''K'' (\<lambda>_. []) (transfer_body ''w'' ''k'' ''2.00'')) = Some ''a''"
    using sample_keys_of_tenants by (simp add: presented_tenant_def) (simp add: quiet_world_def)
  ultimately show ?thesis
    using http_retry_same_answer [of "quiet_world sample_db"
        "asking ''a'' ''K'' (\<lambda>_. []) (transfer_body ''w'' ''k'' ''2.00'')" "[]" "''a''" "''w''" "''k''" "''2.00''"
        "usd 200" "''op''" sample_deps "\<lambda>_. 0"] sample_movable sample_ids
    by auto
qed

text \<open>
  C30: one key, one transaction: whatever two accepted postings under one key ask for, whoever asks
  and whatever the process goes through before and between them, with any faults and any other
  sessions, both answers name the same transaction and the later one is a 200.
\<close>

theorem one_key_one_transaction:
  fixes key demo deps r es es' draws
  assumes "well_behaved w" and "rq_idempotencyKey r' = rq_idempotencyKey r"
  defines "x \<equiv> NewRouter (production key demo deps) PostTransfers r
      (happen_all (production key demo deps) es (started w draws))"
  defines "x' \<equiv> NewRouter (production key demo deps) PostTransfers r'
      (happen_all (production key demo deps) es' x)"
  assumes "ex_written x = [(s, v)]" and "s \<in> {200, 201}"
    and "ex_written x' = [(s', v')]" and "s' \<in> {200, 201}"
  shows "s' = 200 \<and> (\<exists>tid. names_transaction_of tid v \<and> names_transaction_of tid v')"
proof -
  let ?deps = "production key demo deps" and ?k = "rq_idempotencyKey r"
  note over_time = happen_all_moves [OF reading_production]
  have wb: "well_behaved (world_of (happen_all ?deps es (started w draws)))"
    using moves_well_behaved [OF over_time] assms(1) by simp
  from NewRouter_serves(1) [OF reading_production this] have wb': "well_behaved (world_of x)"
    unfolding x_def using moves_well_behaved wb by blast
  obtain c where c: "db_key (w_committed (world_of x)) ?k = Some c" "names_transaction_of (kr_transaction c) v"
    using posting_bound [OF wb, of key demo deps r] assms(5,6) unfolding x_def [symmetric]
    by (auto simp: names_bound_def)
  then have "key_claimed ?k c (world_of (happen_all ?deps es' x))"
    using key_claimed_moved [OF over_time [OF wb']] wb' by (simp add: key_claimed_def)
  then have "s' = 200 \<and> names_transaction_of (kr_transaction c) v'"
    using posting_claimed [of r' c "happen_all ?deps es' x" key demo deps] assms(2,7,8)
    unfolding x'_def [symmetric] by (auto simp: names_claimed_def)
  then show ?thesis using c(2) by blast
qed

theorem one_key_one_transaction_witness:
  "\<exists>tid v v'. ex_written (served_by [Request PostTransfers (asking ''a'' ''K'' (\<lambda>_. [])
       (transfer_body ''w'' ''k'' ''2.00''))] (quiet_world sample_db)) = [(201, v)] \<and>
     ex_written (served_by [Request PostTransfers (asking ''a'' ''K'' (\<lambda>_. []) (transfer_body ''w'' ''k'' ''2.00'')),
       Request PostTransfers (asking ''a'' ''K'' (\<lambda>_. []) (transfer_body ''w'' ''k'' ''2.00''))]
       (quiet_world sample_db)) = [(200, v')] \<and>
     names_transaction_of tid v \<and> names_transaction_of tid v'"
proof -
  let ?r = "asking ''a'' ''K'' (\<lambda>_. []) (transfer_body ''w'' ''k'' ''2.00'')"
  have "parseAmount ''2.00'' = Inr (usd 200)" unfolding usd_def by code_simp
  moreover have "presented_tenant [] (quiet_world sample_db) ?r = Some ''a''"
    using sample_keys_of_tenants by (simp add: presented_tenant_def) (simp add: quiet_world_def)
  ultimately show ?thesis
    using post_twice [of "started (quiet_world sample_db) (\<lambda>_. 0)" ?r "[]" "''a''" "''w''" "''k''" "''2.00''"
        "usd 200" "''op''" sample_deps] sample_movable sample_ids
      one_key_one_transaction [of "quiet_world sample_db" ?r ?r "''op''" "[]" sample_deps "[]" "\<lambda>_. 0"
        201 _ "[]" 200]
    by (auto simp: Let_def)
qed

text \<open>
  C31: an amount read back from its text is the amount: what \<open>formatMoney\<close> writes of a US dollar
  amount, \<open>parseAmount\<close> reads, to the cent, over the whole range of \<open>int64\<close> but its least value.
\<close>

theorem amount_roundtrip:
  assumes "currency m = ''USD''" and "sint (minorUnits m) \<noteq> - (2 ^ 63)"
  shows "parseAmount (formatMoney m) = Inr m"
  using assms by (rule parse_format)

theorem amount_roundtrip_witness: "parseAmount (formatMoney (usd (- 7))) = Inr (usd (- 7))"
  by (rule amount_roundtrip) (simp_all add: usd_def)

text \<open>
  Fingerprints tell requests apart, as long as no account is named with a vertical bar: equal
  fingerprints mean the same accounts and the same amount. With a bar, two requests that move
  money between different accounts share one.
\<close>

theorem fingerprint_distinguishes:
  assumes "CHR ''|'' \<notin> set a" "CHR ''|'' \<notin> set a'" "CHR ''|'' \<notin> set b" "CHR ''|'' \<notin> set b'"
  shows "(fingerprintTransfer a b m = fingerprintTransfer a' b' m' \<longleftrightarrow> a = a' \<and> b = b' \<and> m = m') \<and>
    fingerprintTransfer ''a|b'' ''c'' m = fingerprintTransfer ''a'' ''b|c'' m"
  using fingerprint_inject [of a b m a' b' m'] assms fingerprint_collision by blast

theorem fingerprint_distinguishes_witness:
  "fingerprintTransfer ''w'' ''k'' (usd 2) \<noteq> fingerprintTransfer ''w'' ''k'' (usd 20)"
  using fingerprint_distinguishes [of "''w''" "''w''" "''k''" "''k''" "usd 2" "usd 20"] by (simp add: usd_def)

section \<open>What nobody drives\<close>

text \<open>
  C32: a transfer that is under way when the process stops is never finished in production: the
  goroutines that drove it are gone, and the ticker that would pick it up runs on a test-only
  route alone. Whatever requests are served, goroutines wake up and restarts follow, the row of
  the transfer stays exactly as it was, as long as no other process changes it.
\<close>

theorem stranded:
  assumes "db_transfer (w_committed w) i = Some r" and "w_db w = w_committed w"
    and "\<And>n d. db_transfer d i = Some r \<Longrightarrow> db_transfer (w_env w n d) i = Some r"
  shows "db_transfer (w_committed (world_of
    (happen_all (production key demo deps) es (started w draws)))) i = Some r"
  using assms by (rule row_untouched)

theorem stranded_witness:
  "db_transfer (w_committed (world_of (served_by [Request GetTransferRoute (asking ''a'' [] (\<lambda>_. ''x'') no_body),
      Request TestTick (asking ''op'' [] (\<lambda>_. []) no_body), Wakes 0, Restarts] (quiet_world transfer_db)))) ''x'' =
    Some sample_row"
  by (rule stranded) (simp_all add: quiet_world_def [of transfer_db] del: transfer_row, simp_all)

end
