(* ===== verification/Redaction.thy ===== *)
theory Redaction
  imports Prelude
begin

text \<open>
  Keeping secrets out of texts: \<open>internal/support/secret.go\<close>, and \<open>RedactDSN\<close> and
  \<open>redactedError\<close> of the postgres adapter. The two regular expressions are matched by hand,
  as RE2 matches them: leftmost, the first alternative that succeeds.
\<close>

section \<open>Secrets\<close>

definition RedactionMarker :: string where
  "RedactionMarker = ''[REDACTED]''"

datatype Secret = NewSecret (Reveal: string)

text \<open>\<open>String\<close>, \<open>GoString\<close>, \<open>Format\<close>, \<open>LogValue\<close> and \<open>MarshalText\<close>: the marker, whatever the value.\<close>

definition Secret_String :: "Secret \<Rightarrow> string" where
  "Secret_String s = RedactionMarker"

section \<open>Replacing every match\<close>

text \<open>
  A matcher answers what to write for a match at the beginning of a text and what follows the
  match, which is never empty. Matches are sought from the left and do not overlap.
\<close>

type_synonym matcher = "string \<Rightarrow> (string \<times> string) option"

function replacing :: "matcher \<Rightarrow> string \<Rightarrow> string" where
  "replacing m [] = []"
| "replacing m (c # cs) = (case m (c # cs) of
     Some (new, tail) \<Rightarrow> if length tail \<le> length cs then new @ replacing m tail else c # cs
   | None \<Rightarrow> c # replacing m cs)"
  by pat_completeness auto
termination by (relation "measure (\<lambda>(m, s). length s)") auto

text \<open>\<open>strings.ReplaceAll\<close> of a text that is not empty.\<close>

definition replace_all :: "string \<Rightarrow> string \<Rightarrow> string \<Rightarrow> string" where
  "replace_all old new = replacing (\<lambda>s. if take (length old) s = old then Some (new, drop (length old) s) else None)"

text \<open>The class \<open>\s\<close>.\<close>

definition is_space :: "char \<Rightarrow> bool" where
  "is_space c \<longleftrightarrow> of_char c \<in> {9 :: nat, 10, 12, 13, 32}"

text \<open>\<open>(://[^:/@\s]*:)[^@\s]*@\<close>\<close>

definition user_char :: "char \<Rightarrow> bool" where
  "user_char c \<longleftrightarrow> \<not> (c = CHR '':'' \<or> c = CHR ''/'' \<or> c = CHR ''@'' \<or> is_space c)"

definition password_char :: "char \<Rightarrow> bool" where
  "password_char c \<longleftrightarrow> \<not> (c = CHR ''@'' \<or> is_space c)"

definition urlPasswordPattern :: matcher where
  "urlPasswordPattern s =
     (if take 3 s \<noteq> ''://'' then None
      else let user = takeWhile user_char (drop 3 s) in
        case dropWhile user_char (drop 3 s) of
          [] \<Rightarrow> None
        | c # r \<Rightarrow> if c \<noteq> CHR '':'' then None
            else case dropWhile password_char r of
              [] \<Rightarrow> None
            | d # tail \<Rightarrow> if d = CHR ''@''
                then Some (''://'' @ user @ '':'' @ RedactionMarker @ ''@'', tail) else None)"

text \<open>
  \<open>(?i)(password\s*=\s*)('(?:[^'\\]|\\.)*'|\S+)\<close>, whose letters match in either case, the s also
  as a long s.
\<close>

fun match_fold :: "string \<Rightarrow> string \<Rightarrow> (string \<times> string) option" where
  "match_fold [] s = Some ([], s)"
| "match_fold (p # ps) [] = None"
| "match_fold (p # ps) (c # cs) =
     (if to_lower c = p then map_option (\<lambda>(w, r). (c # w, r)) (match_fold ps cs)
      else if p = CHR ''s'' \<and> of_char c = (197 :: nat) \<and> cs \<noteq> [] \<and> of_char (hd cs) = (191 :: nat)
      then map_option (\<lambda>(w, r). (c # hd cs # w, r)) (match_fold ps (tl cs))
      else None)"

fun quoted :: "string \<Rightarrow> string option" where
  "quoted [] = None"
| "quoted (c # cs) =
     (if c = CHR 0x27 then Some cs
      else if c = CHR 0x5C then (case cs of [] \<Rightarrow> None | d # ds \<Rightarrow> if d = CHR 0x0A then None else quoted ds)
      else quoted cs)"

definition unquoted :: "string \<Rightarrow> string option" where
  "unquoted s = (if s = [] \<or> is_space (hd s) then None else Some (dropWhile (\<lambda>c. \<not> is_space c) s))"

definition match_value :: "string \<Rightarrow> string option" where
  "match_value s = (case s of [] \<Rightarrow> None
   | c # cs \<Rightarrow> if c = CHR 0x27 then (case quoted cs of Some tail \<Rightarrow> Some tail | None \<Rightarrow> unquoted s)
               else unquoted s)"

definition keyValuePasswordPattern :: matcher where
  "keyValuePasswordPattern s = (case match_fold ''password'' s of
     None \<Rightarrow> None
   | Some (word, r) \<Rightarrow>
       (case dropWhile is_space r of
          [] \<Rightarrow> None
        | c # r' \<Rightarrow> if c \<noteq> CHR ''='' then None
            else map_option (\<lambda>tail. (word @ takeWhile is_space r @ ''='' @ takeWhile is_space r' @ RedactionMarker, tail))
              (match_value (dropWhile is_space r'))))"

definition RedactDSN :: "string \<Rightarrow> string" where
  "RedactDSN s = replacing keyValuePasswordPattern (replacing urlPasswordPattern s)"

section \<open>Errors\<close>

text \<open>
  An error as the adapter looks at it: its text, and the SQLSTATE that \<open>errors.As\<close> finds in its
  chain. \<open>%w\<close> puts a text in front and keeps the chain, \<open>errors.New\<close> starts a new one.
\<close>

record failure =
  fail_text :: string
  fail_sqlstate :: "string option"

definition errors_New :: "string \<Rightarrow> failure" where
  "errors_New s = \<lparr>fail_text = s, fail_sqlstate = None\<rparr>"

definition wrapping :: "string \<Rightarrow> failure \<Rightarrow> failure" where
  "wrapping before e = e\<lparr>fail_text := before @ '': '' @ fail_text e\<rparr>"

definition redactedError :: "failure \<Rightarrow> Secret \<Rightarrow> failure" where
  "redactedError e appPassword =
     (let s = RedactDSN (fail_text e)
      in errors_New (if Reveal appPassword \<noteq> [] then replace_all (Reveal appPassword) RedactionMarker s else s))"

section \<open>What a redacted text depends on\<close>

lemma replacing_none: "(\<And>s. suffix s text \<Longrightarrow> m s = None) \<Longrightarrow> replacing m text = text"
  by (induction "text") (auto simp: suffix_Cons)

lemma replacing_skip:
  assumes "\<And>c s. c \<in> set pre \<Longrightarrow> m (c # s) = None"
  shows "replacing m (pre @ s) = pre @ replacing m s"
  using assms by (induction pre) auto

lemma replacing_at:
  assumes "m s = Some (new, tail)" and "s \<noteq> []" and "length tail < length s"
  shows "replacing m s = new @ replacing m tail"
  using assms by (cases s) auto

lemma url_needs_colon: "c \<noteq> CHR '':'' \<Longrightarrow> urlPasswordPattern (c # s) = None"
  by (simp add: urlPasswordPattern_def)

lemma while_split:
  assumes "list_all P u" and "\<not> P c"
  shows "takeWhile P (u @ c # s) = u" and "dropWhile P (u @ c # s) = c # s"
  using assms by (induction u) auto

lemma url_match:
  assumes "list_all user_char user" and "list_all password_char pw"
  shows "urlPasswordPattern (''://'' @ user @ '':'' @ pw @ ''@'' @ tail) =
    Some (''://'' @ user @ '':'' @ RedactionMarker @ ''@'', tail)"
proof -
  have n: "\<not> user_char (CHR '':'')" "\<not> password_char (CHR ''@'')"
    by (simp_all add: user_char_def password_char_def)
  have s: "take 3 (''://'' @ s) = ''://''" "drop 3 (''://'' @ s) = s" for s :: string by simp_all
  have cs: "[c] @ s = c # s" for c and s :: string by simp
  show ?thesis
    unfolding urlPasswordPattern_def s cs while_split [OF assms(1) n(1)] Let_def list.case
      while_split [OF assms(2) n(2)] by (simp only: simp_thms if_True if_False)
qed

text \<open>The password of a URL is gone: nothing of the redacted text depends on it.\<close>

lemma redacts_url:
  assumes "CHR '':'' \<notin> set scheme" and "list_all user_char user" and "list_all password_char pw"
  shows "RedactDSN (scheme @ ''://'' @ user @ '':'' @ pw @ ''@'' @ rest) =
    replacing keyValuePasswordPattern
      (scheme @ ''://'' @ user @ '':'' @ RedactionMarker @ ''@'' @ replacing urlPasswordPattern rest)"
proof -
  let ?url = "''://'' @ user @ '':'' @ pw @ ''@'' @ rest"
  have "replacing urlPasswordPattern (scheme @ ?url) = scheme @ replacing urlPasswordPattern ?url"
    by (rule replacing_skip, rule url_needs_colon) (use assms(1) in auto)
  moreover have "replacing urlPasswordPattern ?url =
      (''://'' @ user @ '':'' @ RedactionMarker @ ''@'') @ replacing urlPasswordPattern rest"
    by (rule replacing_at, rule url_match [OF assms(2,3)]) simp_all
  ultimately show ?thesis by (simp add: RedactDSN_def)
qed

lemma redacted_plain: "fail_sqlstate (redactedError e pw) = None"
  by (simp add: redactedError_def errors_New_def Let_def)

end
