(* ===== verification/Session.thy ===== *)
theory Session
  imports Redaction
begin

text \<open>
  A connection of the adapter outside a unit of work: calls on a server, one after the other.
  Every call may fail, with or without having taken effect, and other sessions may change the
  server before it. The type of what the server keeps is left to the component that calls it.
\<close>

section \<open>Calls\<close>

text \<open>
  A session: every call may fail, with or without having taken effect, and other sessions may
  change the server before it. \<open>se_messages\<close> is what the server says of a condition.
\<close>

record 'v session =
  se_server :: 'v
  se_calls :: nat
  se_faults :: "nat \<Rightarrow> (failure \<times> bool) option"
  se_others :: "nat \<Rightarrow> 'v \<Rightarrow> 'v"
  se_messages :: "string \<Rightarrow> string"

type_synonym ('v, 'a) calls = "'v session \<Rightarrow> (failure + 'a) \<times> 'v session"

definition returning :: "'a \<Rightarrow> ('v, 'a) calls" where
  "returning x s = (Inr x, s)"

definition failing_with :: "failure \<Rightarrow> ('v, 'a) calls" where
  "failing_with e s = (Inl e, s)"

definition andThen :: "('v, 'a) calls \<Rightarrow> ('a \<Rightarrow> ('v, 'b) calls) \<Rightarrow> ('v, 'b) calls" where
  "andThen m f s = (case m s of (Inl e, s') \<Rightarrow> (Inl e, s') | (Inr x, s') \<Rightarrow> f x s')"

definition saying :: "string \<Rightarrow> ('v, 'a) calls \<Rightarrow> ('v, 'a) calls" where
  "saying what m s = (case m s of (Inl e, s') \<Rightarrow> (Inl (wrapping what e), s') | (Inr x, s') \<Rightarrow> (Inr x, s'))"

text \<open>A call while nobody else can change what it touches, and a call after others have had a turn.\<close>

definition call_alone :: "('v \<Rightarrow> (failure + 'a) \<times> 'v) \<Rightarrow> ('v, 'a) calls" where
  "call_alone f s =
     (let s' = s\<lparr>se_calls := Suc (se_calls s)\<rparr> in
      case f (se_server s) of (r, v) \<Rightarrow>
        (case se_faults s (se_calls s) of
           None \<Rightarrow> (r, s'\<lparr>se_server := v\<rparr>)
         | Some (e, took) \<Rightarrow> (Inl e, if took then s'\<lparr>se_server := v\<rparr> else s')))"

definition others_turn :: "'v session \<Rightarrow> 'v session" where
  "others_turn s = s\<lparr>se_server := se_others s (se_calls s) (se_server s)\<rparr>"

definition calling_server :: "('v \<Rightarrow> (failure + 'a) \<times> 'v) \<Rightarrow> ('v, 'a) calls" where
  "calling_server f s = call_alone f (others_turn s)"

definition reading :: "('v \<Rightarrow> failure + 'a) \<Rightarrow> ('v, 'a) calls" where
  "reading g = calling_server (\<lambda>v. (g v, v))"

definition connecting :: "('v, unit) calls" where
  "connecting = reading (\<lambda>_. Inr ())"

definition server_error :: "string \<Rightarrow> 'v session \<Rightarrow> failure" where
  "server_error sqlstate s = \<lparr>fail_text = se_messages s sqlstate, fail_sqlstate = Some sqlstate\<rparr>"

definition ErrNoRows :: failure where
  "ErrNoRows = errors_New ''no rows in result set''"

text \<open>An error that leaves the adapter is redacted.\<close>

definition redacting :: "Secret \<Rightarrow> ('v, 'a) calls \<Rightarrow> ('v, 'a) calls" where
  "redacting appPassword m s =
     (case m s of (Inl e, s') \<Rightarrow> (Inl (redactedError e appPassword), s') | (Inr x, s') \<Rightarrow> (Inr x, s'))"

section \<open>Calls that keep an invariant of the server\<close>

definition steady_others :: "('v \<Rightarrow> bool) \<Rightarrow> 'v session \<Rightarrow> bool" where
  "steady_others I s \<longleftrightarrow> (\<forall>n v. I v \<longrightarrow> I (se_others s n v))"

definition ensures :: "('v \<Rightarrow> bool) \<Rightarrow> ('v, 'a) calls \<Rightarrow> ('a \<Rightarrow> bool) \<Rightarrow> bool" where
  "ensures I m Q \<longleftrightarrow> (\<forall>s. I (se_server s) \<and> steady_others I s \<longrightarrow>
     I (se_server (snd (m s))) \<and> steady_others I (snd (m s)) \<and> (\<forall>x. fst (m s) = Inr x \<longrightarrow> Q x))"

named_theorems ensure_intros \<open>rules that a call keeps an invariant of the server\<close>

lemma ensuresD:
  assumes "ensures I m Q" and "I (se_server s)" and "steady_others I s" and "m s = (r, s')"
  shows "I (se_server s')" and "steady_others I s'" and "r = Inr x \<Longrightarrow> Q x"
proof -
  have "I (se_server (snd (m s))) \<and> steady_others I (snd (m s)) \<and> (\<forall>x. fst (m s) = Inr x \<longrightarrow> Q x)"
    using assms(1-3) by (simp add: ensures_def)
  then show "I (se_server s')" "steady_others I s'" "r = Inr x \<Longrightarrow> Q x" using assms(4) by simp_all
qed

lemma ensuresI:
  assumes "\<And>s r s'. I (se_server s) \<Longrightarrow> steady_others I s \<Longrightarrow> m s = (r, s') \<Longrightarrow>
    I (se_server s') \<and> steady_others I s' \<and> (\<forall>x. r = Inr x \<longrightarrow> Q x)"
  shows "ensures I m Q"
  unfolding ensures_def
proof (intro allI impI)
  fix s assume "I (se_server s) \<and> steady_others I s"
  then show "I (se_server (snd (m s))) \<and> steady_others I (snd (m s)) \<and> (\<forall>x. fst (m s) = Inr x \<longrightarrow> Q x)"
    using assms [of s "fst (m s)" "snd (m s)"] by simp
qed

lemma ensures_returning [ensure_intros]: "Q x \<Longrightarrow> ensures I (returning x) Q"
  by (simp add: ensures_def returning_def)

lemma ensures_failing [ensure_intros]: "ensures I (failing_with e) Q"
  by (simp add: ensures_def failing_with_def)

lemma ensures_andThen:
  assumes "ensures I m P" and "\<And>x. P x \<Longrightarrow> ensures I (f x) Q"
  shows "ensures I (andThen m f) Q"
proof (rule ensuresI)
  fix s r s' assume s: "I (se_server s)" "steady_others I s" and run: "andThen m f s = (r, s')"
  obtain a t where t: "m s = (a, t)" by (cases "m s")
  note m = ensuresD [OF assms(1) s t]
  show "I (se_server s') \<and> steady_others I s' \<and> (\<forall>x. r = Inr x \<longrightarrow> Q x)"
  proof (cases a)
    case (Inl e)
    then show ?thesis using run t m(1,2) by (auto simp: andThen_def)
  next
    case (Inr x)
    then have "f x t = (r, s')" using run t by (simp add: andThen_def)
    then show ?thesis using ensuresD [OF assms(2) [OF m(3) [OF Inr]] m(1,2)] by blast
  qed
qed

lemma ensures_andThen_any [ensure_intros]:
  "ensures I m (\<lambda>_. True) \<Longrightarrow> (\<And>x. ensures I (f x) Q) \<Longrightarrow> ensures I (andThen m f) Q"
  by (rule ensures_andThen)

lemma ensures_case_prod [ensure_intros]:
  "(\<And>a b. ensures I (f a b) Q) \<Longrightarrow> ensures I (case p of (a, b) \<Rightarrow> f a b) Q"
  by (cases p) simp

lemma ensures_if [ensure_intros]:
  "(c \<Longrightarrow> ensures I m Q) \<Longrightarrow> (\<not> c \<Longrightarrow> ensures I n Q) \<Longrightarrow> ensures I (if c then m else n) Q"
  by simp

lemma ensures_saying [ensure_intros]: "ensures I m Q \<Longrightarrow> ensures I (saying what m) Q"
  by (auto simp: ensures_def saying_def split: prod.splits sum.splits)

lemma ensures_redacting [ensure_intros]: "ensures I m Q \<Longrightarrow> ensures I (redacting pw m) Q"
  by (auto simp: ensures_def redacting_def split: prod.splits sum.splits)

lemma others_turn_keeps:
  "I (se_server s) \<Longrightarrow> steady_others I s \<Longrightarrow> I (se_server (others_turn s)) \<and> steady_others I (others_turn s)"
  by (simp add: others_turn_def steady_others_def)

lemma ensures_call_alone:
  assumes "\<And>v r v'. I v \<Longrightarrow> f v = (r, v') \<Longrightarrow> I v' \<and> (\<forall>x. r = Inr x \<longrightarrow> Q x)"
  shows "ensures I (call_alone f) Q"
proof (rule ensuresI)
  fix s r s' assume s: "I (se_server s)" "steady_others I s" and run: "call_alone f s = (r, s')"
  obtain a v where v: "f (se_server s) = (a, v)" by (cases "f (se_server s)")
  show "I (se_server s') \<and> steady_others I s' \<and> (\<forall>x. r = Inr x \<longrightarrow> Q x)"
    using assms [OF s(1) v] s run v
    by (auto simp: call_alone_def steady_others_def Let_def split: option.splits prod.splits if_splits)
qed

lemma ensures_calling_server:
  assumes "\<And>v r v'. I v \<Longrightarrow> f v = (r, v') \<Longrightarrow> I v' \<and> (\<forall>x. r = Inr x \<longrightarrow> Q x)"
  shows "ensures I (calling_server f) Q"
proof (rule ensuresI)
  fix s r s' assume s: "I (se_server s)" "steady_others I s" and run: "calling_server f s = (r, s')"
  have t: "I (se_server (others_turn s)) \<and> steady_others I (others_turn s)" using s by (rule others_turn_keeps)
  have "ensures I (call_alone f) Q" using assms by (rule ensures_call_alone)
  from ensuresD [OF this _ _ run [unfolded calling_server_def]] t
  show "I (se_server s') \<and> steady_others I s' \<and> (\<forall>x. r = Inr x \<longrightarrow> Q x)" by blast
qed

lemma ensures_reading:
  assumes "\<And>v x. I v \<Longrightarrow> g v = Inr x \<Longrightarrow> Q x"
  shows "ensures I (reading g) Q"
  unfolding reading_def by (rule ensures_calling_server) (use assms in auto)

lemma ensures_reading_any [ensure_intros]: "ensures I (reading g) (\<lambda>_. True)"
  by (rule ensures_reading) simp

lemma ensures_reading_session [ensure_intros]: "ensures I (\<lambda>s. reading (g s) s) (\<lambda>_. True)"
  unfolding ensures_def using ensures_reading_any [unfolded ensures_def] by blast

lemma andThen_Inr: "andThen m f s = (Inr y, s') \<Longrightarrow> \<exists>x t. m s = (Inr x, t) \<and> f x t = (Inr y, s')"
  by (auto simp: andThen_def split: prod.splits sum.splits)

lemma andThen_InrE:
  assumes "andThen m f s = (Inr y, s')"
  obtains x t where "m s = (Inr x, t)" and "f x t = (Inr y, s')"
  using andThen_Inr [OF assms] by blast

lemma saying_Inr: "saying what m s = (Inr x, s') \<Longrightarrow> m s = (Inr x, s')"
  by (auto simp: saying_def split: prod.splits sum.splits)

lemma calling_server_Inr:
  "calling_server f s = (Inr x, s') \<Longrightarrow> f (se_server (others_turn s)) = (Inr x, se_server s')"
  by (auto simp: calling_server_def call_alone_def Let_def split: prod.splits option.splits)

lemma reading_Inr: "reading g s = (Inr x, s') \<Longrightarrow> g (se_server s') = Inr x"
  by (auto simp: reading_def dest!: calling_server_Inr)

end
