(* ===== verification/Migration.thy ===== *)
theory Migration
  imports Redaction
begin

text \<open>
  \<open>internal/adapters/postgres/migrate_plan.go\<close>: the pure decision whether a database may be
  migrated, and which versions are pending (\<open>migrate_exec.go\<close>).
\<close>

section \<open>Facts and plans\<close>

text \<open>Go's \<open>uint\<close> on a 64-bit platform.\<close>

type_synonym go_uint = "64 word"

record Facts =
  TargetDatabase :: string
  HasLedgerSchema :: bool
  DirtyVersion :: "go_uint option"
  RoleExists :: bool
  RoleOwnerMarker :: string
  OwnerDatabaseExists :: bool
  CanCreateRole :: bool
  HasAdminOptionOnRole :: bool
  OwnsDatabaseOrGrant :: bool
  CanCreateOnPublic :: bool
  OwnsLedgerTables :: bool
  PendingVersions :: "go_uint list"

record MigrateConfig =
  PrivilegedDSN :: Secret
  AppPassword :: Secret

datatype Step = ClaimRole | ApplySchema | SetAppRolePassword

record Plan =
  Steps :: "Step list"
  Refusal :: string
  Privilege :: string
  NoChanges :: bool

definition Refused :: "Plan \<Rightarrow> bool" where
  "Refused plan \<longleftrightarrow> Refusal plan \<noteq> []"

section \<open>The checks\<close>

definition privilegeConnect :: string where "privilegeConnect = ''CONNECT''"
definition privilegeCreate :: string where "privilegeCreate = ''CREATE on schema public''"
definition privilegeCreateRole :: string where "privilegeCreateRole = ''CREATEROLE''"
definition privilegeAdminOpt :: string where "privilegeAdminOpt = ''ADMIN OPTION on ledgerops_app''"
definition privilegeOwner :: string where "privilegeOwner = ''table owner''"
definition noChangesSuffix :: string where "noChangesSuffix = ''; no changes applied''"

definition refusing :: "string \<Rightarrow> string \<Rightarrow> Plan" where
  "refusing why privilege = \<lparr>Steps = [], Refusal = why @ noChangesSuffix, Privilege = privilege, NoChanges = True\<rparr>"

definition refuseMissing :: "string \<Rightarrow> string \<Rightarrow> Plan option" where
  "refuseMissing privilege because =
     Some (refusing (''the privileged role lacks '' @ privilege @ '': '' @ because) privilege)"

definition requireNoUnfinishedMigration :: "Facts \<Rightarrow> Plan option" where
  "requireNoUnfinishedMigration facts = (case DirtyVersion facts of
     None \<Rightarrow> None
   | Some v \<Rightarrow> Some (refusing (''migration '' @ dec_text (unat v) @
       '' is unfinished (dirty): a previous run was interrupted; restore from backup or repair schema_migrations by hand'')
       []))"

definition ownerMarkerPrefix :: string where
  "ownerMarkerPrefix = ''ledgerops-owner-database=''"

definition OwnerMarker :: "string \<Rightarrow> string" where
  "OwnerMarker database = ownerMarkerPrefix @ database"

definition markedOwner :: "string \<Rightarrow> string" where
  "markedOwner marker =
     (if length marker \<le> length ownerMarkerPrefix \<or> take (length ownerMarkerPrefix) marker \<noteq> ownerMarkerPrefix
      then [] else drop (length ownerMarkerPrefix) marker)"

definition ClusterRuleRefusal :: "string \<Rightarrow> string \<Rightarrow> bool \<Rightarrow> Plan" where
  "ClusterRuleRefusal target marker ownerExists =
     (let owner = markedOwner marker;
          belongs = (if owner = [] then ''another ledgerops database in this cluster''
            else if ownerExists then ''database '' @ owner @ '' in this cluster''
            else ''database '' @ owner @ '', which no longer exists'')
      in refusing (''role ledgerops_app already belongs to '' @ belongs @
        ''; ledgerops allows one database per Postgres cluster. Migrate that database instead, put '' @ target @
        '' on a separate cluster, or, if that database is gone or unwanted, have a privileged user run DROP ROLE ledgerops_app'')
        [])"

definition requireOneLedgeropsDatabasePerCluster :: "Facts \<Rightarrow> Plan option" where
  "requireOneLedgeropsDatabasePerCluster facts =
     (if \<not> RoleExists facts \<or> HasLedgerSchema facts \<or> markedOwner (RoleOwnerMarker facts) = TargetDatabase facts
      then None
      else Some (ClusterRuleRefusal (TargetDatabase facts) (RoleOwnerMarker facts) (OwnerDatabaseExists facts)))"

definition requireConnectRight :: "Facts \<Rightarrow> Plan option" where
  "requireConnectRight facts =
     (if OwnsDatabaseOrGrant facts then None
      else refuseMissing privilegeConnect
        (''it neither owns database '' @ TargetDatabase facts @ '' nor may grant CONNECT on it''))"

definition requireCreateOnPublic :: "Facts \<Rightarrow> Plan option" where
  "requireCreateOnPublic facts =
     (if CanCreateOnPublic facts then None
      else refuseMissing privilegeCreate ''migrations create objects in the public schema'')"

definition requireCreateRoleWhenRoleAbsent :: "Facts \<Rightarrow> Plan option" where
  "requireCreateRoleWhenRoleAbsent facts =
     (if RoleExists facts \<or> CanCreateRole facts then None
      else refuseMissing privilegeCreateRole ''ledgerops_app does not exist and must be created'')"

definition requireAdminOptionWhenRoleExists :: "Facts \<Rightarrow> Plan option" where
  "requireAdminOptionWhenRoleExists facts =
     (if \<not> RoleExists facts \<or> HasAdminOptionOnRole facts then None
      else refuseMissing privilegeAdminOpt ''the app role password must be set on the existing ledgerops_app'')"

definition requireOwnershipOfTablesToAlter :: "Facts \<Rightarrow> Plan option" where
  "requireOwnershipOfTablesToAlter facts =
     (if PendingVersions facts = [] \<or> \<not> HasLedgerSchema facts \<or> OwnsLedgerTables facts then None
      else refuseMissing privilegeOwner ''it is not the owner of a ledger table the pending migrations alter'')"

definition preflightChecks :: "(Facts \<Rightarrow> Plan option) list" where
  "preflightChecks = [requireNoUnfinishedMigration, requireOneLedgeropsDatabasePerCluster, requireConnectRight,
     requireCreateOnPublic, requireCreateRoleWhenRoleAbsent, requireAdminOptionWhenRoleExists,
     requireOwnershipOfTablesToAlter]"

fun first_refusal :: "(Facts \<Rightarrow> Plan option) list \<Rightarrow> Facts \<Rightarrow> Plan option" where
  "first_refusal [] facts = None"
| "first_refusal (check # checks) facts =
     (case check facts of Some refusal \<Rightarrow> Some refusal | None \<Rightarrow> first_refusal checks facts)"

definition PlanMigration :: "Facts \<Rightarrow> MigrateConfig \<Rightarrow> Plan" where
  "PlanMigration facts config = (case first_refusal preflightChecks facts of
     Some refusal \<Rightarrow> refusal
   | None \<Rightarrow> \<lparr>Steps = [ClaimRole, ApplySchema, SetAppRolePassword], Refusal = [], Privilege = [], NoChanges = False\<rparr>)"

section \<open>Pending versions\<close>

text \<open>The embedded directory, in the order \<open>ReadDir\<close> lists it.\<close>

definition migrationFiles :: "string list" where
  "migrationFiles = [''0001_init.down.sql'', ''0001_init.up.sql'', ''0002_idempotency.down.sql'',
     ''0002_idempotency.up.sql'', ''0003_tenants.down.sql'', ''0003_tenants.up.sql'',
     ''0004_tenant_links.down.sql'', ''0004_tenant_links.up.sql'',
     ''0005_counterparty_aliases_and_transfer_state.down.sql'',
     ''0005_counterparty_aliases_and_transfer_state.up.sql'',
     ''0006_transfer_state_leg_details.down.sql'', ''0006_transfer_state_leg_details.up.sql'']"

text \<open>\<open>strconv.ParseUint\<close> in base 10 of at most 32 bits.\<close>

definition ParseUint32 :: "string \<Rightarrow> nat option" where
  "ParseUint32 s = (if s = [] \<or> \<not> list_all is_digit s \<or> 2 ^ 32 \<le> dec_value s then None else Some (dec_value s))"

definition up_version :: "string \<Rightarrow> go_uint option" where
  "up_version name =
     (let digits = takeWhile (\<lambda>c. c \<noteq> CHR ''_'') name
      in if digits = name \<or> \<not> suffix ''.up.sql'' name then None
         else map_option of_nat (ParseUint32 digits))"

definition pendingVersionsAfter :: "go_uint \<Rightarrow> go_uint list" where
  "pendingVersionsAfter current =
     filter (\<lambda>v. current < v) (List.map_filter up_version migrationFiles)"

text \<open>A right is kept when both the catalog and the probe grant it.\<close>

definition mergeProbed :: "Facts \<Rightarrow> Facts \<Rightarrow> Facts" where
  "mergeProbed read probed = read
     \<lparr>CanCreateRole := CanCreateRole read \<and> CanCreateRole probed,
      CanCreateOnPublic := CanCreateOnPublic read \<and> CanCreateOnPublic probed\<rparr>"

section \<open>What a plan says\<close>

text \<open>A refusal names its reason, says that nothing was changed, and has no steps.\<close>

definition refusal_plan :: "Plan \<Rightarrow> bool" where
  "refusal_plan p \<longleftrightarrow> Refused p \<and> NoChanges p \<and> Steps p = [] \<and> suffix noChangesSuffix (Refusal p)"

lemma refusal_refusing [simp]: "refusal_plan (refusing why p)"
  by (simp add: refusal_plan_def refusing_def Refused_def suffix_def) (simp add: noChangesSuffix_def)

lemma markedOwner_OwnerMarker [simp]: "markedOwner (OwnerMarker d) = d"
  by (simp add: markedOwner_def OwnerMarker_def ownerMarkerPrefix_def)

text \<open>What a database must allow, as one condition.\<close>

definition migratable :: "Facts \<Rightarrow> bool" where
  "migratable facts \<longleftrightarrow>
     DirtyVersion facts = None \<and>
     (RoleExists facts \<longrightarrow> HasLedgerSchema facts \<or> markedOwner (RoleOwnerMarker facts) = TargetDatabase facts) \<and>
     OwnsDatabaseOrGrant facts \<and> CanCreateOnPublic facts \<and>
     (if RoleExists facts then HasAdminOptionOnRole facts else CanCreateRole facts) \<and>
     (PendingVersions facts \<noteq> [] \<and> HasLedgerSchema facts \<longrightarrow> OwnsLedgerTables facts)"

lemmas check_defs = requireNoUnfinishedMigration_def requireOneLedgeropsDatabasePerCluster_def
  requireConnectRight_def requireCreateOnPublic_def requireCreateRoleWhenRoleAbsent_def
  requireAdminOptionWhenRoleExists_def requireOwnershipOfTablesToAlter_def

lemma first_refusal_None: "first_refusal cs facts = None \<longleftrightarrow> (\<forall>c \<in> set cs. c facts = None)"
  by (induction cs) (auto split: option.splits)

lemma first_refusal_Some: "first_refusal cs facts = Some p \<Longrightarrow> \<exists>c \<in> set cs. c facts = Some p"
  by (induction cs) (auto split: option.splits)

lemma checks_pass: "first_refusal preflightChecks facts = None \<longleftrightarrow> migratable facts"
  unfolding first_refusal_None
  by (auto simp: preflightChecks_def check_defs refuseMissing_def migratable_def split: option.splits if_splits)

lemma checks_refuse:
  assumes "c \<in> set preflightChecks" and "c facts = Some p"
  shows "refusal_plan p"
  using assms
  by (auto simp: preflightChecks_def check_defs refuseMissing_def ClusterRuleRefusal_def Let_def
      simp del: append_Cons split: option.splits if_splits)

lemma PlanMigration_cases:
  "if migratable facts
   then PlanMigration facts config =
     \<lparr>Steps = [ClaimRole, ApplySchema, SetAppRolePassword], Refusal = [], Privilege = [], NoChanges = False\<rparr>
   else refusal_plan (PlanMigration facts config)"
proof (cases "first_refusal preflightChecks facts")
  case None
  then show ?thesis by (simp add: PlanMigration_def flip: checks_pass)
next
  case (Some p)
  then obtain c where "c \<in> set preflightChecks" "c facts = Some p" using first_refusal_Some by blast
  then have "refusal_plan p" by (rule checks_refuse)
  then show ?thesis using Some by (simp add: PlanMigration_def flip: checks_pass)
qed

lemma parse_prefixes:
  "ParseUint32 ''0001'' = Some 1" "ParseUint32 ''0002'' = Some 2" "ParseUint32 ''0003'' = Some 3"
  "ParseUint32 ''0004'' = Some 4" "ParseUint32 ''0005'' = Some 5" "ParseUint32 ''0006'' = Some 6"
  by (simp_all add: ParseUint32_def dec_value_def is_digit_def digit_val_def)

lemma up_versions:
  "up_version ''0001_init.down.sql'' = None" "up_version ''0001_init.up.sql'' = Some 1"
  "up_version ''0002_idempotency.down.sql'' = None" "up_version ''0002_idempotency.up.sql'' = Some 2"
  "up_version ''0003_tenants.down.sql'' = None" "up_version ''0003_tenants.up.sql'' = Some 3"
  "up_version ''0004_tenant_links.down.sql'' = None" "up_version ''0004_tenant_links.up.sql'' = Some 4"
  "up_version ''0005_counterparty_aliases_and_transfer_state.down.sql'' = None"
  "up_version ''0005_counterparty_aliases_and_transfer_state.up.sql'' = Some 5"
  "up_version ''0006_transfer_state_leg_details.down.sql'' = None"
  "up_version ''0006_transfer_state_leg_details.up.sql'' = Some 6"
  by (simp_all add: up_version_def parse_prefixes suffix_Cons suffix_def)

text \<open>The six migrations of the program are pending on a fresh database, none at head.\<close>

lemma pending_examples:
  "pendingVersionsAfter 0 = [1, 2, 3, 4, 5, 6]" "pendingVersionsAfter 4 = [5, 6]" "pendingVersionsAfter 6 = []"
  by (simp_all add: pendingVersionsAfter_def migrationFiles_def map_filter_simps up_versions)

end
