(* ===== verification/Scram.thy ===== *)
theory Scram
  imports Redaction
begin

text \<open>
  \<open>internal/adapters/postgres/scram.go\<close>: the SCRAM-SHA-256 verifier that \<open>migrate\<close> sets as the
  password of the application role. Texts are UTF-8 bytes, as Go keeps them. SHA-256, the NFKC
  normal form and the check of prohibited characters are parameters.
\<close>

unbundle bit_operations_syntax

type_synonym byte = "8 word"

record primitives =
  sha256 :: "byte list \<Rightarrow> byte list"
  nfkc :: "string \<Rightarrow> string"
  opaque_ok :: "string \<Rightarrow> bool"

definition bytes_of :: "string \<Rightarrow> byte list" where
  "bytes_of s = map of_char s"

definition text_of :: "byte list \<Rightarrow> string" where
  "text_of bs = map (\<lambda>b. char_of (unat b)) bs"

section \<open>Runes\<close>

text \<open>
  The runes of a text as \<open>range\<close> and \<open>strings.Map\<close> read them: a byte that begins no well-formed
  sequence is U+FFFD.
\<close>

definition cont :: "nat \<Rightarrow> bool" where
  "cont b \<longleftrightarrow> 128 \<le> b \<and> b \<le> 191"

definition lead2 :: "nat \<Rightarrow> bool" where
  "lead2 b \<longleftrightarrow> 194 \<le> b \<and> b \<le> 223"

definition second3 :: "nat \<Rightarrow> nat \<Rightarrow> bool" where
  "second3 b c \<longleftrightarrow> 224 \<le> b \<and> b \<le> 239 \<and> (if b = 224 then 160 else 128) \<le> c \<and> c \<le> (if b = 237 then 159 else 191)"

definition second4 :: "nat \<Rightarrow> nat \<Rightarrow> bool" where
  "second4 b c \<longleftrightarrow> 240 \<le> b \<and> b \<le> 244 \<and> (if b = 240 then 144 else 128) \<le> c \<and> c \<le> (if b = 244 then 143 else 191)"

fun runes :: "nat list \<Rightarrow> nat list" where
  "runes [] = []"
| "runes (b # bs) =
     (if b < 128 then b # runes bs
      else case bs of
        [] \<Rightarrow> [65533]
      | c # cs \<Rightarrow>
          if lead2 b \<and> cont c then ((b - 192) * 64 + (c - 128)) # runes cs
          else (case cs of
            [] \<Rightarrow> 65533 # runes bs
          | d # ds \<Rightarrow>
              if second3 b c \<and> cont d then ((b - 224) * 4096 + (c - 128) * 64 + (d - 128)) # runes ds
              else (case ds of
                [] \<Rightarrow> 65533 # runes bs
              | e # es \<Rightarrow>
                  if second4 b c \<and> cont d \<and> cont e
                  then ((b - 240) * 262144 + (c - 128) * 4096 + (d - 128) * 64 + (e - 128)) # runes es
                  else 65533 # runes bs)))"

definition encode_rune :: "nat \<Rightarrow> nat list" where
  "encode_rune r =
     (if r < 128 then [r]
      else if r < 2048 then [192 + r div 64, 128 + r mod 64]
      else if r < 65536 then [224 + r div 4096, 128 + r div 64 mod 64, 128 + r mod 64]
      else [240 + r div 262144, 128 + r div 4096 mod 64, 128 + r div 64 mod 64, 128 + r mod 64])"

text \<open>\<open>strings.Map\<close> with a mapping that keeps, replaces or drops (\<open>None\<close>) a rune.\<close>

definition strings_Map :: "(nat \<Rightarrow> nat option) \<Rightarrow> string \<Rightarrow> string" where
  "strings_Map f s =
     map char_of (concat (map (\<lambda>r. case f r of None \<Rightarrow> [] | Some r' \<Rightarrow> encode_rune r') (runes (map of_char s))))"

section \<open>SASLprep\<close>

definition isASCII :: "string \<Rightarrow> bool" where
  "isASCII s \<longleftrightarrow> list_all (\<lambda>c. (of_char c :: nat) < 128) s"

text \<open>The category Zs.\<close>

definition is_Zs :: "nat \<Rightarrow> bool" where
  "is_Zs r \<longleftrightarrow> r \<in> {32, 160, 5760, 8239, 8287, 12288} \<or> (8192 \<le> r \<and> r \<le> 8202)"

definition mapForSASLprep :: "nat \<Rightarrow> nat option" where
  "mapForSASLprep r =
     (if is_Zs r then Some 32
      else if r \<in> {0x00AD, 0x034F, 0x1806, 0x2060, 0xFEFF} \<or> (0x180B \<le> r \<and> r \<le> 0x180D) \<or>
        (0x200B \<le> r \<and> r \<le> 0x200D) \<or> (0xFE00 \<le> r \<and> r \<le> 0xFE0F) then None
      else Some r)"

definition saslPrep :: "primitives \<Rightarrow> string \<Rightarrow> string" where
  "saslPrep P password =
     (if isASCII password then password
      else let normalized = nfkc P (strings_Map mapForSASLprep password)
        in if opaque_ok P normalized then normalized else password)"

section \<open>Keys\<close>

definition xor_bytes :: "byte list \<Rightarrow> byte list \<Rightarrow> byte list" where
  "xor_bytes = map2 (XOR)"

text \<open>HMAC of \<open>crypto/hmac\<close>, whose block of SHA-256 has 64 bytes.\<close>

definition hmacSHA256 :: "primitives \<Rightarrow> byte list \<Rightarrow> byte list \<Rightarrow> byte list" where
  "hmacSHA256 P key message =
     (let k = (if 64 < length key then sha256 P key else key);
          block = k @ replicate (64 - length k) 0
      in sha256 P (map (\<lambda>b. b XOR 0x5C) block @ sha256 P (map (\<lambda>b. b XOR 0x36) block @ message)))"

definition scramKeyLength :: nat where
  "scramKeyLength = 32"

text \<open>The loop over \<open>i = 1 .. iterations - 1\<close>.\<close>

fun pbkdf2_loop :: "(byte list \<Rightarrow> byte list) \<Rightarrow> nat \<Rightarrow> byte list \<Rightarrow> byte list \<Rightarrow> byte list" where
  "pbkdf2_loop keyed 0 u derived = derived"
| "pbkdf2_loop keyed (Suc n) u derived =
     (let u' = keyed u
      in pbkdf2_loop keyed n u' (xor_bytes (take scramKeyLength derived) u' @ drop scramKeyLength derived))"

definition pbkdf2SHA256 :: "primitives \<Rightarrow> byte list \<Rightarrow> byte list \<Rightarrow> int \<Rightarrow> byte list" where
  "pbkdf2SHA256 P password salt iterations =
     (let u = hmacSHA256 P password (salt @ [0, 0, 0, 1])
      in pbkdf2_loop (hmacSHA256 P password) (nat (iterations - 1)) u u)"

section \<open>The verifier\<close>

definition base64_char :: "nat \<Rightarrow> char" where
  "base64_char n = ''ABCDEFGHIJKLMNOPQRSTUVWXYZabcdefghijklmnopqrstuvwxyz0123456789+/'' ! n"

text \<open>\<open>base64.StdEncoding\<close>.\<close>

fun base64 :: "nat list \<Rightarrow> string" where
  "base64 [] = []"
| "base64 [a] = [base64_char (a div 4), base64_char (a mod 4 * 16), CHR ''='', CHR ''='']"
| "base64 [a, b] = [base64_char (a div 4), base64_char (a mod 4 * 16 + b div 16), base64_char (b mod 16 * 4), CHR ''='']"
| "base64 (a # b # c # s) =
     base64_char (a div 4) # base64_char (a mod 4 * 16 + b div 16) # base64_char (b mod 16 * 4 + c div 64) #
     base64_char (c mod 64) # base64 s"

definition EncodeToString :: "byte list \<Rightarrow> string" where
  "EncodeToString bs = base64 (map unat bs)"

record scram_keys =
  storedKey :: "byte list"
  serverKey :: "byte list"

definition keys_for :: "primitives \<Rightarrow> string \<Rightarrow> byte list \<Rightarrow> int \<Rightarrow> scram_keys" where
  "keys_for P password salt iterations =
     (let salted = pbkdf2SHA256 P (bytes_of (saslPrep P password)) salt iterations
      in \<lparr>storedKey = sha256 P (hmacSHA256 P salted (bytes_of ''Client Key'')),
         serverKey = hmacSHA256 P salted (bytes_of ''Server Key'')\<rparr>)"

definition BuildSCRAMVerifier :: "primitives \<Rightarrow> Secret \<Rightarrow> byte list \<Rightarrow> int \<Rightarrow> string" where
  "BuildSCRAMVerifier P password salt iterations =
     (let ks = keys_for P (Reveal password) salt iterations
      in ''SCRAM-SHA-256$'' @
         (if iterations < 0 then CHR ''-'' # dec_text (nat (- iterations)) else dec_text (nat iterations)) @ '':'' @
         EncodeToString salt @ ''$'' @ EncodeToString (storedKey ks) @ '':'' @ EncodeToString (serverKey ks))"

section \<open>What it computes\<close>

lemma saslPrep_ascii: "isASCII s \<Longrightarrow> saslPrep P s = s"
  by (simp add: saslPrep_def)

lemma xor_bytes_length: "length (xor_bytes a b) = min (length a) (length b)"
  by (simp add: xor_bytes_def)

lemma xor_bytes_twice:
  assumes "length a = length b"
  shows "xor_bytes (xor_bytes a b) b = a"
  using assms by (induction a b rule: list_induct2) (simp_all add: xor_bytes_def xor.assoc)

text \<open>The specification of RFC 8018: the exclusive or of the iterates of the keyed hash.\<close>

definition iterate_of :: "(byte list \<Rightarrow> byte list) \<Rightarrow> byte list \<Rightarrow> nat \<Rightarrow> byte list" where
  "iterate_of keyed start n = (keyed ^^ n) start"

definition pbkdf2_block :: "(byte list \<Rightarrow> byte list) \<Rightarrow> byte list \<Rightarrow> nat \<Rightarrow> byte list" where
  "pbkdf2_block keyed start n = foldl xor_bytes start (map (iterate_of keyed start) [1..<Suc n])"

lemma pbkdf2_block_length:
  assumes "\<And>m. length (keyed m) = k" and "length start = k"
  shows "length (pbkdf2_block keyed start n) = k"
proof (induction n)
  case (Suc n)
  have "length (iterate_of keyed start (Suc n)) = k" using assms(1) by (simp add: iterate_of_def)
  then show ?case using Suc by (simp add: pbkdf2_block_def xor_bytes_length)
qed (simp add: pbkdf2_block_def assms(2))

lemma pbkdf2_loop_block:
  assumes "\<And>m. length (keyed m) = scramKeyLength" and "length start = scramKeyLength"
  shows "pbkdf2_loop keyed n (iterate_of keyed start i) (pbkdf2_block keyed start i) = pbkdf2_block keyed start (i + n)"
proof (induction n arbitrary: i)
  case (Suc n)
  have l: "length (pbkdf2_block keyed start i) = scramKeyLength" using assms by (rule pbkdf2_block_length)
  have "xor_bytes (pbkdf2_block keyed start i) (iterate_of keyed start (Suc i)) = pbkdf2_block keyed start (Suc i)"
    by (simp add: pbkdf2_block_def)
  moreover have "keyed (iterate_of keyed start i) = iterate_of keyed start (Suc i)" by (simp add: iterate_of_def)
  ultimately show ?case using Suc.IH [of "Suc i"] l by simp
qed simp

lemma hmac_length: "(\<And>m. length (sha256 P m) = scramKeyLength) \<Longrightarrow> length (hmacSHA256 P key m) = scramKeyLength"
  by (simp add: hmacSHA256_def Let_def)

lemma pbkdf2_is_rfc8018:
  assumes "\<And>m. length (sha256 P m) = scramKeyLength" and "1 \<le> iterations"
  shows "pbkdf2SHA256 P password salt iterations =
    pbkdf2_block (hmacSHA256 P password) (hmacSHA256 P password (salt @ [0, 0, 0, 1])) (nat iterations - 1)"
proof -
  let ?keyed = "hmacSHA256 P password" and ?u = "hmacSHA256 P password (salt @ [0, 0, 0, 1])"
  have start: "iterate_of ?keyed ?u 0 = ?u" "pbkdf2_block ?keyed ?u 0 = ?u"
    by (simp_all add: iterate_of_def pbkdf2_block_def)
  have "nat (iterations - 1) = nat iterations - 1" using assms(2) by simp
  then show ?thesis
    using pbkdf2_loop_block [of ?keyed ?u "nat iterations - 1" 0] hmac_length [OF assms(1)] start
    by (simp add: pbkdf2SHA256_def)
qed

text \<open>
  The exchange of RFC 5802: the client proves that it has the client key by masking it with a
  signature over the authentication message, the server unmasks it and hashes it. A server that
  keeps the keys of the verifier accepts who knows the password.
\<close>

definition client_proof :: "primitives \<Rightarrow> string \<Rightarrow> byte list \<Rightarrow> int \<Rightarrow> byte list \<Rightarrow> byte list" where
  "client_proof P password salt iterations auth_message =
     (let clientKey = hmacSHA256 P (pbkdf2SHA256 P (bytes_of (saslPrep P password)) salt iterations) (bytes_of ''Client Key'')
      in xor_bytes clientKey (hmacSHA256 P (sha256 P clientKey) auth_message))"

definition server_accepts :: "primitives \<Rightarrow> scram_keys \<Rightarrow> byte list \<Rightarrow> byte list \<Rightarrow> bool" where
  "server_accepts P ks auth_message proof_bytes \<longleftrightarrow>
     sha256 P (xor_bytes proof_bytes (hmacSHA256 P (storedKey ks) auth_message)) = storedKey ks"

lemma verifier_accepts_password:
  assumes "\<And>m. length (sha256 P m) = scramKeyLength"
  shows "server_accepts P (keys_for P password salt iterations) auth_message
    (client_proof P password salt iterations auth_message)"
  using hmac_length [OF assms]
  by (simp add: server_accepts_def keys_for_def client_proof_def Let_def xor_bytes_twice)

end
