(* ===== verification/Config.thy ===== *)
theory Config
  imports Scram
begin

text \<open>
  \<open>cmd/api/config.go\<close>: arguments and settings of the binary, as pure functions of the environment
  and of what the password file holds. \<open>LoadServeConfig\<close> and \<open>refuseIfMigrateDSNPresent\<close> are stubs that panic, and
  nothing calls them.
\<close>

section \<open>Arguments\<close>

datatype Command = CommandServe | CommandMigrate | CommandVersion

fun command_named :: "string \<Rightarrow> Command option" where
  "command_named s =
     (if s = ''serve'' then Some CommandServe
      else if s = ''migrate'' then Some CommandMigrate
      else if s = ''version'' then Some CommandVersion else None)"

text \<open>The two errors, with the texts they quote.\<close>

datatype usage_error = TakesNoArguments Command string | UnknownCommand string

fun ParseArgs :: "string list \<Rightarrow> usage_error + Command" where
  "ParseArgs [] = Inr CommandServe"
| "ParseArgs (a # rest) = (case command_named a of
     None \<Rightarrow> Inl (UnknownCommand a)
   | Some command \<Rightarrow> (case rest of [] \<Rightarrow> Inr command | b # _ \<Rightarrow> Inl (TakesNoArguments command b)))"

section \<open>Settings of migrate\<close>

type_synonym Env = "string \<rightharpoonup> string"

text \<open>\<open>os.Environ\<close>: entries are cut at the first equals sign, a later entry of a name wins.\<close>

fun environmentSnapshot :: "string list \<Rightarrow> Env" where
  "environmentSnapshot [] = Map.empty"
| "environmentSnapshot (e # es) =
     (let name = takeWhile (\<lambda>c. c \<noteq> CHR ''='') e
      in if name = e then environmentSnapshot es
         else ([name \<mapsto> drop (Suc (length name)) e]) ++ environmentSnapshot es)"

definition envMigrateDSN :: string where "envMigrateDSN = ''LEDGEROPS_MIGRATE_DSN''"
definition envAppPassword :: string where "envAppPassword = ''LEDGEROPS_APP_PASSWORD''"
definition envAppPasswordFile :: string where "envAppPasswordFile = ''LEDGEROPS_APP_PASSWORD_FILE''"

text \<open>\<open>strings.TrimSpace\<close> leaves nothing: every rune is white space of Unicode.\<close>

definition unicode_space :: "nat \<Rightarrow> bool" where
  "unicode_space r \<longleftrightarrow> (9 \<le> r \<and> r \<le> 13) \<or> r \<in> {0x85, 0x2028, 0x2029} \<or> is_Zs r"

definition blank :: "string \<Rightarrow> bool" where
  "blank s \<longleftrightarrow> list_all unicode_space (runes (map of_char s))"

record MigrateSettings =
  MigrateDSN :: Secret
  SettingsAppPassword :: Secret

definition nonBlankPassword :: "string \<Rightarrow> string + Secret" where
  "nonBlankPassword password =
     (if blank password
      then Inl (''set '' @ envAppPassword @ '' or '' @ envAppPasswordFile @ '' to a non-blank password'')
      else Inr (NewSecret password))"

definition stripOneTrailingLineEnding :: "string \<Rightarrow> string" where
  "stripOneTrailingLineEnding s =
     (if suffix [CHR 0x0D, CHR 0x0A] s then take (length s - 2) s
      else if suffix [CHR 0x0A] s then take (length s - 1) s else s)"

text \<open>The reader of the file answers its content or the text of an error.\<close>

definition readPasswordFile :: "string \<Rightarrow> (string \<Rightarrow> string + string) \<Rightarrow> string + Secret" where
  "readPasswordFile path readFile = (case readFile path of
     Inl e \<Rightarrow> Inl (''ledgerops_app_password file not readable: '' @ e)
   | Inr content \<Rightarrow> nonBlankPassword (stripOneTrailingLineEnding content))"

definition resolveAppPassword :: "Env \<Rightarrow> (string \<Rightarrow> string + string) \<Rightarrow> string + Secret" where
  "resolveAppPassword env readFile = (case (env envAppPassword, env envAppPasswordFile) of
     (Some inline, Some path) \<Rightarrow> Inl (''set only one of '' @ envAppPassword @ '' and '' @ envAppPasswordFile)
   | (None, Some path) \<Rightarrow> readPasswordFile path readFile
   | (Some inline, None) \<Rightarrow> nonBlankPassword inline
   | (None, None) \<Rightarrow> Inl (''set '' @ envAppPassword @ '' or '' @ envAppPasswordFile))"

text \<open>Every issue that is found, or the settings.\<close>

definition ParseMigrateConfig :: "Env \<Rightarrow> (string \<Rightarrow> string + string) \<Rightarrow> string list + MigrateSettings" where
  "ParseMigrateConfig env readFile =
     (let dsn = (case env envMigrateDSN of None \<Rightarrow> [] | Some s \<Rightarrow> s);
          dsnIssues = (if blank dsn then [envMigrateDSN @ '' is not set''] else [])
      in case resolveAppPassword env readFile of
           Inl issue \<Rightarrow> Inl (dsnIssues @ [issue])
         | Inr password \<Rightarrow>
             if dsnIssues \<noteq> [] then Inl dsnIssues
             else Inr \<lparr>MigrateDSN = NewSecret dsn, SettingsAppPassword = password\<rparr>)"

section \<open>Refusals to start\<close>

record StartupRefusal =
  Reason :: string
  Role :: string

definition sqlstateInvalidPassword :: string where
  "sqlstateInvalidPassword = ''28P01''"

definition ClassifyStartupError :: "failure \<Rightarrow> string \<Rightarrow> StartupRefusal" where
  "ClassifyStartupError e dsnUser =
     (if fail_sqlstate e = Some sqlstateInvalidPassword
      then \<lparr>Reason = ''password authentication failed for role '' @ dsnUser @
              '': LEDGEROPS_APP_DSN does not carry the password migrate set'', Role = dsnUser\<rparr>
      else \<lparr>Reason = fail_text e, Role = dsnUser\<rparr>)"

section \<open>What is accepted\<close>

lemma blank_Nil [simp]: "blank []"
  by (simp add: blank_def)

text \<open>Settings are accepted exactly with a DSN and one source of a password that is not blank.\<close>

lemma ParseMigrateConfig_Inr:
  "ParseMigrateConfig env readFile = Inr s \<longleftrightarrow>
     (\<exists>dsn pw. env envMigrateDSN = Some dsn \<and> \<not> blank dsn \<and> \<not> blank pw \<and>
        s = \<lparr>MigrateDSN = NewSecret dsn, SettingsAppPassword = NewSecret pw\<rparr> \<and>
        (env envAppPassword = Some pw \<and> env envAppPasswordFile = None \<or>
         env envAppPassword = None \<and> (\<exists>path content. env envAppPasswordFile = Some path \<and>
           readFile path = Inr content \<and> pw = stripOneTrailingLineEnding content)))"
  by (auto simp: ParseMigrateConfig_def resolveAppPassword_def readPasswordFile_def nonBlankPassword_def Let_def
      split: option.splits sum.splits if_splits)

text \<open>One line ending is dropped, of either kind, and no more.\<close>

lemma strip_examples:
  "stripOneTrailingLineEnding (s @ [CHR 0x0D, CHR 0x0A]) = s"
  "\<not> suffix [CHR 0x0D] s \<Longrightarrow> stripOneTrailingLineEnding (s @ [CHR 0x0A]) = s"
  "\<not> suffix [CHR 0x0A] s \<Longrightarrow> stripOneTrailingLineEnding s = s"
proof -
  have "suffix [CHR 0x0D, CHR 0x0A] (s @ [CHR 0x0D, CHR 0x0A])" by (rule suffixI [OF refl])
  then show "stripOneTrailingLineEnding (s @ [CHR 0x0D, CHR 0x0A]) = s"
    by (simp add: stripOneTrailingLineEnding_def)
  assume n: "\<not> suffix [CHR 0x0D] s"
  have "\<not> suffix [CHR 0x0D, CHR 0x0A] (s @ [CHR 0x0A])"
    using n suffix_snoc [of "[CHR 0x0D, CHR 0x0A]" s "CHR 0x0A"] by simp
  then show "stripOneTrailingLineEnding (s @ [CHR 0x0A]) = s"
    by (simp add: stripOneTrailingLineEnding_def)
next
  assume n: "\<not> suffix [CHR 0x0A] s"
  then have "\<not> suffix [CHR 0x0D, CHR 0x0A] s" by (auto simp: suffix_def)
  then show "stripOneTrailingLineEnding s = s" using n by (simp add: stripOneTrailingLineEnding_def)
qed

end
