(* ===== verification/MigrateRun.thy ===== *)
theory MigrateRun
  imports Session Migration Config
begin

text \<open>
  The run of \<open>migrate\<close>: \<open>migrate_exec.go\<close>, the migration part of \<open>store.go\<close> and \<open>runMigrate\<close> of
  \<open>cmd/api/migrate.go\<close>, as calls on a database server. golang-migrate is a parameter.
\<close>

section \<open>The server\<close>

text \<open>
  What the server keeps that the run looks at: the database the DSN names, the databases of the
  cluster, the role \<open>ledgerops_app\<close>, the table \<open>schema_migrations\<close> (its row, if it is there), and
  what the connecting role may do, as the catalog tells it and as a probing statement finds.
\<close>

record app_role =
  role_comment :: "string option"
  role_login :: bool
  role_verifier :: "string option"

datatype right = CatalogCreateRole | CatalogAdminOption | CatalogOwnsDatabase | CatalogCreateOnPublic
  | CatalogOwnsTables | CatalogReadsHistory

datatype probe = ProbeCreateTable | ProbeCreateRole

record server =
  sv_database :: string
  sv_databases :: "string list"
  sv_role :: "app_role option"
  sv_history :: "(go_uint \<times> bool) option option"
  sv_rights :: "right \<Rightarrow> bool"
  sv_probes :: "probe \<Rightarrow> failure option"

type_synonym 'a migration = "(server, 'a) calls"

section \<open>Facts and probes\<close>

definition pgErrorInsufficientPrivilege :: string where
  "pgErrorInsufficientPrivilege = ''42501''"

definition reading_right :: "right \<Rightarrow> bool migration" where
  "reading_right r = saying ''reading the preflight facts'' (reading (\<lambda>v. Inr (sv_rights v r)))"

text \<open>The owner marker of the role, and whether the database it names is there.\<close>

definition readRoleOwner :: "(string \<times> bool) migration" where
  "readRoleOwner = saying ''reading the app role's owner marker'' (reading (\<lambda>v. case sv_role v of
     None \<Rightarrow> Inl ErrNoRows
   | Some r \<Rightarrow> (let marker = (case role_comment r of None \<Rightarrow> [] | Some c \<Rightarrow> c)
               in Inr (marker, drop (length ownerMarkerPrefix) marker \<in> set (sv_databases v)))))"

definition readCurrentVersion :: "bool \<Rightarrow> (go_uint \<times> bool) migration" where
  "readCurrentVersion hasSchema =
     (if \<not> hasSchema then returning (0, False)
      else andThen (saying ''reading the schema version'' (\<lambda>s. reading (\<lambda>v. case sv_history v of
              None \<Rightarrow> Inl (server_error ''42P01'' s) | Some _ \<Rightarrow> Inr (sv_rights v CatalogReadsHistory)) s))
        (\<lambda>canRead. if \<not> canRead then returning (0, False)
          else saying ''reading the schema version'' (\<lambda>s. reading (\<lambda>v. case sv_history v of
              None \<Rightarrow> Inl (server_error ''42P01'' s)
            | Some None \<Rightarrow> Inr (0, False)
            | Some (Some row) \<Rightarrow> Inr row) s)))"

definition ReadFacts :: "string \<Rightarrow> Facts migration" where
  "ReadFacts target =
     andThen (saying ''connecting to read the preflight facts'' connecting) (\<lambda>_.
     andThen (reading_right CatalogCreateRole) (\<lambda>canCreateRole.
     andThen (saying ''reading the preflight facts'' (reading (\<lambda>v. Inr (sv_role v \<noteq> None)))) (\<lambda>roleExists.
     andThen (reading_right CatalogAdminOption) (\<lambda>adminOption.
     andThen (reading_right CatalogOwnsDatabase) (\<lambda>ownsDatabase.
     andThen (reading_right CatalogCreateOnPublic) (\<lambda>createOnPublic.
     andThen (saying ''reading the preflight facts'' (reading (\<lambda>v. Inr (sv_history v \<noteq> None)))) (\<lambda>hasSchema.
     andThen (reading_right CatalogOwnsTables) (\<lambda>ownsTables.
     andThen (if target = [] then saying ''reading the database name'' (reading (\<lambda>v. Inr (sv_database v)))
              else returning target) (\<lambda>database.
     andThen (if roleExists then readRoleOwner else returning ([], False)) (\<lambda>(marker, ownerExists).
     andThen (readCurrentVersion hasSchema) (\<lambda>(current, dirty).
       returning \<lparr>TargetDatabase = database, HasLedgerSchema = hasSchema,
         DirtyVersion = (if dirty then Some current else None), RoleExists = roleExists,
         RoleOwnerMarker = marker, OwnerDatabaseExists = ownerExists, CanCreateRole = canCreateRole,
         HasAdminOptionOnRole = adminOption, OwnsDatabaseOrGrant = ownsDatabase,
         CanCreateOnPublic = createOnPublic, OwnsLedgerTables = ownsTables,
         PendingVersions = pendingVersionsAfter current\<rparr>)))))))))))"

text \<open>A probe runs its statement in a transaction that is rolled back; a permission error is an answer.\<close>

definition probeSucceeds :: "probe \<Rightarrow> bool migration" where
  "probeSucceeds p =
     andThen (saying ''starting a privilege probe'' (reading (\<lambda>_. Inr ()))) (\<lambda>_ s.
       case reading (\<lambda>v. case sv_probes v p of None \<Rightarrow> Inr () | Some e \<Rightarrow> Inl e) s of
         (Inr _, s') \<Rightarrow> (Inr True, s')
       | (Inl e, s') \<Rightarrow>
           if fail_sqlstate e = Some pgErrorInsufficientPrivilege then (Inr False, s')
           else (Inl (wrapping ''probing a privilege'' e), s'))"

definition no_facts :: Facts where
  "no_facts = \<lparr>TargetDatabase = [], HasLedgerSchema = False, DirtyVersion = None, RoleExists = False,
     RoleOwnerMarker = [], OwnerDatabaseExists = False, CanCreateRole = False, HasAdminOptionOnRole = False,
     OwnsDatabaseOrGrant = False, CanCreateOnPublic = False, OwnsLedgerTables = False, PendingVersions = []\<rparr>"

definition Probe :: "string \<Rightarrow> Facts migration" where
  "Probe target =
     andThen (saying ''connecting to probe the privileges'' connecting) (\<lambda>_.
     andThen (probeSucceeds ProbeCreateTable) (\<lambda>createOnPublic.
     andThen (probeSucceeds ProbeCreateRole) (\<lambda>createRole.
       returning (no_facts\<lparr>TargetDatabase := target, CanCreateOnPublic := createOnPublic,
         CanCreateRole := createRole\<rparr>))))"

definition preflight :: "Secret \<Rightarrow> Secret \<Rightarrow> Plan migration" where
  "preflight privilegedDSN appPassword =
     andThen (redacting appPassword (ReadFacts [])) (\<lambda>read.
     andThen (redacting appPassword (Probe (TargetDatabase read))) (\<lambda>probed.
       returning (PlanMigration (mergeProbed read probed)
         \<lparr>PrivilegedDSN = privilegedDSN, AppPassword = appPassword\<rparr>)))"

section \<open>The steps\<close>

text \<open>A literal of SQL as it is written, and as the server reads it.\<close>

definition quoteLiteral :: "string \<Rightarrow> string" where
  "quoteLiteral s = CHR 0x27 # replace_all [CHR 0x27] [CHR 0x27, CHR 0x27] s @ [CHR 0x27]"

fun literal_rest :: "string \<Rightarrow> string option" where
  "literal_rest [] = None"
| "literal_rest (c # cs) =
     (if c = CHR 0x27 then (case cs of
          [] \<Rightarrow> Some []
        | d # ds \<Rightarrow> if d = CHR 0x27 then map_option ((#) (CHR 0x27)) (literal_rest ds) else None)
      else map_option ((#) c) (literal_rest cs))"

definition read_literal :: "string \<Rightarrow> string option" where
  "read_literal s = (case s of [] \<Rightarrow> None | c # cs \<Rightarrow> if c = CHR 0x27 then literal_rest cs else None)"

definition pgErrorDuplicateObject :: string where "pgErrorDuplicateObject = ''42710''"
definition pgErrorUniqueViolation :: string where "pgErrorUniqueViolation = ''23505''"

text \<open>
  The transaction of the claim: creating the role, marking it, committing. What it has created
  is nobody else's to see or to create until it ends.
\<close>

definition creating_role :: "unit migration" where
  "creating_role s =
     reading (\<lambda>v. case sv_role v of None \<Rightarrow> Inr () | Some _ \<Rightarrow> Inl (server_error pgErrorDuplicateObject s)) s"

definition marking_role :: "string \<Rightarrow> string migration" where
  "marking_role database s =
     saying ''marking the app role with its database'' (call_alone (\<lambda>v.
       (case read_literal (quoteLiteral (OwnerMarker database)) of
          None \<Rightarrow> Inl (server_error ''42601'' s) | Some marker \<Rightarrow> Inr marker, v))) s"

definition committing_role :: "string \<Rightarrow> bool migration" where
  "committing_role marker =
     andThen (saying ''claiming the app role'' (call_alone (\<lambda>v. (Inr (),
       v\<lparr>sv_role := Some \<lparr>role_comment = Some marker, role_login = False, role_verifier = None\<rparr>\<rparr>)))) (\<lambda>_.
     returning True)"

definition createMarkedAppRole :: "string \<Rightarrow> bool migration" where
  "createMarkedAppRole database =
     andThen (saying ''claiming the app role'' (reading (\<lambda>_. Inr ()))) (\<lambda>_ s.
       case creating_role s of
         (Inl e, s') \<Rightarrow>
           if fail_sqlstate e \<in> {Some pgErrorDuplicateObject, Some pgErrorUniqueViolation} then (Inr False, s')
           else (Inl (wrapping ''creating the app role'' e), s')
       | (Inr _, s') \<Rightarrow> andThen (marking_role database) committing_role s')"

text \<open>\<open>hasLedgerSchema\<close>: an error counts as no.\<close>

definition has_ledger_schema :: "bool migration" where
  "has_ledger_schema s = (case reading (\<lambda>v. Inr (sv_history v \<noteq> None)) s of
     (Inl e, s') \<Rightarrow> (Inr False, s') | (Inr b, s') \<Rightarrow> (Inr b, s'))"

definition RefusalError :: "Plan \<Rightarrow> failure" where
  "RefusalError plan = errors_New (''refused: '' @ Refusal plan)"

text \<open>The role exists: its marker decides, or the schema that is already here.\<close>

definition claim_of_existing :: "string \<Rightarrow> unit migration" where
  "claim_of_existing database =
     andThen readRoleOwner (\<lambda>(marker, ownerExists).
       if markedOwner marker = database then returning ()
       else andThen has_ledger_schema (\<lambda>has.
         if has then returning ()
         else failing_with (RefusalError (ClusterRuleRefusal database marker ownerExists))))"

definition claimAppRole :: "unit migration" where
  "claimAppRole =
     andThen (saying ''connecting to claim the app role'' connecting) (\<lambda>_.
     andThen (saying ''reading the database name'' (reading (\<lambda>v. Inr (sv_database v)))) (\<lambda>database.
     andThen (createMarkedAppRole database) (\<lambda>created.
       if created then returning () else claim_of_existing database)))"

text \<open>golang-migrate on the embedded files: opening it, bringing the database to head, the version.\<close>

datatype up_result = UpDone | UpNoChange | UpFailed failure

record migrator =
  mg_open :: "server session \<Rightarrow> failure option \<times> server session"
  mg_up :: "server session \<Rightarrow> up_result \<times> server session"
  mg_version :: "server session \<Rightarrow> (failure + go_uint) \<times> server session"

definition newMigrator :: "migrator \<Rightarrow> unit migration" where
  "newMigrator mg s = (case mg_open mg s of
     (Some e, s') \<Rightarrow> (Inl (wrapping ''opening migrator as the privileged role'' e), s')
   | (None, s') \<Rightarrow> (Inr (), s'))"

definition applySchema :: "migrator \<Rightarrow> string \<Rightarrow> unit migration" where
  "applySchema mg action =
     redacting (NewSecret []) (andThen (newMigrator mg) (\<lambda>_ s. case mg_up mg s of
       (UpFailed e, s') \<Rightarrow> (Inl (wrapping action e), s')
     | (_, s') \<Rightarrow> (Inr (), s')))"

definition SetVerifier :: "string \<Rightarrow> unit migration" where
  "SetVerifier verifier =
     andThen (saying ''connecting to set the app role password'' connecting) (\<lambda>_.
       saying ''setting the app role password'' (\<lambda>s. calling_server (\<lambda>v.
         case (sv_role v, read_literal (quoteLiteral verifier)) of
           (Some r, Some w) \<Rightarrow> (Inr (), v\<lparr>sv_role := Some (r\<lparr>role_login := True, role_verifier := Some w\<rparr>)\<rparr>)
         | (None, _) \<Rightarrow> (Inl (server_error ''42704'' s), v)
         | (_, None) \<Rightarrow> (Inl (server_error ''42601'' s), v)) s))"

definition scramIterations :: int where
  "scramIterations = 4096"

text \<open>The salt is the sixteen random bytes, or the error of reading them.\<close>

definition setAppRolePassword :: "primitives \<Rightarrow> failure + byte list \<Rightarrow> Secret \<Rightarrow> unit migration" where
  "setAppRolePassword P randomness appPassword = (case randomness of
     Inl e \<Rightarrow> failing_with (wrapping ''generating the password salt'' e)
   | Inr salt \<Rightarrow> SetVerifier (BuildSCRAMVerifier P appPassword salt scramIterations))"

definition annotatePermissionDenied :: "failure \<Rightarrow> bool \<Rightarrow> failure" where
  "annotatePermissionDenied e schemaApplied =
     (if fail_sqlstate e \<noteq> Some pgErrorInsufficientPrivilege then e
      else e\<lparr>fail_text := fail_text e @
        (if schemaApplied then '' (permission denied after schema changes were applied)''
         else '' (permission denied; no changes applied)'')\<rparr>)"

text \<open>What the steps need from outside.\<close>

record outside =
  out_primitives :: primitives
  out_salt :: "failure + byte list"
  out_migrator :: migrator

definition run_step :: "outside \<Rightarrow> Secret \<Rightarrow> string \<Rightarrow> Step \<Rightarrow> unit migration" where
  "run_step X appPassword action step = (case step of
     ClaimRole \<Rightarrow> claimAppRole
   | ApplySchema \<Rightarrow> applySchema (out_migrator X) action
   | SetAppRolePassword \<Rightarrow> setAppRolePassword (out_primitives X) (out_salt X) appPassword)"

fun executeSteps :: "outside \<Rightarrow> Secret \<Rightarrow> string \<Rightarrow> bool \<Rightarrow> Step list \<Rightarrow> unit migration" where
  "executeSteps X appPassword action schemaApplied [] s = (Inr (), s)"
| "executeSteps X appPassword action schemaApplied (step # steps) s =
     (case run_step X appPassword action step s of
        (Inl e, s') \<Rightarrow> (Inl (redactedError (annotatePermissionDenied e schemaApplied) appPassword), s')
      | (Inr _, s') \<Rightarrow> executeSteps X appPassword action (schemaApplied \<or> step = ApplySchema) steps s')"

definition executePlan :: "outside \<Rightarrow> Plan \<Rightarrow> Secret \<Rightarrow> string \<Rightarrow> unit migration" where
  "executePlan X plan appPassword action = executeSteps X appPassword action False (Steps plan)"

definition applyAndSetPassword :: "outside \<Rightarrow> Secret \<Rightarrow> Secret \<Rightarrow> string \<Rightarrow> unit migration" where
  "applyAndSetPassword X privilegedDSN appPassword action =
     andThen (preflight privilegedDSN appPassword) (\<lambda>plan.
       if Refused plan then failing_with (RefusalError plan)
       else executePlan X plan appPassword action)"

definition Migrate :: "outside \<Rightarrow> Secret \<Rightarrow> Secret \<Rightarrow> unit migration" where
  "Migrate X privilegedDSN appPassword = applyAndSetPassword X privilegedDSN appPassword ''migrating from zero''"

definition MigrateStep :: "outside \<Rightarrow> Secret \<Rightarrow> Secret \<Rightarrow> unit migration" where
  "MigrateStep X privilegedDSN appPassword =
     applyAndSetPassword X privilegedDSN appPassword ''applying the newest migration''"

definition SchemaVersion :: "migrator \<Rightarrow> go_uint migration" where
  "SchemaVersion mg = redacting (NewSecret []) (andThen (newMigrator mg) (\<lambda>_.
     saying ''reading the schema version'' (mg_version mg)))"

section \<open>The command\<close>

text \<open>The exit code, and the lines written to the standard output and the standard error.\<close>

definition runMigrate :: "outside \<Rightarrow> Env \<Rightarrow> (string \<Rightarrow> string + string) \<Rightarrow> server session \<Rightarrow>
    (int \<times> string list \<times> string list) \<times> server session" where
  "runMigrate X env readFile s = (case ParseMigrateConfig env readFile of
     Inl issues \<Rightarrow> ((2, [], [''migrate: config invalid: '' @ concat (butlast (concat (map (\<lambda>i. [i, ''; '']) issues)))]), s)
   | Inr settings \<Rightarrow>
       (case Migrate X (MigrateDSN settings) (SettingsAppPassword settings) s of
          (Inl e, s') \<Rightarrow> ((1, [], [''migrate: '' @ RedactDSN (fail_text e)]), s')
        | (Inr _, s') \<Rightarrow>
            (case SchemaVersion (out_migrator X) s' of
               (Inl e, s'') \<Rightarrow> ((1, [], [''migrate: '' @ RedactDSN (fail_text e)]), s'')
             | (Inr version, s'') \<Rightarrow> ((0, [''migrate: schema at version '' @ dec_text (unat version),
                 ''migrate: app role password set''], []), s''))))"

end
