(* ===== verification/MigrateProps.thy ===== *)
theory MigrateProps
  imports MigrateRun
begin

text \<open>
  What a run of \<open>migrate\<close> does to the server: a refusal changes nothing, a success leaves the role
  with the password, and a role that one database has claimed is not another's to claim.
\<close>

section \<open>Literals\<close>

lemma replace_all_quote [simp]:
  "replace_all [q] new [] = []"
  "replace_all [q] new (c # cs) = (if c = q then new @ replace_all [q] new cs else c # replace_all [q] new cs)"
  by (simp_all add: replace_all_def)

lemma literal_rest_quoted:
  "literal_rest (replace_all [CHR 0x27] [CHR 0x27, CHR 0x27] s @ [CHR 0x27]) = Some s"
proof (induction s)
  case (Cons c s)
  then show ?case by (cases "replace_all [CHR 0x27] [CHR 0x27, CHR 0x27] s") auto
qed simp

text \<open>Whatever a text contains, the server reads the literal of it as that text.\<close>

lemma read_quoteLiteral [simp]: "read_literal (quoteLiteral s) = Some s"
  using literal_rest_quoted by (simp add: read_literal_def quoteLiteral_def)

section \<open>Preflight only reads\<close>

lemma ensures_reads [ensure_intros]:
  "ensures I connecting (\<lambda>_. True)" "ensures I (reading_right r) (\<lambda>_. True)" "ensures I readRoleOwner (\<lambda>_. True)"
  "ensures I (readCurrentVersion b) (\<lambda>_. True)"
  unfolding connecting_def reading_right_def readRoleOwner_def readCurrentVersion_def
  by (intro ensure_intros TrueI)+

lemma ensures_probeSucceeds [ensure_intros]: "ensures I (probeSucceeds p) (\<lambda>_. True)"
proof -
  let ?g = "\<lambda>v. case sv_probes v p of None \<Rightarrow> Inr () | Some e \<Rightarrow> Inl e"
  have "ensures I (\<lambda>s. case reading ?g s of
         (Inr _, s') \<Rightarrow> (Inr True, s')
       | (Inl e, s') \<Rightarrow>
           if fail_sqlstate e = Some pgErrorInsufficientPrivilege then (Inr False, s')
           else (Inl (wrapping ''probing a privilege'' e), s')) (\<lambda>_. True)"
  proof (rule ensuresI)
    fix s r s'
    assume s: "I (se_server s)" "steady_others I s"
      and run: "(case reading ?g s of
         (Inr _, s') \<Rightarrow> (Inr True, s')
       | (Inl e, s') \<Rightarrow>
           if fail_sqlstate e = Some pgErrorInsufficientPrivilege then (Inr False, s')
           else (Inl (wrapping ''probing a privilege'' e), s')) = (r, s')"
    obtain a t where t: "reading ?g s = (a, t)" by (cases "reading ?g s")
    then have "s' = t" using run by (cases a) (auto split: if_splits)
    then show "I (se_server s') \<and> steady_others I s' \<and> (\<forall>x. r = Inr x \<longrightarrow> True)"
      using ensuresD(1,2) [OF ensures_reading_any s t] by simp
  qed
  then show ?thesis unfolding probeSucceeds_def by (intro ensure_intros)
qed

lemma ensures_preflight [ensure_intros]: "ensures I (preflight d pw) (\<lambda>_. True)"
  unfolding preflight_def ReadFacts_def Probe_def by (intro ensure_intros TrueI)

text \<open>With nobody else at the server, the plan is made and nothing has changed.\<close>

lemma preflight_keeps_server:
  assumes "\<And>n v. se_others s n v = v" and "preflight d pw s = (r, s')"
  shows "se_server s' = se_server s"
  using ensuresD(1) [OF ensures_preflight [of "\<lambda>v. v = se_server s"] _ _ assms(2)] assms(1)
  by (simp add: steady_others_def)

lemma preflight_plan:
  assumes "preflight d pw s = (Inr plan, s')"
  shows "\<exists>facts config. plan = PlanMigration facts config"
proof -
  obtain read t probed u where "returning (PlanMigration (mergeProbed read probed)
      \<lparr>PrivilegedDSN = d, AppPassword = pw\<rparr>) u = (Inr plan, s')"
    using assms unfolding preflight_def by (blast dest: andThen_Inr)
  then have "plan = PlanMigration (mergeProbed read probed) \<lparr>PrivilegedDSN = d, AppPassword = pw\<rparr>"
    by (simp add: returning_def)
  then show ?thesis by blast
qed

text \<open>A refused run: the error says so, and that nothing was changed.\<close>

lemma refused_run:
  assumes "preflight d pw s = (Inr plan, s')" and "Refused plan"
  shows "applyAndSetPassword X d pw action s = (Inl (RefusalError plan), s') \<and>
    suffix noChangesSuffix (fail_text (RefusalError plan))"
proof -
  obtain facts config where p: "plan = PlanMigration facts config" using preflight_plan [OF assms(1)] by blast
  then have "refusal_plan plan"
    using PlanMigration_cases [of facts config] assms(2) by (auto simp: Refused_def split: if_splits)
  then have "suffix noChangesSuffix (fail_text (RefusalError plan))"
    by (simp add: refusal_plan_def RefusalError_def errors_New_def suffix_ConsI)
  then show ?thesis using assms by (simp add: applyAndSetPassword_def andThen_def failing_with_def)
qed

section \<open>A run that succeeds\<close>

lemma SetVerifier_Inr:
  assumes "SetVerifier w s = (Inr (), s')"
  shows "\<exists>r. sv_role (se_server s') = Some r \<and> role_login r \<and> role_verifier r = Some w"
proof -
  obtain u :: "server session" and v where "(case (sv_role v, read_literal (quoteLiteral w)) of
           (Some r, Some w) \<Rightarrow> (Inr (), v\<lparr>sv_role := Some (r\<lparr>role_login := True, role_verifier := Some w\<rparr>)\<rparr>)
         | (None, _) \<Rightarrow> (Inl (server_error ''42704'' u), v)
         | (_, None) \<Rightarrow> (Inl (server_error ''42601'' u), v)) = (Inr (), se_server s')"
    using assms unfolding SetVerifier_def by (blast dest: andThen_Inr saying_Inr calling_server_Inr)
  then obtain r where "se_server s' = v\<lparr>sv_role := Some (r\<lparr>role_login := True, role_verifier := Some w\<rparr>)\<rparr>"
    by (cases "sv_role v") (auto dest: sym)
  then show ?thesis by simp
qed

lemma executePlan_Inr:
  assumes "executePlan X plan pw action s = (Inr (), s')"
    and "Steps plan = [ClaimRole, ApplySchema, SetAppRolePassword]"
  shows "\<exists>s1 s2 salt. claimAppRole s = (Inr (), s1) \<and> applySchema (out_migrator X) action s1 = (Inr (), s2) \<and>
    out_salt X = Inr salt \<and> SetVerifier (BuildSCRAMVerifier (out_primitives X) pw salt scramIterations) s2 = (Inr (), s')"
  using assms
  by (auto simp: executePlan_def run_step_def setAppRolePassword_def failing_with_def
      split: prod.splits sum.splits)

text \<open>A run that succeeds has claimed the role, brought the schema to head, and set the password.\<close>

lemma run_succeeds:
  assumes "applyAndSetPassword X d pw action s = (Inr (), s')"
  shows "\<exists>plan s0 s1 s2 salt r. preflight d pw s = (Inr plan, s0) \<and> claimAppRole s0 = (Inr (), s1) \<and>
    applySchema (out_migrator X) action s1 = (Inr (), s2) \<and> out_salt X = Inr salt \<and>
    sv_role (se_server s') = Some r \<and> role_login r \<and>
    role_verifier r = Some (BuildSCRAMVerifier (out_primitives X) pw salt scramIterations)"
proof -
  obtain plan s0 where p: "preflight d pw s = (Inr plan, s0)"
      and e: "(if Refused plan then failing_with (RefusalError plan) else executePlan X plan pw action) s0 = (Inr (), s')"
    using andThen_Inr [OF assms [unfolded applyAndSetPassword_def]] by blast
  obtain facts config where plan: "plan = PlanMigration facts config" using preflight_plan [OF p] by blast
  have r: "\<not> Refused plan" and x: "executePlan X plan pw action s0 = (Inr (), s')"
    using e by (auto simp: failing_with_def split: if_splits)
  have "Steps plan = [ClaimRole, ApplySchema, SetAppRolePassword]"
    using PlanMigration_cases [of facts config] r plan by (auto simp: refusal_plan_def split: if_splits)
  from executePlan_Inr [OF x this] SetVerifier_Inr p show ?thesis by blast
qed

section \<open>One database per cluster\<close>

definition marked_for :: "string \<Rightarrow> server \<Rightarrow> bool" where
  "marked_for d v \<longleftrightarrow> (\<exists>r. sv_role v = Some r \<and>
     markedOwner (case role_comment r of None \<Rightarrow> [] | Some c \<Rightarrow> c) = d)"

lemma readRoleOwner_marked:
  assumes "\<And>v. I v \<Longrightarrow> marked_for d v"
  shows "ensures I readRoleOwner (\<lambda>(marker, b). markedOwner marker = d)"
  unfolding readRoleOwner_def
  by (rule ensures_saying, rule ensures_reading)
     (use assms in \<open>fastforce simp: marked_for_def Let_def\<close>)

lemma creating_role_taken:
  assumes "\<And>v. I v \<Longrightarrow> sv_role v \<noteq> None"
  shows "ensures I creating_role (\<lambda>_. False)"
proof -
  let ?g = "\<lambda>s v. case sv_role v of None \<Rightarrow> Inr () | Some _ \<Rightarrow> Inl (server_error pgErrorDuplicateObject s)"
  have "ensures I (reading (?g s)) (\<lambda>_. False)" for s
  proof (rule ensures_reading)
    fix v x assume "I v" and "?g s v = Inr x"
    then show False using assms [of v] by (cases "sv_role v") simp_all
  qed
  then show ?thesis unfolding ensures_def creating_role_def by blast
qed

lemma createMarked_taken:
  assumes "\<And>v. I v \<Longrightarrow> sv_role v \<noteq> None"
  shows "ensures I (createMarkedAppRole d) (\<lambda>created. \<not> created)"
  unfolding createMarkedAppRole_def
proof (rule ensures_andThen_any [OF ensures_saying [OF ensures_reading_any]], rule ensuresI)
  fix s r s' assume s: "I (se_server s)" "steady_others I s" and run: "(case creating_role s of
         (Inl e, s') \<Rightarrow>
           if fail_sqlstate e \<in> {Some pgErrorDuplicateObject, Some pgErrorUniqueViolation} then (Inr False, s')
           else (Inl (wrapping ''creating the app role'' e), s')
       | (Inr _, s') \<Rightarrow> andThen (marking_role d) committing_role s') = (r, s')"
  obtain a t where t: "creating_role s = (a, t)" by (cases "creating_role s")
  note D = ensuresD [OF creating_role_taken [OF assms] s t]
  have "a = Inl (projl a)" using D(3) by (cases a) auto
  then show "I (se_server s') \<and> steady_others I s' \<and> (\<forall>x. r = Inr x \<longrightarrow> \<not> x)"
    using run t D(1,2) by (cases a) (auto split: if_splits)
qed

lemma has_ledger_schema_no:
  assumes "\<And>v. I v \<Longrightarrow> sv_history v = None"
  shows "ensures I has_ledger_schema (\<lambda>has. \<not> has)"
proof (rule ensuresI)
  fix s r s' assume s: "I (se_server s)" "steady_others I s" and run: "has_ledger_schema s = (r, s')"
  let ?g = "\<lambda>v. Inr (sv_history v \<noteq> None)"
  obtain a t where t: "reading ?g s = (a, t)" by (cases "reading ?g s")
  have "ensures I (reading ?g) (\<lambda>has. \<not> has)" by (rule ensures_reading) (use assms in auto)
  from ensuresD [OF this s t] show "I (se_server s') \<and> steady_others I s' \<and> (\<forall>x. r = Inr x \<longrightarrow> \<not> x)"
    using run t by (cases a) (auto simp: has_ledger_schema_def)
qed

text \<open>A database without the ledger's schema cannot claim a role that is marked for another.\<close>

lemma claim_of_foreign_role:
  assumes "\<And>v. I v \<Longrightarrow> marked_for d v \<and> sv_database v = d' \<and> sv_history v = None" and "d \<noteq> d'"
  shows "ensures I claimAppRole (\<lambda>_. False)"
proof -
  have role: "sv_role v \<noteq> None" if "I v" for v using assms(1) [OF that] by (auto simp: marked_for_def)
  have db: "ensures I (reading (\<lambda>v. Inr (sv_database v))) (\<lambda>x. x = d')"
    by (rule ensures_reading) (use assms(1) in auto)
  have existing: "ensures I (claim_of_existing d') (\<lambda>_. False)"
    unfolding claim_of_existing_def
  proof (rule ensures_andThen, rule readRoleOwner_marked [where d = d])
    show "marked_for d v" if "I v" for v using assms(1) [OF that] by blast
    fix p :: "string \<times> bool" assume "case p of (marker, b) \<Rightarrow> markedOwner marker = d"
    then show "ensures I (case p of (marker, ownerExists) \<Rightarrow>
         if markedOwner marker = d' then returning ()
         else andThen has_ledger_schema (\<lambda>has.
           if has then returning ()
           else failing_with (RefusalError (ClusterRuleRefusal d' marker ownerExists)))) (\<lambda>_. False)"
      using assms by (auto intro!: ensures_andThen [OF has_ledger_schema_no] ensures_failing)
  qed
  show ?thesis
    unfolding claimAppRole_def
  proof (rule ensures_andThen_any [OF ensures_saying [OF ensures_reads(1)]],
      rule ensures_andThen [OF ensures_saying [OF db]], rule ensures_andThen [OF createMarked_taken])
    show "sv_role v \<noteq> None" if "I v" for v using role that .
    fix database created assume "database = d'" "\<not> created"
    then show "ensures I (if created then returning () else claim_of_existing database) (\<lambda>_. False)"
      using existing by simp
  qed
qed

lemma executePlan_Inl_or:
  assumes "ensures I claimAppRole (\<lambda>_. False)" and "I (se_server s)" and "steady_others I s"
    and "executePlan X plan pw action s = (r, s')" and "Steps plan = [ClaimRole, ApplySchema, SetAppRolePassword]"
  shows "I (se_server s') \<and> r \<noteq> Inr ()"
proof -
  obtain a t where t: "claimAppRole s = (a, t)" by (cases "claimAppRole s")
  note D = ensuresD [OF assms(1-3) t]
  have "a = Inl (projl a)" using D(3) by (cases a) auto
  then show ?thesis using assms(4,5) t D(1) by (cases a) (auto simp: executePlan_def run_step_def)
qed

text \<open>A whole run on such a database: it ends in an error, and the mark stays.\<close>

lemma run_on_foreign_role:
  assumes "ensures I claimAppRole (\<lambda>_. False)" and "I (se_server s)" and "steady_others I s"
    and "applyAndSetPassword X dsn pw action s = (r, s')"
  shows "I (se_server s') \<and> r \<noteq> Inr ()"
proof -
  obtain a t where t: "preflight dsn pw s = (a, t)" by (cases "preflight dsn pw s")
  note D = ensuresD [OF ensures_preflight assms(2,3) t]
  show ?thesis
  proof (cases a)
    case (Inl e)
    then show ?thesis using assms(4) t D(1) by (auto simp: applyAndSetPassword_def andThen_def)
  next
    case (Inr plan)
    then obtain facts config where plan: "plan = PlanMigration facts config" using preflight_plan t by blast
    show ?thesis
    proof (cases "Refused plan")
      case True
      then show ?thesis using assms(4) t D(1) Inr by (auto simp: applyAndSetPassword_def andThen_def failing_with_def)
    next
      case False
      then have "Steps plan = [ClaimRole, ApplySchema, SetAppRolePassword]"
        using PlanMigration_cases [of facts config] plan by (auto simp: refusal_plan_def split: if_splits)
      moreover have "executePlan X plan pw action t = (r, s')"
        using assms(4) t Inr False by (simp add: applyAndSetPassword_def andThen_def)
      ultimately show ?thesis using executePlan_Inl_or [OF assms(1) D(1,2)] by blast
    qed
  qed
qed

text \<open>Who has claimed the role without the schema has its mark on it.\<close>

lemma fresh_role_marked [simp]:
  "marked_for d (v\<lparr>sv_role := Some \<lparr>role_comment = Some (OwnerMarker d), role_login = l, role_verifier = w\<rparr>\<rparr>)"
  by (simp add: marked_for_def)

lemma committing_role_marks:
  assumes "committing_role (OwnerMarker d) s = (Inr x, s')"
  shows "marked_for d (se_server s')"
  using assms [unfolded committing_role_def]
proof (rule andThen_InrE)
  fix u t
  assume 1: "saying ''claiming the app role'' (call_alone (\<lambda>v. (Inr (), v\<lparr>sv_role :=
      Some \<lparr>role_comment = Some (OwnerMarker d), role_login = False, role_verifier = None\<rparr>\<rparr>))) s = (Inr u, t)"
    and 2: "returning True t = (Inr x, s')"
  have "s' = t" using 2 by (simp add: returning_def)
  then show ?thesis using saying_Inr [OF 1] by (auto simp: call_alone_def Let_def split: option.splits prod.splits)
qed

lemma createMarked_marks:
  assumes "createMarkedAppRole d s = (Inr True, s')"
  shows "marked_for d (se_server s')"
proof -
  obtain u where "(case creating_role u of
         (Inl e, s') \<Rightarrow>
           if fail_sqlstate e \<in> {Some pgErrorDuplicateObject, Some pgErrorUniqueViolation} then (Inr False, s')
           else (Inl (wrapping ''creating the app role'' e), s')
       | (Inr _, s') \<Rightarrow> andThen (marking_role d) committing_role s') = (Inr True, s')"
    using assms [unfolded createMarkedAppRole_def] by (rule andThen_InrE)
  then obtain t where "andThen (marking_role d) committing_role t = (Inr True, s')"
    by (auto split: prod.splits sum.splits if_splits)
  then obtain marker v where m: "marking_role d t = (Inr marker, v)" and c: "committing_role marker v = (Inr True, s')"
    by (rule andThen_InrE)
  have "marker = OwnerMarker d"
    using saying_Inr [OF m [unfolded marking_role_def]]
    by (auto simp: call_alone_def Let_def split: option.splits)
  then show ?thesis using c committing_role_marks by simp
qed

lemma ensures_createMarked:
  assumes "\<And>v r. I v \<Longrightarrow> I (v\<lparr>sv_role := r\<rparr>)"
  shows "ensures I (createMarkedAppRole d) (\<lambda>_. True)"
proof -
  have "ensures I creating_role (\<lambda>_. True)" unfolding creating_role_def by (rule ensures_reading_session)
  have "ensures I (call_alone (\<lambda>v. (g, v))) (\<lambda>_. True)" for g :: "failure + string"
    by (rule ensures_call_alone) simp
  then have mark: "ensures I (marking_role d) (\<lambda>_. True)"
    using ensures_saying unfolding marking_role_def ensures_def by blast
  have commit: "ensures I (committing_role m) (\<lambda>_. True)" for m
    unfolding committing_role_def
    by (intro ensures_andThen_any ensures_saying ensures_call_alone ensures_returning) (use assms in auto)
  have rest: "ensures I (andThen (marking_role d) committing_role) (\<lambda>_. True)"
    using mark commit by (rule ensures_andThen_any)
  show ?thesis
    unfolding createMarkedAppRole_def
  proof (rule ensures_andThen_any [OF ensures_saying [OF ensures_reading_any]], rule ensuresI)
    fix s r s' assume s: "I (se_server s)" "steady_others I s" and run: "(case creating_role s of
           (Inl e, s') \<Rightarrow>
             if fail_sqlstate e \<in> {Some pgErrorDuplicateObject, Some pgErrorUniqueViolation} then (Inr False, s')
             else (Inl (wrapping ''creating the app role'' e), s')
         | (Inr _, s') \<Rightarrow> andThen (marking_role d) committing_role s') = (r, s')"
    obtain a t where t: "creating_role s = (a, t)" by (cases "creating_role s")
    note D = ensuresD(1,2) [OF \<open>ensures I creating_role (\<lambda>_. True)\<close> s t]
    show "I (se_server s') \<and> steady_others I s' \<and> (\<forall>x. r = Inr x \<longrightarrow> True)"
      using run t D ensuresD(1,2) [OF rest D] by (cases a) (auto split: if_splits)
  qed
qed

lemma claim_marks:
  assumes "claimAppRole s = (Inr (), s')" and "I (se_server s)" and "steady_others I s"
    and "\<And>v r. I v \<Longrightarrow> I (v\<lparr>sv_role := r\<rparr>)" and "\<And>v. I v \<Longrightarrow> sv_database v = d \<and> sv_history v = None"
  shows "marked_for d (se_server s')"
proof -
  obtain u s1 where 1: "saying ''connecting to claim the app role'' connecting s = (Inr u, s1)"
      "andThen (saying ''reading the database name'' (reading (\<lambda>v. Inr (sv_database v)))) (\<lambda>database.
        andThen (createMarkedAppRole database) (\<lambda>created.
          if created then returning () else claim_of_existing database)) s1 = (Inr (), s')"
    using assms(1) [unfolded claimAppRole_def] by (rule andThen_InrE)
  obtain database s2 where 2: "saying ''reading the database name'' (reading (\<lambda>v. Inr (sv_database v))) s1 = (Inr database, s2)"
      "andThen (createMarkedAppRole database) (\<lambda>created.
          if created then returning () else claim_of_existing database) s2 = (Inr (), s')"
    using 1(2) by (rule andThen_InrE)
  obtain created s3 where 3: "createMarkedAppRole database s2 = (Inr created, s3)"
      "(if created then returning () else claim_of_existing database) s3 = (Inr (), s')"
    using 2(2) by (rule andThen_InrE)
  note D1 = ensuresD(1,2) [OF ensures_saying [OF ensures_reads(1)] assms(2,3) 1(1)]
  note D2 = ensuresD(1,2) [OF ensures_saying [OF ensures_reading_any] D1 2(1)]
  have "ensures I (createMarkedAppRole database) (\<lambda>_. True)" by (rule ensures_createMarked, rule assms(4))
  note D3 = ensuresD(1,2) [OF this D2 3(1)]
  have db: "database = d" using reading_Inr [OF saying_Inr [OF 2(1)]] assms(5) [OF D2(1)] by simp
  show ?thesis
  proof (cases created)
    case True
    then show ?thesis using createMarked_marks 3 db by (auto simp: returning_def)
  next
    case False
    then have "claim_of_existing d s3 = (Inr (), s')" using 3(2) db by simp
    then have claim: "andThen readRoleOwner (\<lambda>(marker, b).
        if markedOwner marker = d then returning ()
        else andThen has_ledger_schema (\<lambda>has. if has then returning ()
          else failing_with (RefusalError (ClusterRuleRefusal d marker b)))) s3 = (Inr (), s')"
      by (simp add: claim_of_existing_def)
    obtain p s4 where 4: "readRoleOwner s3 = (Inr p, s4)" "(case p of (marker, b) \<Rightarrow>
        if markedOwner marker = d then returning ()
        else andThen has_ledger_schema (\<lambda>has. if has then returning ()
          else failing_with (RefusalError (ClusterRuleRefusal d marker b)))) s4 = (Inr (), s')"
      using claim by (rule andThen_InrE)
    obtain marker b where p: "p = (marker, b)" by (cases p)
    note D4 = ensuresD(1,2) [OF ensures_reads(3) D3 4(1)]
    have marked: "marked_for d (se_server s4)" if "markedOwner marker = d"
      using reading_Inr [OF saying_Inr [OF 4(1) [unfolded readRoleOwner_def p]]] that
      by (auto simp: marked_for_def Let_def split: option.splits)
    show ?thesis
    proof (cases "markedOwner marker = d")
      case True
      then show ?thesis using marked 4(2) p by (simp add: returning_def)
    next
      case False
      then have claim: "andThen has_ledger_schema (\<lambda>has. if has then returning ()
          else failing_with (RefusalError (ClusterRuleRefusal d marker b))) s4 = (Inr (), s')"
        using 4(2) p by simp
      obtain has s5 where 5: "has_ledger_schema s4 = (Inr has, s5)"
          "(if has then returning () else failing_with (RefusalError (ClusterRuleRefusal d marker b))) s5 = (Inr (), s')"
        using claim by (rule andThen_InrE)
      have "\<not> has" using ensuresD(3) [OF has_ledger_schema_no D4 5(1)] assms(5) by blast
      then show ?thesis using 5(2) by (simp add: failing_with_def)
    qed
  qed
qed

end
