(* ===== verification/MigrateTheorems.thy ===== *)
theory MigrateTheorems
  imports MigrateProps
begin

text \<open>
  The properties of \<open>migrate\<close>, on a sample server: one database, a privileged role that may do
  everything, the role \<open>ledgerops_app\<close> absent or marked for a database.
\<close>

definition sample_server :: "string \<Rightarrow> app_role option \<Rightarrow> server" where
  "sample_server database r = \<lparr>sv_database = database, sv_databases = [''one'', ''two''], sv_role = r,
     sv_history = None, sv_rights = (\<lambda>_. True), sv_probes = (\<lambda>_. None)\<rparr>"

definition sample_session :: "string \<Rightarrow> app_role option \<Rightarrow> server session" where
  "sample_session database r = \<lparr>se_server = sample_server database r, se_calls = 0, se_faults = (\<lambda>_. None),
     se_others = (\<lambda>_ v. v), se_messages = (\<lambda>_. [])\<rparr>"

definition sample_outside :: outside where
  "sample_outside = \<lparr>out_primitives = \<lparr>sha256 = (\<lambda>_. []), nfkc = (\<lambda>s. s), opaque_ok = (\<lambda>_. True)\<rparr>,
     out_salt = Inr [1, 2], out_migrator = \<lparr>mg_open = (\<lambda>s. (None, s)), mg_up = (\<lambda>s. (UpDone, s)),
       mg_version = (\<lambda>s. (Inr 6, s))\<rparr>\<rparr>"

definition role_of :: "string \<Rightarrow> app_role" where
  "role_of database = \<lparr>role_comment = Some (OwnerMarker database), role_login = False, role_verifier = None\<rparr>"

lemmas sample_defs = sample_session_def sample_server_def sample_outside_def role_of_def

lemmas run_defs = andThen_def saying_def returning_def failing_with_def redacting_def reading_def
  connecting_def reading_right_def calling_server_def call_alone_def others_turn_def

text \<open>The run on the sample server, part by part.\<close>

lemma sample_plan: "PlanMigration (mergeProbed \<lparr>TargetDatabase = d, HasLedgerSchema = False,
               DirtyVersion = None, RoleExists = False, RoleOwnerMarker = [],
               OwnerDatabaseExists = False, CanCreateRole = True,
               HasAdminOptionOnRole = True, OwnsDatabaseOrGrant = True,
               CanCreateOnPublic = True, OwnsLedgerTables = True,
               PendingVersions = p\<rparr> (no_facts\<lparr>TargetDatabase := d, CanCreateOnPublic := True, CanCreateRole := True\<rparr>)) c
   = \<lparr>Steps = [ClaimRole, ApplySchema, SetAppRolePassword], Refusal = [], Privilege = [], NoChanges = False\<rparr>"
  using PlanMigration_cases [of "mergeProbed \<lparr>TargetDatabase = d, HasLedgerSchema = False,
               DirtyVersion = None, RoleExists = False, RoleOwnerMarker = [],
               OwnerDatabaseExists = False, CanCreateRole = True,
               HasAdminOptionOnRole = True, OwnsDatabaseOrGrant = True,
               CanCreateOnPublic = True, OwnsLedgerTables = True,
               PendingVersions = p\<rparr> (no_facts\<lparr>TargetDatabase := d, CanCreateOnPublic := True, CanCreateRole := True\<rparr>)" c]
  by (simp add: migratable_def mergeProbed_def no_facts_def)

lemma sample_preflight: "preflight (NewSecret []) (NewSecret pw) (sample_session d None) =
   (Inr \<lparr>Steps = [ClaimRole, ApplySchema, SetAppRolePassword], Refusal = [], Privilege = [], NoChanges = False\<rparr>,
    (sample_session d None)\<lparr>se_calls := 14\<rparr>)"
    by (simp add: preflight_def ReadFacts_def readCurrentVersion_def Probe_def
        probeSucceeds_def run_defs sample_defs sample_plan)
lemma sample_claim: "claimAppRole ((sample_session d None)\<lparr>se_calls := n\<rparr>) =
      (Inr (), (sample_session d (Some (role_of d)))\<lparr>se_calls := n + 6\<rparr>)"
    by (simp add: claimAppRole_def createMarkedAppRole_def creating_role_def marking_role_def committing_role_def
        run_defs sample_defs)
lemma sample_verifier: "fst (SetVerifier w ((sample_session d (Some r))\<lparr>se_calls := n\<rparr>)) = Inr ()"
    by (simp add: SetVerifier_def run_defs sample_session_def sample_server_def)
lemma sample_migrate: "fst (Migrate sample_outside (NewSecret []) (NewSecret pw) (sample_session d None)) = Inr ()"
proof -
  obtain s' where s: "SetVerifier (BuildSCRAMVerifier (out_primitives sample_outside) (NewSecret pw) [1, 2] scramIterations)
      ((sample_session d (Some (role_of d)))\<lparr>se_calls := 20\<rparr>) = (Inr (), s')"
    using sample_verifier by (metis prod.collapse)
  have o: "mg_open (out_migrator sample_outside) t = (None, t)" "mg_up (out_migrator sample_outside) t = (UpDone, t)"
    "out_salt sample_outside = Inr [1, 2]" for t
    by (simp_all add: sample_outside_def)
  have c: "claimAppRole ((sample_session d None)\<lparr>se_calls := 14\<rparr>) =
      (Inr (), (sample_session d (Some (role_of d)))\<lparr>se_calls := 20\<rparr>)" using sample_claim [of 14 d] by simp
  show ?thesis
    by (simp add: Migrate_def applyAndSetPassword_def andThen_def sample_preflight Refused_def executePlan_def run_step_def
      c applySchema_def newMigrator_def redacting_def setAppRolePassword_def o s)
qed

text \<open>
  C33: what \<open>migrate\<close> does is all or a refusal: a plan that is refused ends the run with that
  refusal, which says that no changes were applied, and with nobody else at work the server is
  as it was. A run that succeeds leaves the application role able to log in, with the SCRAM
  verifier of exactly the password of its settings.
\<close>

theorem migrate_outcome:
  "(\<forall>plan s'. preflight d pw s = (Inr plan, s') \<and> Refused plan \<longrightarrow>
      Migrate X d pw s = (Inl (RefusalError plan), s') \<and>
      suffix noChangesSuffix (fail_text (RefusalError plan)) \<and>
      ((\<forall>n v. se_others s n v = v) \<longrightarrow> se_server s' = se_server s)) \<and>
   (\<forall>s'. Migrate X d pw s = (Inr (), s') \<longrightarrow>
      (\<exists>salt r. out_salt X = Inr salt \<and> sv_role (se_server s') = Some r \<and> role_login r \<and>
        role_verifier r = Some (BuildSCRAMVerifier (out_primitives X) pw salt scramIterations)))"
proof (intro conjI allI impI)
  fix plan s' assume p: "preflight d pw s = (Inr plan, s') \<and> Refused plan"
  then show "Migrate X d pw s = (Inl (RefusalError plan), s')"
    "suffix noChangesSuffix (fail_text (RefusalError plan))"
    using refused_run [of d pw s plan s'] by (simp_all add: Migrate_def)
  assume "\<forall>n v. se_others s n v = v"
  then show "se_server s' = se_server s" using preflight_keeps_server p by blast
next
  fix s' assume "Migrate X d pw s = (Inr (), s')"
  from run_succeeds [OF this [unfolded Migrate_def]]
  show "\<exists>salt r. out_salt X = Inr salt \<and> sv_role (se_server s') = Some r \<and> role_login r \<and>
      role_verifier r = Some (BuildSCRAMVerifier (out_primitives X) pw salt scramIterations)" by blast
qed

theorem migrate_outcome_witness:
  "\<exists>s' r. Migrate sample_outside (NewSecret []) (NewSecret ''pw'') (sample_session ''one'' None) = (Inr (), s') \<and>
     sv_role (se_server s') = Some r \<and> role_login r"
proof -
  let ?M = "Migrate sample_outside (NewSecret []) (NewSecret ''pw'') (sample_session ''one'' None)"
  have "fst ?M = Inr ()" by (rule sample_migrate)
  then have "?M = (Inr (), snd ?M)" by (simp add: prod_eq_iff)
  then show ?thesis
    using migrate_outcome [of "NewSecret []" "NewSecret ''pw''" "sample_session ''one'' None" sample_outside] by blast
qed

text \<open>
  C40: one database per cluster: once a database has claimed the application role, a run on
  another database that does not hold the ledger's schema never gets past the claim, whatever
  fails and whatever others do, as long as they keep the marker.
\<close>

definition own_database :: "string \<Rightarrow> server \<Rightarrow> bool" where
  "own_database d v \<longleftrightarrow> sv_database v = d \<and> sv_history v = None"

definition foreign_database :: "string \<Rightarrow> string \<Rightarrow> server \<Rightarrow> bool" where
  "foreign_database d d' v \<longleftrightarrow> marked_for d v \<and> own_database d' v"

theorem one_database_per_cluster:
  assumes "claimAppRole s = (Inr (), s')" and "own_database d (se_server s)" and "steady_others (own_database d) s"
    and "se_server t = (se_server s')\<lparr>sv_database := d', sv_history := None\<rparr>" and "d \<noteq> d'"
    and "steady_others (foreign_database d d') t"
  shows "fst (Migrate X dsn pw t) \<noteq> Inr () \<and> marked_for d (se_server (snd (Migrate X dsn pw t)))"
proof -
  have "marked_for d (se_server s')"
    by (rule claim_marks [OF assms(1,2,3)]) (simp_all add: own_database_def)
  then have "foreign_database d d' (se_server t)"
    using assms(4) by (simp add: foreign_database_def own_database_def marked_for_def)
  moreover have "ensures (foreign_database d d') claimAppRole (\<lambda>_. False)"
    by (rule claim_of_foreign_role [OF _ assms(5)]) (simp add: foreign_database_def own_database_def)
  ultimately have "foreign_database d d' (se_server (snd (Migrate X dsn pw t))) \<and> fst (Migrate X dsn pw t) \<noteq> Inr ()"
    using run_on_foreign_role [of "foreign_database d d'" t X dsn pw "''migrating from zero''"
        "fst (Migrate X dsn pw t)" "snd (Migrate X dsn pw t)"] assms(6)
    by (simp add: Migrate_def)
  then show ?thesis by (simp add: foreign_database_def)
qed

theorem one_database_per_cluster_witness:
  "fst (Migrate sample_outside (NewSecret []) (NewSecret ''pw'') (sample_session ''two'' (Some (role_of ''one'')))) \<noteq> Inr ()"
proof -
  have "claimAppRole (sample_session ''one'' None) =
      (Inr (), (sample_session ''one'' (Some (role_of ''one'')))\<lparr>se_calls := 6\<rparr>)"
    using sample_claim [of 0 "''one''"] by (simp add: sample_session_def)
  then show ?thesis
    using one_database_per_cluster [of "sample_session ''one'' None" _ "''one''"
        "sample_session ''two'' (Some (role_of ''one''))" "''two''" sample_outside "NewSecret []" "NewSecret ''pw''"]
    by (simp add: steady_others_def own_database_def sample_session_def sample_server_def)
qed

end
