(* ===== verification/OutOfBand.thy ===== *)
theory OutOfBand
  imports Session LedgerStore
begin

text \<open>
  The rest of \<open>internal/adapters/postgres/store.go\<close>: what reaches past the driving ports.
  \<open>AttemptOutOfBandChange\<close> tries to rewrite the record as the role of a DSN,
  \<open>InterruptPostingMidWrite\<close> abandons a posting half written, and the three counts look at what is
  there. Each statement is a call on the store under the rights of the role that connects.
\<close>

section \<open>The store and the roles\<close>

text \<open>
  What the migrations leave: the tables, if they have been run, and whether the trigger
  \<open>entries_append_only\<close> is enabled.
\<close>

record guarded_store =
  gs_migrated :: bool
  gs_db :: db
  gs_append_only :: bool

datatype store_right = SelectEntries | InsertEntries | UpdateEntries | DeleteEntries | OwnsEntries
  | SelectAccounts | InsertAccounts | UpdateAccounts | SelectTransactions | InsertTransactions
  | SelectKeys | InsertKeys

text \<open>The grants of 0001 and 0002 to \<open>ledgerops_app\<close>.\<close>

definition ledgerops_app_rights :: "store_right set" where
  "ledgerops_app_rights = {SelectEntries, InsertEntries, SelectAccounts, InsertAccounts, UpdateAccounts,
     SelectTransactions, InsertTransactions, SelectKeys, InsertKeys}"

text \<open>
  What a DSN gives: the rights of its role, the collation of its database. \<open>lg_quote\<close> is the
  formatting verb \<open>%q\<close>; \<open>lg_pool\<close> is the error of pgxpool's parsing of the DSN, if there is one, and
  \<open>lg_user\<close> the user that pgx reads in it, if it parses.
\<close>

record login =
  lg_rights :: "store_right set"
  lg_collate :: "string \<Rightarrow> string"
  lg_quote :: "string \<Rightarrow> string"
  lg_pool :: "failure option"
  lg_user :: "string option"

type_synonym 'a probing = "(guarded_store, 'a) calls"

text \<open>A statement of a role: the tables are there, the rights suffice, and then what it does.\<close>

definition statement_of :: "login \<Rightarrow> store_right set \<Rightarrow> (guarded_store \<Rightarrow> string + ('a \<times> guarded_store)) \<Rightarrow> 'a probing" where
  "statement_of L needed f s = calling_server (\<lambda>v.
     if \<not> gs_migrated v then (Inl (server_error ''42P01'' s), v)
     else if \<not> needed \<subseteq> lg_rights L then (Inl (server_error ''42501'' s), v)
     else (case f v of Inl sqlstate \<Rightarrow> (Inl (server_error sqlstate s), v) | Inr (x, v') \<Rightarrow> (Inr x, v'))) s"

definition selecting :: "login \<Rightarrow> store_right set \<Rightarrow> (guarded_store \<Rightarrow> 'a) \<Rightarrow> 'a probing" where
  "selecting L needed g = statement_of L needed (\<lambda>v. Inr (g v, v))"

text \<open>\<open>ALTER TABLE entries DISABLE TRIGGER entries_append_only\<close>, and \<open>ENABLE\<close>.\<close>

definition set_append_only :: "login \<Rightarrow> bool \<Rightarrow> unit probing" where
  "set_append_only L b = statement_of L {OwnsEntries} (\<lambda>v. Inr ((), v\<lparr>gs_append_only := b\<rparr>))"

text \<open>
  \<open>UPDATE entries SET amount_minor = amount_minor + d WHERE ...\<close>: a sum out of range fails, and
  then the trigger, which raises for every row that is touched.
\<close>

definition update_entries :: "login \<Rightarrow> (entry_row \<Rightarrow> bool) \<Rightarrow> int64 \<Rightarrow> unit probing" where
  "update_entries L P d = statement_of L {SelectEntries, UpdateEntries} (\<lambda>v.
     let es = entries (gs_db v) in
     if \<exists>r \<in> set es. P r \<and> bigint_add (er_amount r) d = None then Inl ''22003''
     else if gs_append_only v \<and> (\<exists>r \<in> set es. P r) then Inl ''P0001''
     else Inr ((), v\<lparr>gs_db := (gs_db v)\<lparr>entries :=
       map (\<lambda>r. if P r then r\<lparr>er_amount := er_amount r + d\<rparr> else r) es\<rparr>\<rparr>))"

definition delete_entries :: "login \<Rightarrow> (entry_row \<Rightarrow> bool) \<Rightarrow> unit probing" where
  "delete_entries L P = statement_of L {SelectEntries, DeleteEntries} (\<lambda>v.
     if gs_append_only v \<and> (\<exists>r \<in> set (entries (gs_db v)). P r) then Inl ''P0001''
     else Inr ((), v\<lparr>gs_db := (gs_db v)\<lparr>entries := filter (\<lambda>r. \<not> P r) (entries (gs_db v))\<rparr>\<rparr>))"

text \<open>\<open>UPDATE accounts SET balance_minor = balance_minor + d WHERE ...\<close> and the rows it affected.\<close>

definition update_balances :: "login \<Rightarrow> (account_row \<Rightarrow> bool) \<Rightarrow> int64 \<Rightarrow> nat probing" where
  "update_balances L P d = statement_of L {SelectAccounts, UpdateAccounts} (\<lambda>v.
     let rs = accounts (gs_db v) in
     if \<exists>r \<in> set rs. P r \<and> bigint_add (ar_balance r) d = None then Inl ''22003''
     else Inr (length (filter P rs), v\<lparr>gs_db := (gs_db v)\<lparr>accounts :=
       map (\<lambda>r. if P r then r\<lparr>ar_balance := ar_balance r + d\<rparr> else r) rs\<rparr>\<rparr>))"

section \<open>Out-of-band changes\<close>

text \<open>The arguments, where one that is missing or of another type is none.\<close>

record oob_args =
  arg_account_id :: "string option"
  arg_ordinal :: "int option"
  arg_delta :: "int64 option"
  arg_tenant_id :: "string option"

text \<open>\<open>ORDER BY transaction_id, sequence OFFSET n LIMIT 1\<close>\<close>

definition ordered_entries :: "login \<Rightarrow> entry_row list \<Rightarrow> entry_row list" where
  "ordered_entries L = sort_key (\<lambda>r. (lg_collate L (er_transaction r), sint (er_sequence r)))"

definition scan_target :: "entry_row list \<Rightarrow> failure + (string \<times> int64)" where
  "scan_target rows = (case rows of [] \<Rightarrow> Inl ErrNoRows | r # _ \<Rightarrow> Inr (er_transaction r, er_sequence r))"

definition scanning :: "(failure + 'a) probing \<Rightarrow> 'a probing" where
  "scanning m = andThen m (\<lambda>r. case r of Inl e \<Rightarrow> failing_with e | Inr x \<Rightarrow> returning x)"

definition targetEntry :: "login \<Rightarrow> oob_args \<Rightarrow> (string \<times> int64) probing" where
  "targetEntry L args = (case arg_account_id args of
     Some accountID \<Rightarrow>
       (let ordinal = (case arg_ordinal args of None \<Rightarrow> 0 | Some n \<Rightarrow> n)
        in saying ''locating the entry to tamper with'' (scanning (statement_of L {SelectEntries} (\<lambda>v.
             if ordinal < 0 then Inl ''2201X''
             else Inr (scan_target (drop (nat ordinal) (ordered_entries L
               (filter (\<lambda>r. er_account r = accountID) (entries (gs_db v))))), v)))))
   | None \<Rightarrow> saying ''locating an entry to tamper with'' (scanning
       (selecting L {SelectEntries} (\<lambda>v. scan_target (ordered_entries L (entries (gs_db v)))))))"

definition is_target :: "string \<times> int64 \<Rightarrow> entry_row \<Rightarrow> bool" where
  "is_target target r \<longleftrightarrow> (er_transaction r, er_sequence r) = target"

text \<open>A deferred call runs whatever happened; its own error is dropped.\<close>

definition deferring :: "unit probing \<Rightarrow> 'a probing \<Rightarrow> 'a probing" where
  "deferring cleanup m s = (case m s of (r, s') \<Rightarrow> (r, snd (cleanup s')))"

definition disabling :: "login \<Rightarrow> unit probing" where
  "disabling L = saying ''disabling the append-only trigger'' (set_append_only L False)"

definition alterEntryOutOfBand :: "login \<Rightarrow> oob_args \<Rightarrow> bool \<Rightarrow> unit probing" where
  "alterEntryOutOfBand L args disableTriggerFirst =
     andThen (targetEntry L args) (\<lambda>target.
       let delta = (case arg_delta args of None \<Rightarrow> 1 | Some d \<Rightarrow> d);
           update = saying ''altering a recorded entry'' (update_entries L (is_target target) delta)
       in if disableTriggerFirst
          then andThen (disabling L) (\<lambda>_. deferring (set_append_only L True) update)
          else update)"

definition eraseEntryOutOfBand :: "login \<Rightarrow> oob_args \<Rightarrow> unit probing" where
  "eraseEntryOutOfBand L args =
     andThen (targetEntry L args) (\<lambda>target.
     andThen (disabling L) (\<lambda>_. deferring (set_append_only L True)
       (saying ''erasing a recorded entry'' (delete_entries L (is_target target)))))"

definition disableProtectionOutOfBand :: "login \<Rightarrow> unit probing" where
  "disableProtectionOutOfBand L = disabling L"

definition alterStoredBalanceOutOfBand :: "login \<Rightarrow> oob_args \<Rightarrow> unit probing" where
  "alterStoredBalanceOutOfBand L args =
     (let accountID = (case arg_account_id args of None \<Rightarrow> [] | Some i \<Rightarrow> i);
          delta = (case arg_delta args of None \<Rightarrow> 0 | Some d \<Rightarrow> d);
          tenantID = (case arg_tenant_id args of None \<Rightarrow> [] | Some t \<Rightarrow> t)
      in if accountID = [] then failing_with (errors_New ''alter_stored_balance requires an account_id'')
         else if tenantID \<noteq> []
         then andThen (saying ''altering a stored balance''
             (update_balances L (\<lambda>r. ar_id r = accountID \<and> ar_tenant r = tenantID) delta)) (\<lambda>affected.
           if affected \<noteq> 1
           then failing_with (errors_New (''altering a stored balance: '' @ dec_text affected @ '' rows matched account '' @
             lg_quote L accountID @ '' of tenant '' @ lg_quote L tenantID @ '', want exactly 1''))
           else returning ())
         else andThen (saying ''altering a stored balance'' (update_balances L (\<lambda>r. ar_id r = accountID) delta))
           (\<lambda>_. returning ()))"

definition AttemptOutOfBandChange :: "login \<Rightarrow> string \<Rightarrow> oob_args \<Rightarrow> unit probing" where
  "AttemptOutOfBandChange L action args =
     andThen (saying ''connecting to attempt an out-of-band change'' connecting) (\<lambda>_.
       if action = ''alter_entry'' then alterEntryOutOfBand L args True
       else if action = ''alter_entry_protection_on'' then alterEntryOutOfBand L args False
       else if action = ''erase_entry'' then eraseEntryOutOfBand L args
       else if action = ''disable_protection'' then disableProtectionOutOfBand L
       else if action = ''alter_stored_balance'' then alterStoredBalanceOutOfBand L args
       else failing_with (errors_New (''unknown out-of-band action '' @ lg_quote L action)))"

section \<open>A posting that is interrupted\<close>

text \<open>The SQLSTATE of a constraint that an insert meets.\<close>

definition constraint_sqlstate :: "go_error \<Rightarrow> string" where
  "constraint_sqlstate e = (case e of
     ErrInfra what \<Rightarrow> if suffix ''_pkey'' what then ''23505'' else ''23503'' | _ \<Rightarrow> ''23503'')"

text \<open>An insert of a transaction that will never commit: checked, and seen by nobody.\<close>

definition inserting :: "login \<Rightarrow> store_right \<Rightarrow> (db \<Rightarrow> go_error + (unit \<times> db)) \<Rightarrow> unit probing" where
  "inserting L needed f = statement_of L {needed} (\<lambda>v. case f (gs_db v) of
     Inl e \<Rightarrow> Inl (constraint_sqlstate e) | Inr _ \<Rightarrow> Inr ((), v))"

definition interrupted_transaction :: "string \<Rightarrow> time \<Rightarrow> transaction_row" where
  "interrupted_transaction i now = \<lparr>tr_tenant = ''tnt_legacy_seed'', tr_id = i, tr_recorded_at = timestamptz now\<rparr>"

definition InterruptPostingMidWrite :: "login \<Rightarrow> time \<Rightarrow> string \<Rightarrow> string \<Rightarrow> int64 \<Rightarrow> string \<Rightarrow> unit probing" where
  "InterruptPostingMidWrite L now from to amountMinor key =
     andThen (saying ''connecting to interrupt a posting'' connecting) (\<lambda>_.
     andThen (saying ''opening the transaction to interrupt'' (reading (\<lambda>_. Inr ()))) (\<lambda>_.
       let row = interrupted_transaction (''interrupted-'' @ from @ ''-'' @ to @ ''-'' @ key) now
       in andThen (saying ''writing the transaction row before interruption''
            (inserting L InsertTransactions (insert_transaction row))) (\<lambda>_.
          saying ''writing the first leg before interruption''
            (inserting L InsertEntries (\<lambda>d. insert_entry
              \<lparr>er_tenant = ''tnt_legacy_seed'', er_transaction = tr_id row, er_account = from,
               er_counterparty = to, er_amount = - amountMinor, er_currency = ''USD'',
               er_recorded_at = timestamptz now, er_sequence = 0\<rparr>
              (d\<lparr>transactions := transactions d @ [row]\<rparr>))))))"

section \<open>Counts\<close>

definition transactions_of_key :: "string \<Rightarrow> db \<Rightarrow> string list" where
  "transactions_of_key key d = map kr_transaction (filter (\<lambda>r. kr_key r = key) (idempotency_keys d))"

definition CountEntryPairsForKey :: "login \<Rightarrow> string \<Rightarrow> int probing" where
  "CountEntryPairsForKey L key =
     andThen (saying (''connecting to count entry pairs for key '' @ lg_quote L key) connecting) (\<lambda>_.
     andThen (saying (''counting entry pairs for key '' @ lg_quote L key)
       (statement_of L {SelectEntries, SelectKeys} (\<lambda>v. case transactions_of_key key (gs_db v) of
          [] \<Rightarrow> Inr (0, v)
        | [x] \<Rightarrow> Inr (length (filter (\<lambda>r. er_transaction r = x) (entries (gs_db v))), v)
        | _ \<Rightarrow> Inl ''21000''))) (\<lambda>n.
     returning (int n div 2)))"

definition CountDistinctTransactionsForKey :: "login \<Rightarrow> string \<Rightarrow> int probing" where
  "CountDistinctTransactionsForKey L key =
     andThen (saying (''connecting to count transactions for key '' @ lg_quote L key) connecting) (\<lambda>_.
     saying (''counting transactions for key '' @ lg_quote L key)
       (selecting L {SelectKeys} (\<lambda>v. int (length (remdups (transactions_of_key key (gs_db v)))))))"

definition CountNegativeWalletObservations :: "login \<Rightarrow> int probing" where
  "CountNegativeWalletObservations L =
     andThen (saying ''connecting to observe wallet balances'' connecting) (\<lambda>_.
     saying ''counting negative wallet balances''
       (selecting L {SelectAccounts} (\<lambda>v. int (length
         (filter (\<lambda>r. ar_kind r = Wallet \<and> sint (ar_balance r) < 0) (accounts (gs_db v)))))))"

end
