(* ===== verification/Startup.thy ===== *)
theory Startup
  imports OutOfBand MigrateRun Router
begin

text \<open>
  The start of the binary, \<open>cmd/api/main.go\<close>: \<open>main\<close> chooses the command, \<open>serve\<close> probes the store as the
  application role before it opens it and listens. Listening itself is the standard library's.
\<close>

section \<open>The probe\<close>

text \<open>\<open>UPDATE entries SET amount_minor = amount_minor WHERE false\<close>: no row is touched.\<close>

definition probing_update :: "login \<Rightarrow> unit probing" where
  "probing_update L = update_entries L (\<lambda>_. False) 0"

definition probeStartup :: "login \<Rightarrow> unit probing" where
  "probeStartup L = (case lg_pool L of
     Some e \<Rightarrow> failing_with (wrapping ''parsing the probe DSN'' e)
   | None \<Rightarrow>
       andThen (saying ''opening a probe connection as the application role'' connecting) (\<lambda>_.
       andThen (saying ''the application role could not open a transaction'' (reading (\<lambda>_. Inr ()))) (\<lambda>_.
       andThen (saying ''the application role could not read'' (reading (\<lambda>_. Inr ()))) (\<lambda>_ s.
         case probing_update L s of
           (Inr _, s') \<Rightarrow> (Inl (errors_New
             ''the application role was able to UPDATE entries -- append-only guarantee (OPS-10) is not enforced''), s')
         | (Inl _, s') \<Rightarrow> (Inr (), s')))))"

definition dsnUser :: "login \<Rightarrow> string" where
  "dsnUser L = (case lg_user L of None \<Rightarrow> [] | Some u \<Rightarrow> u)"

text \<open>\<open>Open\<close> of \<open>store.go\<close>: a pool, and one ping.\<close>

definition Open_store :: "login \<Rightarrow> unit probing" where
  "Open_store L = (case lg_pool L of
     Some e \<Rightarrow> failing_with (wrapping ''opening the store as the application role'' e)
   | None \<Rightarrow> saying ''the application role could not reach the store'' connecting)"

section \<open>The commands\<close>

definition Getenv :: "Env \<Rightarrow> string \<Rightarrow> string" where
  "Getenv env name = (case env name of None \<Rightarrow> [] | Some v \<Rightarrow> v)"

text \<open>What \<open>serve\<close> comes to: one of its two refusals, each with exit code 1, or a router on an address.\<close>

datatype serve_outcome = StartRefused StartupRefusal | StoreFailed failure | Listening string Deps

definition serve_process :: "(string \<Rightarrow> login) \<Rightarrow> Deps \<Rightarrow> Env \<Rightarrow> guarded_store session \<Rightarrow> serve_outcome \<times> guarded_store session" where
  "serve_process login_of deps env s =
     (let L = login_of (Getenv env ''LEDGEROPS_APP_DSN'')
      in case probeStartup L s of
           (Inl e, s') \<Rightarrow> (StartRefused (ClassifyStartupError e (dsnUser L)), s')
         | (Inr _, s') \<Rightarrow>
             (case Open_store L s' of
                (Inl e, s'') \<Rightarrow> (StoreFailed e, s'')
              | (Inr _, s'') \<Rightarrow>
                  (Listening (if Getenv env ''LEDGEROPS_ADDR'' = [] then '':8080'' else Getenv env ''LEDGEROPS_ADDR'')
                    (production (Getenv env ''LEDGEROPS_OPERATOR_KEY'') (Getenv env ''LEDGEROPS_DEMO_TENANT_KEY'') deps),
                   s'')))"

text \<open>What \<open>main\<close> does with its arguments: a usage error and \<open>version\<close> exit with 2.\<close>

datatype invocation = UsageError usage_error | RunMigrate | Serve | NotAvailable Command

definition main_command :: "string list \<Rightarrow> invocation" where
  "main_command args = (case ParseArgs args of
     Inl e \<Rightarrow> UsageError e
   | Inr CommandMigrate \<Rightarrow> RunMigrate
   | Inr CommandServe \<Rightarrow> Serve
   | Inr CommandVersion \<Rightarrow> NotAvailable CommandVersion)"

definition exit_code :: "invocation \<Rightarrow> int option" where
  "exit_code i = (case i of UsageError _ \<Rightarrow> Some 2 | NotAvailable _ \<Rightarrow> Some 2 | _ \<Rightarrow> None)"

definition serve_exit :: "serve_outcome \<Rightarrow> int option" where
  "serve_exit z = (case z of Listening _ _ \<Rightarrow> None | _ \<Rightarrow> Some 1)"

end
