(* ===== verification/OutOfBandProps.thy ===== *)
theory OutOfBandProps
  imports Startup Verdict Journal
begin

text \<open>
  Who can rewrite the record: a role without the rights to, never; the privileged role, and then
  the books say so. And what the probe at start-up finds out about a role.
\<close>

section \<open>The record under a role\<close>

text \<open>The entries of \<open>es\<close> are still there as they were, and the trigger guards them.\<close>

definition record_guarded :: "entry_row list \<Rightarrow> guarded_store \<Rightarrow> bool" where
  "record_guarded es v \<longleftrightarrow> gs_append_only v \<and> prefix es (entries (gs_db v))"

text \<open>A role that can neither update nor delete entries nor alter their table.\<close>

definition powerless :: "login \<Rightarrow> bool" where
  "powerless L \<longleftrightarrow> {UpdateEntries, DeleteEntries, OwnsEntries} \<inter> lg_rights L = {}"

lemma app_role_powerless: "lg_rights L = ledgerops_app_rights \<Longrightarrow> powerless L"
  by (simp add: powerless_def ledgerops_app_rights_def)

lemma ensures_statement_of:
  assumes "\<And>v x v'. I v \<Longrightarrow> gs_migrated v \<Longrightarrow> needed \<subseteq> lg_rights L \<Longrightarrow> f v = Inr (x, v') \<Longrightarrow> I v' \<and> Q x"
  shows "ensures I (statement_of L needed f) Q"
  unfolding ensures_def
proof (intro allI impI)
  fix s assume s: "I (se_server s) \<and> steady_others I s"
  have "ensures I (calling_server (\<lambda>v.
     if \<not> gs_migrated v then (Inl (server_error ''42P01'' s), v)
     else if \<not> needed \<subseteq> lg_rights L then (Inl (server_error ''42501'' s), v)
     else (case f v of Inl sqlstate \<Rightarrow> (Inl (server_error sqlstate s), v) | Inr (x, v') \<Rightarrow> (Inr x, v')))) Q"
    by (rule ensures_calling_server) (use assms in \<open>auto split: if_splits sum.splits\<close>)
  then show "I (se_server (snd (statement_of L needed f s))) \<and> steady_others I (snd (statement_of L needed f s)) \<and>
      (\<forall>x. fst (statement_of L needed f s) = Inr x \<longrightarrow> Q x)"
    using s by (simp add: statement_of_def ensures_def)
qed

text \<open>A statement whose rights the role does not have never succeeds, and changes nothing.\<close>

lemma ensures_denied: "\<not> needed \<subseteq> lg_rights L \<Longrightarrow> ensures I (statement_of L needed f) (\<lambda>_. False)"
  by (rule ensures_statement_of) simp

lemma ensures_selecting [ensure_intros]: "ensures I (selecting L needed g) (\<lambda>_. True)"
  unfolding selecting_def by (rule ensures_statement_of) simp

lemma ensures_scanning [ensure_intros]: "ensures I m (\<lambda>_. True) \<Longrightarrow> ensures I (scanning m) (\<lambda>_. True)"
  unfolding scanning_def
  by (rule ensures_andThen_any, assumption) (auto split: sum.split intro: ensures_failing ensures_returning)

lemma ensures_targetEntry [ensure_intros]: "ensures I (targetEntry L args) (\<lambda>_. True)"
proof (cases "arg_account_id args")
  case None
  then show ?thesis unfolding targetEntry_def by (simp add: ensure_intros)
next
  case (Some a)
  have "ensures I (statement_of L {SelectEntries} (\<lambda>v. if n < 0 then Inl ''2201X'' else Inr (g v, v))) (\<lambda>_. True)"
    for n :: int and g :: "guarded_store \<Rightarrow> failure + (string \<times> int64)"
    by (rule ensures_statement_of) (auto split: if_splits)
  then show ?thesis using Some unfolding targetEntry_def by (simp add: Let_def ensure_intros)
qed

text \<open>Without the rights the changes of entries are refused before anything is altered.\<close>

lemma powerless_update: "powerless L \<Longrightarrow> ensures I (update_entries L P d) (\<lambda>_. False)"
  unfolding update_entries_def by (rule ensures_denied) (auto simp: powerless_def)

lemma powerless_disabling: "powerless L \<Longrightarrow> ensures I (disabling L) (\<lambda>_. False)"
  unfolding disabling_def set_append_only_def
  by (rule ensures_saying, rule ensures_denied) (auto simp: powerless_def)

lemma ensures_never: "ensures I m (\<lambda>_. False) \<Longrightarrow> ensures I (andThen m f) (\<lambda>_. False)"
  by (rule ensures_andThen [where P = "\<lambda>_. False"]) simp_all

lemma ensures_weaken: "ensures I m P \<Longrightarrow> (\<And>x. P x \<Longrightarrow> Q x) \<Longrightarrow> ensures I m Q"
  unfolding ensures_def by blast

lemma powerless_alter:
  assumes "powerless L"
  shows "ensures I (alterEntryOutOfBand L args b) (\<lambda>_. False)"
  unfolding alterEntryOutOfBand_def Let_def
  by (rule ensures_andThen, rule ensures_targetEntry)
    (simp add: ensures_never powerless_disabling powerless_update ensures_saying assms)

lemma powerless_erase:
  assumes "powerless L"
  shows "ensures I (eraseEntryOutOfBand L args) (\<lambda>_. False)"
  unfolding eraseEntryOutOfBand_def
  by (rule ensures_andThen, rule ensures_targetEntry) (simp add: ensures_never powerless_disabling assms)

text \<open>A change of stored balances leaves the entries alone.\<close>

lemma ensures_alter_balance:
  assumes "\<And>v rs. I v \<Longrightarrow> I (v\<lparr>gs_db := (gs_db v)\<lparr>accounts := rs\<rparr>\<rparr>)"
  shows "ensures I (alterStoredBalanceOutOfBand L args) (\<lambda>_. True)"
proof -
  have u: "ensures I (update_balances L P d) (\<lambda>_. True)" for P d
    unfolding update_balances_def
    by (rule ensures_statement_of) (use assms in \<open>auto simp: Let_def split: if_splits\<close>)
  show ?thesis
    unfolding alterStoredBalanceOutOfBand_def Let_def
    by (intro ensures_if ensures_andThen_any ensures_saying ensures_failing ensures_returning u) simp_all
qed

definition rewriting_actions :: "string set" where
  "rewriting_actions = {''alter_entry'', ''alter_entry_protection_on'', ''erase_entry'', ''disable_protection''}"

lemma powerless_attempt:
  assumes "powerless L"
  shows "ensures (record_guarded es) (AttemptOutOfBandChange L action args) (\<lambda>_. action \<notin> rewriting_actions)"
proof -
  have keep: "ensures (record_guarded es) (alterStoredBalanceOutOfBand L args) (\<lambda>_. True)"
    by (rule ensures_alter_balance) (simp add: record_guarded_def)
  have never: "ensures I m (\<lambda>_. False) \<Longrightarrow> ensures I m Q" for I and m :: "unit probing" and Q
    by (erule ensures_weaken) simp
  show ?thesis
    unfolding AttemptOutOfBandChange_def rewriting_actions_def
    by (rule ensures_andThen_any, intro ensure_intros, unfold connecting_def, rule ensures_reading_any)
      (auto simp: disableProtectionOutOfBand_def intro!: ensures_if ensures_failing never [OF powerless_alter [OF assms]]
        never [OF powerless_erase [OF assms]] never [OF powerless_disabling [OF assms]] ensures_weaken [OF keep])
qed

section \<open>What the privileged role can do\<close>

text \<open>A session in which nothing fails and nobody else is at work.\<close>

definition undisturbed :: "'v session \<Rightarrow> bool" where
  "undisturbed s \<longleftrightarrow> (\<forall>n. se_faults s n = None) \<and> (\<forall>n v. se_others s n v = v)"

definition after_call :: "'v \<Rightarrow> 'v session \<Rightarrow> 'v session" where
  "after_call v s = s\<lparr>se_server := v, se_calls := Suc (se_calls s)\<rparr>"

lemma after_call_sel [simp]:
  "se_server (after_call v s) = v" "undisturbed (after_call v s) = undisturbed s"
  by (simp_all add: after_call_def undisturbed_def)

lemma undisturbed_call:
  "undisturbed s \<Longrightarrow> calling_server f s = (fst (f (se_server s)), after_call (snd (f (se_server s))) s)"
  by (simp add: undisturbed_def calling_server_def call_alone_def others_turn_def Let_def after_call_def split: prod.split)

lemma undisturbed_reading: "undisturbed s \<Longrightarrow> reading g s = (g (se_server s), after_call (se_server s) s)"
  by (simp add: reading_def undisturbed_call)

lemma undisturbed_statement:
  assumes "undisturbed s" and "gs_migrated (se_server s)" and "needed \<subseteq> lg_rights L"
  shows "statement_of L needed f s = (case f (se_server s) of
      Inl sqlstate \<Rightarrow> (Inl (server_error sqlstate s), after_call (se_server s) s)
    | Inr (x, v) \<Rightarrow> (Inr x, after_call v s))"
  using assms by (simp add: statement_of_def undisturbed_call split: sum.split prod.split)

text \<open>The entry that the arguments name.\<close>

definition names_entry :: "login \<Rightarrow> oob_args \<Rightarrow> db \<Rightarrow> entry_row \<Rightarrow> bool" where
  "names_entry L args d r \<longleftrightarrow> (case arg_account_id args of
     None \<Rightarrow> (\<exists>rest. ordered_entries L (entries d) = r # rest)
   | Some i \<Rightarrow> (\<exists>n rest. arg_ordinal args = Some n \<and> 0 \<le> n \<and>
       drop (nat n) (ordered_entries L (filter (\<lambda>e. er_account e = i) (entries d))) = r # rest))"

lemma names_entry_mem:
  assumes "names_entry L args d r"
  shows "r \<in> set (entries d)"
proof (cases "arg_account_id args")
  case None
  then have "r \<in> set (ordered_entries L (entries d))" using assms by (auto simp: names_entry_def)
  then show ?thesis by (simp add: ordered_entries_def)
next
  case (Some i)
  then obtain n rest where "drop n (ordered_entries L (filter (\<lambda>e. er_account e = i) (entries d))) = r # rest"
    using assms by (auto simp: names_entry_def)
  then have "r \<in> set (ordered_entries L (filter (\<lambda>e. er_account e = i) (entries d)))"
    by (metis in_set_dropD list.set_intros(1))
  then show ?thesis by (simp add: ordered_entries_def)
qed

lemma targetEntry_names:
  assumes "undisturbed s" "gs_migrated (se_server s)" "SelectEntries \<in> lg_rights L"
    and "names_entry L args (gs_db (se_server s)) r"
  shows "targetEntry L args s = (Inr (er_transaction r, er_sequence r), after_call (se_server s) s)"
proof (cases "arg_account_id args")
  case None
  then obtain rest where "ordered_entries L (entries (gs_db (se_server s))) = r # rest"
    using assms(4) by (auto simp: names_entry_def)
  then show ?thesis
    using None assms(1-3)
    by (simp add: targetEntry_def selecting_def saying_def scanning_def andThen_def undisturbed_statement
        scan_target_def returning_def)
next
  case (Some i)
  then obtain n rest where "arg_ordinal args = Some n" "0 \<le> n"
      "drop (nat n) (ordered_entries L (filter (\<lambda>e. er_account e = i) (entries (gs_db (se_server s))))) = r # rest"
    using assms(4) by (auto simp: names_entry_def)
  then show ?thesis
    using Some assms(1-3)
    by (simp add: targetEntry_def saying_def scanning_def andThen_def undisturbed_statement
        scan_target_def returning_def)
qed

text \<open>The record with the amount of one entry altered.\<close>

definition altered :: "entry_row \<Rightarrow> int64 \<Rightarrow> db \<Rightarrow> db" where
  "altered r \<delta> d = d\<lparr>entries := map (\<lambda>e. if is_target (er_transaction r, er_sequence r) e
     then e\<lparr>er_amount := er_amount e + \<delta>\<rparr> else e) (entries d)\<rparr>"

lemma altered_tables [simp]:
  "accounts (altered r \<delta> d) = accounts d" "transactions (altered r \<delta> d) = transactions d"
  "idempotency_keys (altered r \<delta> d) = idempotency_keys d" "tenants (altered r \<delta> d) = tenants d"
  "account_exists (altered r \<delta> d) = account_exists d" "tenant_exists (altered r \<delta> d) = tenant_exists d"
  "transaction_exists (altered r \<delta> d) = transaction_exists d"
  by (simp_all add: altered_def account_exists_def tenant_exists_def transaction_exists_def db_account_def
      db_tenant_def fun_eq_iff)

lemma sequence_unique:
  assumes "journal d" and "r \<in> set (entries d)"
  shows "filter (is_target (er_transaction r, er_sequence r)) (entries d) = [r]"
proof -
  have "transaction_exists d (er_transaction r)" using assms by (auto simp: journal_def references_def)
  then obtain t where t: "t \<in> set (transactions d)" "tr_id t = er_transaction r"
    by (auto simp: transaction_exists_def)
  then have "entry_pair d t" using assms(1) by (simp add: journal_def double_entry_def)
  then obtain l m where p: "filter (\<lambda>e. er_transaction e = tr_id t) (entries d) = [l, m]"
      "er_sequence l = 0" "er_sequence m = 1"
    by (auto simp: entry_pair_def)
  have "filter (is_target (er_transaction r, er_sequence r)) (entries d) =
      filter (\<lambda>e. er_sequence e = er_sequence r) (filter (\<lambda>e. er_transaction e = tr_id t) (entries d))"
    unfolding filter_filter using t(2) by (auto simp: is_target_def intro: filter_cong)
  then have "filter (is_target (er_transaction r, er_sequence r)) (entries d) =
      filter (\<lambda>e. er_sequence e = er_sequence r) [l, m]" unfolding p(1) .
  moreover have "r \<in> set (filter (\<lambda>e. er_transaction e = tr_id t) (entries d))" using assms(2) t(2) by simp
  then have "r = l \<or> r = m" unfolding p(1) by simp
  ultimately show ?thesis using p(2,3) by auto
qed

lemma amounts_altered:
  assumes "filter P es = [r]" and "sint (er_amount r + \<delta>) = sint (er_amount r) + sint \<delta>"
    and "\<And>e. Q (e\<lparr>er_amount := er_amount e + \<delta>\<rparr>) = Q e"
  shows "amounts (filter Q (map (\<lambda>e. if P e then e\<lparr>er_amount := er_amount e + \<delta>\<rparr> else e) es)) =
    amounts (filter Q es) + (if Q r then sint \<delta> else 0)"
proof -
  obtain us vs where es: "es = us @ r # vs" "P r" "\<forall>u \<in> set us. \<not> P u" "filter P vs = []"
    using assms(1) by (auto simp: filter_eq_Cons_iff)
  have same: "map (\<lambda>e. if P e then e\<lparr>er_amount := er_amount e + \<delta>\<rparr> else e) xs = xs" if "\<forall>x \<in> set xs. \<not> P x" for xs
    using that by (induction xs) auto
  have "\<forall>v \<in> set vs. \<not> P v" using es(4) by (simp add: filter_empty_conv)
  then show ?thesis using es(1-3) same assms(2,3) by simp
qed

text \<open>The change that the arguments ask for is one the column can hold.\<close>

definition asked_delta :: "oob_args \<Rightarrow> int64" where
  "asked_delta args = (case arg_delta args of None \<Rightarrow> 1 | Some \<delta> \<Rightarrow> \<delta>)"

definition alterable :: "login \<Rightarrow> oob_args \<Rightarrow> db \<Rightarrow> entry_row \<Rightarrow> bool" where
  "alterable L args d r \<longleftrightarrow> journal d \<and> names_entry L args d r \<and>
     in_int64 (sint (er_amount r) + sint (asked_delta args))"

lemma alterable_update:
  assumes "alterable L args d r"
  shows "\<not> (\<exists>e \<in> set (entries d). is_target (er_transaction r, er_sequence r) e \<and>
      bigint_add (er_amount e) (asked_delta args) = None)"
    and "\<exists>e \<in> set (entries d). is_target (er_transaction r, er_sequence r) e"
proof -
  have f: "filter (is_target (er_transaction r, er_sequence r)) (entries d) = [r]"
    using assms sequence_unique names_entry_mem by (auto simp: alterable_def)
  have "e = r" if "e \<in> set (entries d)" "is_target (er_transaction r, er_sequence r) e" for e
  proof -
    have "e \<in> set (filter (is_target (er_transaction r, er_sequence r)) (entries d))" using that by simp
    then show ?thesis unfolding f by simp
  qed
  then show "\<not> (\<exists>e \<in> set (entries d). is_target (er_transaction r, er_sequence r) e \<and>
      bigint_add (er_amount e) (asked_delta args) = None)"
    using assms by (auto simp: alterable_def bigint_add_def)
  have "r \<in> set (entries d)" using assms names_entry_mem by (auto simp: alterable_def)
  then show "\<exists>e \<in> set (entries d). is_target (er_transaction r, er_sequence r) e"
    by (auto simp: is_target_def)
qed

text \<open>With the trigger disabled first, the privileged role alters the entry, and the trigger is back.\<close>

lemma owner_alters:
  assumes s: "undisturbed s" "gs_migrated (se_server s)" "lg_rights L = UNIV"
    and r: "alterable L args (gs_db (se_server s)) r"
  shows "\<exists>s'. AttemptOutOfBandChange L ''alter_entry'' args s = (Inr (), s') \<and>
    se_server s' = (se_server s)\<lparr>gs_db := altered r (asked_delta args) (gs_db (se_server s)), gs_append_only := True\<rparr>"
proof -
  let ?s1 = "after_call (se_server s) s" and ?off = "(se_server s)\<lparr>gs_append_only := False\<rparr>"
  let ?new = "?off\<lparr>gs_db := altered r (asked_delta args) (gs_db (se_server s))\<rparr>"
  have target: "targetEntry L args ?s1 = (Inr (er_transaction r, er_sequence r), after_call (se_server s) ?s1)"
    using targetEntry_names [of ?s1 L args r] s r by (simp add: alterable_def)
  have update: "update_entries L (is_target (er_transaction r, er_sequence r)) (asked_delta args) t =
      (Inr (), after_call ?new t)" if "undisturbed t" "se_server t = ?off" for t
    using that s alterable_update(1) [OF r]
    by (simp add: update_entries_def undisturbed_statement Let_def altered_def)
  have trigger: "set_append_only L b t = (Inr (), after_call ((se_server t)\<lparr>gs_append_only := b\<rparr>) t)"
    if "undisturbed t" "gs_migrated (se_server t)" for b t
    using that s(3) by (simp add: set_append_only_def undisturbed_statement)
  have "alterEntryOutOfBand L args True ?s1 =
      (Inr (), after_call (?new\<lparr>gs_append_only := True\<rparr>) (after_call ?new (after_call ?off (after_call (se_server s) ?s1))))"
    using s update [of "after_call ?off (after_call (se_server s) ?s1)"] trigger
    by (simp add: alterEntryOutOfBand_def andThen_def target disabling_def saying_def deferring_def
        flip: asked_delta_def)
  then show ?thesis
    using s(1) by (simp add: AttemptOutOfBandChange_def andThen_def saying_def connecting_def undisturbed_reading)
qed

text \<open>With the trigger left on, even the privileged role is refused.\<close>

lemma owner_refused:
  assumes s: "undisturbed s" "gs_migrated (se_server s)" "lg_rights L = UNIV" "gs_append_only (se_server s)"
    and r: "alterable L args (gs_db (se_server s)) r"
  shows "\<exists>e s'. AttemptOutOfBandChange L ''alter_entry_protection_on'' args s = (Inl e, s') \<and>
    fail_sqlstate e = Some ''P0001'' \<and> se_server s' = se_server s"
proof -
  let ?s1 = "after_call (se_server s) s"
  have target: "targetEntry L args ?s1 = (Inr (er_transaction r, er_sequence r), after_call (se_server s) ?s1)"
    using targetEntry_names [of ?s1 L args r] s r by (simp add: alterable_def)
  let ?s2 = "after_call (se_server s) ?s1"
  have "update_entries L (is_target (er_transaction r, er_sequence r)) (asked_delta args) ?s2 =
      (Inl (server_error ''P0001'' ?s2), after_call (se_server s) ?s2)"
    using s alterable_update [OF r] by (auto simp: update_entries_def undisturbed_statement Let_def)
  then have "alterEntryOutOfBand L args False ?s1 =
      (Inl (wrapping ''altering a recorded entry'' (server_error ''P0001'' ?s2)), after_call (se_server s) ?s2)"
    by (simp add: alterEntryOutOfBand_def andThen_def target saying_def flip: asked_delta_def)
  then show ?thesis
    using s(1) by (simp add: AttemptOutOfBandChange_def andThen_def saying_def connecting_def undisturbed_reading
        wrapping_def server_error_def)
qed

section \<open>An alteration is named by the verdict\<close>

lemma altered_sums:
  assumes "alterable L args d r" and "\<And>e x. Q (e\<lparr>er_amount := x\<rparr>) = Q e"
  shows "amounts (filter Q (entries (altered r (asked_delta args) d))) =
    amounts (filter Q (entries d)) + (if Q r then sint (asked_delta args) else 0)"
proof -
  have "filter (is_target (er_transaction r, er_sequence r)) (entries d) = [r]"
    using assms(1) sequence_unique names_entry_mem by (auto simp: alterable_def)
  moreover have "sint (er_amount r + asked_delta args) = sint (er_amount r) + sint (asked_delta args)"
    using assms(1) by (simp add: alterable_def sint_add_exact)
  ultimately show ?thesis unfolding altered_def using amounts_altered assms(2) by simp
qed

lemma altered_total:
  "alterable L args d r \<Longrightarrow> entry_total (altered r (asked_delta args) d) t i =
     entry_total d t i + (if (er_tenant r, er_account r) = (t, i) then sint (asked_delta args) else 0)"
  unfolding entry_total_def by (subst altered_sums) auto

text \<open>What the altered account shows: its stored balance, and the sum that is now different.\<close>

definition alteration :: "db \<Rightarrow> entry_row \<Rightarrow> int64 \<Rightarrow> Drift" where
  "alteration d r \<delta> = \<lparr>drift_TenantID = er_tenant r, drift_AccountID = er_account r,
     drift_Stored = \<lparr>minorUnits = word_of_int (entry_total d (er_tenant r) (er_account r)), currency = ledgerCurrency\<rparr>,
     drift_Computed = \<lparr>minorUnits = word_of_int (entry_total d (er_tenant r) (er_account r)) + \<delta>, currency = ledgerCurrency\<rparr>,
     drift_Delta = \<lparr>minorUnits = \<delta>, currency = ledgerCurrency\<rparr>\<rparr>"

lemma altered_auditable:
  assumes b: "books d" "zero_sum d" and r: "alterable L args d r"
    and range: "in_int64 (entry_total d (er_tenant r) (er_account r) + sint (asked_delta args))"
  shows "auditable Unscoped (altered r (asked_delta args) d)"
proof -
  let ?d = "altered r (asked_delta args) d"
  have "auditable Unscoped d" using b by (rule books_auditable)
  then have a: "schema d" "references d" "floored d" "single_currency d"
    "\<forall>e \<in> set (entries d). in_int64 (entry_total d (er_tenant e) (er_account e))" by (simp_all add: auditable_def)
  have rows: "\<exists>e' \<in> set (entries d). er_transaction e' = er_transaction e \<and> er_tenant e' = er_tenant e \<and>
      er_account e' = er_account e \<and> er_counterparty e' = er_counterparty e \<and> er_currency e' = er_currency e"
    if "e \<in> set (entries ?d)" for e
    using that by (auto simp: altered_def split: if_splits)
  have "schema ?d" "floored ?d" using a(1,3) by (simp_all add: schema_def floored_def)
  moreover have "references ?d" using a(2) rows by (fastforce simp: references_def)
  moreover have "single_currency ?d" using a(4) rows by (fastforce simp: single_currency_def)
  moreover have "in_int64 (entry_total ?d (er_tenant e) (er_account e))" if e: "e \<in> set (entries ?d)" for e
    using rows [OF e] a(5) range by (auto simp: altered_total [OF r])
  moreover have "amounts (scoped_entries Unscoped ?d) = sint (asked_delta args)"
    using altered_sums [OF r, of "\<lambda>_. True"] b(2) [unfolded zero_sum_def, THEN spec, of "\<lambda>_. True"]
    by (simp add: scoped_entries_def)
  ultimately show ?thesis by (simp add: auditable_def)
qed

lemma altered_account:
  assumes b: "books d" and r: "alterable L args d r" and a: "ra \<in> set (accounts d)"
  shows "drifts (altered r (asked_delta args) d) ra \<longleftrightarrow>
      asked_delta args \<noteq> 0 \<and> account_key ra = (er_tenant r, er_account r)"
    and "account_key ra = (er_tenant r, er_account r) \<Longrightarrow>
      drift_row (altered r (asked_delta args) d) ra = alteration d r (asked_delta args)"
proof -
  have bal: "sint (ar_balance ra) = entry_total d (ar_tenant ra) (ar_id ra)"
    using b a by (simp add: books_def derived_def)
  have zero: "sint (asked_delta args) = 0 \<longleftrightarrow> asked_delta args = 0"
    using sint_eq_iff [of "asked_delta args" 0] by simp
  show "drifts (altered r (asked_delta args) d) ra \<longleftrightarrow>
      asked_delta args \<noteq> 0 \<and> account_key ra = (er_tenant r, er_account r)"
    using zero by (auto simp: drifts_def altered_total [OF r] bal account_key_def)
  assume k: "account_key ra = (er_tenant r, er_account r)"
  then have t: "ar_tenant ra = er_tenant r" "ar_id ra = er_account r" by (simp_all add: account_key_def)
  have "ar_balance ra = word_of_int (entry_total d (er_tenant r) (er_account r))"
    using bal t by (metis word_of_int_sint_int64)
  then show "drift_row (altered r (asked_delta args) d) ra = alteration d r (asked_delta args)"
    by (simp add: drift_row_def alteration_def altered_total [OF r] t word_of_int_sint_int64)
qed

lemma alteration_named:
  assumes w: "quiet w" "w_committed w = altered r (asked_delta args) d"
    and b: "books d" "zero_sum d" and r: "alterable L args d r" and n: "asked_delta args \<noteq> 0"
    and range: "in_int64 (entry_total d (er_tenant r) (er_account r) + sint (asked_delta args))"
  shows "\<exists>rep w'. VerifyBooks Unscoped w = (Inr rep, w') \<and> \<not> rep_Balanced rep \<and>
    set (rep_Drifted rep) = {alteration d r (asked_delta args)} \<and>
    rep_TrialBalance rep = \<lparr>minorUnits = asked_delta args, currency = ledgerCurrency\<rparr>"
proof -
  let ?d = "altered r (asked_delta args) d"
  have "auditable Unscoped ?d" using b r range by (rule altered_auditable)
  then obtain rep w' where run: "VerifyBooks Unscoped w = (Inr rep, w')" and rep: "report_on Unscoped ?d rep"
    using VerifyBooks_report [of w Unscoped] w by (auto simp: Resolve_simps)
  have "r \<in> set (entries d)" using r names_entry_mem by (auto simp: alterable_def)
  then have "account_exists d (er_tenant r) (er_account r)" using b(1) by (auto simp: books_def references_def)
  then obtain ra where "db_account d (er_tenant r) (er_account r) = Some ra" by (auto simp: account_exists_def)
  from db_account_key [OF this]
  have ra: "ra \<in> set (accounts d)" "account_key ra = (er_tenant r, er_account r)" by (simp_all add: account_key_def)
  have all: "set (scoped_accounts Unscoped ?d) = set (accounts d)" by (auto simp: scoped_accounts_def)
  obtain rs where rs: "set rs = set (accounts d)" "rep_Drifted rep = map (drift_row ?d) (filter (drifts ?d) rs)"
    using rep all by (auto simp: report_on_def)
  have "set (filter (drifts ?d) rs) = {x \<in> set (accounts d). account_key x = (er_tenant r, er_account r)}"
    using rs(1) altered_account(1) [OF b(1) r] n by auto
  then have named: "set (rep_Drifted rep) = {alteration d r (asked_delta args)}"
    using rs(2) ra altered_account(2) [OF b(1) r] by auto
  then have "\<not> rep_Balanced rep" using rep by (auto simp: report_on_def)
  moreover have "amounts (scoped_entries Unscoped ?d) = sint (asked_delta args)"
    using altered_sums [OF r, of "\<lambda>_. True"] b(2) [unfolded zero_sum_def, THEN spec, of "\<lambda>_. True"]
    by (simp add: scoped_entries_def)
  then have "rep_TrialBalance rep = \<lparr>minorUnits = asked_delta args, currency = ledgerCurrency\<rparr>"
    using rep by (simp add: report_on_def word_of_int_sint_int64)
  ultimately show ?thesis using run named by blast
qed

section \<open>Starting up\<close>

text \<open>What the probe asks of a role, where the tables are there.\<close>

definition probe_passes :: "login \<Rightarrow> guarded_store \<Rightarrow> bool" where
  "probe_passes L v \<longleftrightarrow> lg_pool L = None \<and> (gs_migrated v \<longrightarrow> \<not> {SelectEntries, UpdateEntries} \<subseteq> lg_rights L)"

lemma probing_update_undisturbed:
  "undisturbed s \<Longrightarrow> \<exists>r. probing_update L s = (r, after_call (se_server s) s) \<and>
     (isl r \<longleftrightarrow> \<not> (gs_migrated (se_server s) \<and> {SelectEntries, UpdateEntries} \<subseteq> lg_rights L))"
  by (simp add: probing_update_def update_entries_def statement_of_def undisturbed_call)

lemma probeStartup_undisturbed:
  assumes "undisturbed s"
  shows "\<exists>r s'. probeStartup L s = (r, s') \<and> undisturbed s' \<and> se_server s' = se_server s \<and>
    (r = Inr () \<longleftrightarrow> probe_passes L (se_server s))"
proof (cases "lg_pool L")
  case None
  let ?s = "after_call (se_server s) (after_call (se_server s) (after_call (se_server s) s))"
  obtain r where r: "probing_update L ?s = (r, after_call (se_server s) ?s)"
      "isl r \<longleftrightarrow> \<not> (gs_migrated (se_server s) \<and> {SelectEntries, UpdateEntries} \<subseteq> lg_rights L)"
    using probing_update_undisturbed [of ?s L] assms by auto
  then show ?thesis
    using assms None
    by (cases r) (simp_all add: probeStartup_def andThen_def saying_def connecting_def undisturbed_reading probe_passes_def)
next
  case (Some e)
  then show ?thesis using assms by (simp add: probeStartup_def failing_with_def probe_passes_def)
qed

lemma serve_listens:
  assumes "undisturbed s" and L: "L = login_of (Getenv env ''LEDGEROPS_APP_DSN'')"
  shows "(\<exists>addr deps'. fst (serve_process login_of deps env s) = Listening addr deps') \<longleftrightarrow> probe_passes L (se_server s)"
proof -
  obtain r s' where p: "probeStartup L s = (r, s')" "undisturbed s'" "r = Inr () \<longleftrightarrow> probe_passes L (se_server s)"
    using probeStartup_undisturbed [OF assms(1)] by metis
  have open_ok: "lg_pool L = None \<Longrightarrow> fst (Open_store L s') = Inr ()"
    using p(2) by (simp add: Open_store_def saying_def connecting_def undisturbed_reading)
  show ?thesis
  proof (cases r)
    case (Inl e)
    then show ?thesis using p by (simp add: serve_process_def Let_def flip: L)
  next
    case (Inr u)
    then have "fst (Open_store L s') = Inr ()" using p(3) open_ok by (simp add: probe_passes_def)
    then obtain t where "Open_store L s' = (Inr (), t)" by (cases "Open_store L s'") auto
    then show ?thesis using Inr p(1,3) by (simp add: serve_process_def Let_def flip: L)
  qed
qed

end
