(* ===== verification/Guarding.thy ===== *)
theory Guarding
  imports OutOfBandProps Samples
begin

text \<open>
  The properties of what reaches past the ports, and of the start of the service: who can rewrite
  the record, what the books say then, which roles the service starts with, and what the counts
  that the checks of the program use find in books in order.
\<close>

section \<open>The counts\<close>

lemma filter_by_key: "distinct (map f xs) \<Longrightarrow> r \<in> set xs \<Longrightarrow> filter (\<lambda>x. f x = f r) xs = [r]"
proof (induction xs)
  case (Cons x xs)
  then show ?case by (cases "x = r") (auto simp: filter_empty_conv rev_image_eqI)
qed simp

lemma journal_transactions_of_key:
  assumes "journal d"
  shows "(transactions_of_key k d = [] \<and> db_key d k = None) \<or>
    (\<exists>x. transactions_of_key k d = [x] \<and> db_key d k \<noteq> None \<and>
       length (filter (\<lambda>r. er_transaction r = x) (entries d)) = 2)"
proof (cases "db_key d k")
  case None
  then show ?thesis by (auto simp: db_key_def find_None_iff transactions_of_key_def filter_empty_conv)
next
  case (Some r)
  then have r: "r \<in> set (idempotency_keys d)" "kr_key r = k" by (auto simp: db_key_def dest: find_Some_memD)
  have "distinct (map kr_key (idempotency_keys d))" using assms by (simp add: journal_def schema_def)
  then have "filter (\<lambda>x. kr_key x = k) (idempotency_keys d) = [r]"
    using filter_by_key [of kr_key _ r] r by auto
  then have one: "transactions_of_key k d = [kr_transaction r]" by (simp add: transactions_of_key_def)
  have "kr_transaction r \<in> set (map kr_transaction (idempotency_keys d))" using r(1) by simp
  also have "map kr_transaction (idempotency_keys d) = map tr_id (transactions d)"
    using assms by (simp add: journal_def claimed_once_def)
  finally have "kr_transaction r \<in> tr_id ` set (transactions d)" by simp
  then obtain t where "t \<in> set (transactions d)" "tr_id t = kr_transaction r" by auto
  then have "entry_pair d t" "tr_id t = kr_transaction r" using assms by (simp_all add: journal_def double_entry_def)
  then show ?thesis using one Some by (auto simp: entry_pair_def)
qed

lemma books_no_negative_wallet: "books d \<Longrightarrow> filter (\<lambda>r. ar_kind r = Wallet \<and> sint (ar_balance r) < 0) (accounts d) = []"
  by (auto simp: books_def floored_def filter_empty_conv)

lemma saying_at: "saying what (statement_of L n f) s = (case statement_of L n f s of
    (Inl e, s') \<Rightarrow> (Inl (wrapping what e), s') | (Inr x, s') \<Rightarrow> (Inr x, s'))"
  by (simp add: saying_def)

text \<open>
  What the checks of the program count in books in order: a claimed key has exactly one
  pair of entries and one transaction, an unclaimed one has none, and no wallet is negative.
\<close>

theorem counts_agree:
  assumes "undisturbed s" and "gs_migrated (se_server s)" and "ledgerops_app_rights \<subseteq> lg_rights L"
    and "books (gs_db (se_server s))" and "journal (gs_db (se_server s))"
  shows "fst (CountEntryPairsForKey L k s) = Inr (if db_key (gs_db (se_server s)) k = None then 0 else 1) \<and>
     fst (CountDistinctTransactionsForKey L k s) = Inr (if db_key (gs_db (se_server s)) k = None then 0 else 1) \<and>
     fst (CountNegativeWalletObservations L s) = Inr 0"
proof -
  let ?d = "gs_db (se_server s)" and ?s = "after_call (se_server s) s"
  have rights: "{SelectEntries, SelectKeys} \<subseteq> lg_rights L" "{SelectKeys} \<subseteq> lg_rights L" "{SelectAccounts} \<subseteq> lg_rights L"
    using assms(3) by (auto simp: ledgerops_app_rights_def)
  have run: "saying what connecting s = (Inr (), ?s)" for what
    using assms(1) by (simp add: saying_def connecting_def undisturbed_reading)
  have u: "undisturbed ?s" "gs_migrated (se_server ?s)" "gs_db (se_server ?s) = ?d" using assms(1,2) by simp_all
  have "fst (CountNegativeWalletObservations L s) = Inr 0"
    using books_no_negative_wallet [OF assms(4)]
    by (simp add: CountNegativeWalletObservations_def undisturbed_statement [OF u(1,2) rights(3)] andThen_def run saying_at selecting_def)
  moreover have "fst (CountDistinctTransactionsForKey L k s) = Inr (if db_key ?d k = None then 0 else 1)"
    using journal_transactions_of_key [OF assms(5), of k]
    by (auto simp: CountDistinctTransactionsForKey_def undisturbed_statement [OF u(1,2) rights(2)] andThen_def run saying_at selecting_def)
  moreover have "fst (CountEntryPairsForKey L k s) = Inr (if db_key ?d k = None then 0 else 1)"
    using journal_transactions_of_key [OF assms(5), of k]
    by (auto simp: CountEntryPairsForKey_def undisturbed_statement [OF u(1,2) rights(1)] andThen_def run saying_at returning_def)
  ultimately show ?thesis by simp
qed

section \<open>Samples\<close>

definition sample_store :: "guarded_store session" where
  "sample_store = \<lparr>se_server = \<lparr>gs_migrated = True, gs_db = sample_db, gs_append_only = True\<rparr>, se_calls = 0,
     se_faults = (\<lambda>_. None), se_others = (\<lambda>_ v. v), se_messages = (\<lambda>_. [])\<rparr>"

definition sample_login :: "store_right set \<Rightarrow> login" where
  "sample_login rights = \<lparr>lg_rights = rights, lg_collate = (\<lambda>s. s), lg_quote = (\<lambda>s. s), lg_pool = None, lg_user = None\<rparr>"

definition no_args :: oob_args where
  "no_args = \<lparr>arg_account_id = None, arg_ordinal = None, arg_delta = Some 7, arg_tenant_id = None\<rparr>"

lemma sample_store_sel [simp]:
  "undisturbed sample_store" "gs_migrated (se_server sample_store)" "gs_db (se_server sample_store) = sample_db"
  "gs_append_only (se_server sample_store)" "lg_rights (sample_login r) = r" "lg_pool (sample_login r) = None"
  "steady_others I sample_store"
  by (simp_all add: sample_store_def sample_login_def undisturbed_def steady_others_def)

theorem counts_agree_witness:
  "fst (CountEntryPairsForKey (sample_login ledgerops_app_rights) ''q'' sample_store) = Inr 1"
proof -
  have "db_key sample_db ''q'' \<noteq> None" by (simp add: db_key_def)
  then show ?thesis using counts_agree [of sample_store "sample_login ledgerops_app_rights" "''q''"] by simp
qed

text \<open>
  C35: the application role cannot rewrite the record: whatever fails and whoever else is at work
  without touching it, none of its attempts alters, erases or adds to the recorded entries or
  lifts their protection, and every attempt on them is answered with an error.
\<close>

theorem app_role_cannot_rewrite:
  assumes "lg_rights L = ledgerops_app_rights" and "record_guarded es (se_server s)"
    and "steady_others (record_guarded es) s" and "AttemptOutOfBandChange L action args s = (r, s')"
  shows "record_guarded es (se_server s') \<and> (action \<in> rewriting_actions \<longrightarrow> (\<exists>e. r = Inl e))"
proof -
  note D = ensuresD [OF powerless_attempt [OF app_role_powerless [OF assms(1)]] assms(2-4)]
  show ?thesis using D(1,3) by (cases r) auto
qed

theorem app_role_cannot_rewrite_witness:
  "\<exists>e. fst (AttemptOutOfBandChange (sample_login ledgerops_app_rights) ''alter_entry'' no_args sample_store) = Inl e"
  using app_role_cannot_rewrite [of "sample_login ledgerops_app_rights" "entries sample_db" sample_store "''alter_entry''" no_args
      "fst (AttemptOutOfBandChange (sample_login ledgerops_app_rights) ''alter_entry'' no_args sample_store)"
      "snd (AttemptOutOfBandChange (sample_login ledgerops_app_rights) ''alter_entry'' no_args sample_store)"]
  by (simp add: record_guarded_def rewriting_actions_def)

text \<open>
  C36: an alteration by the privileged role goes through only with the trigger disabled, which is
  back afterwards, and the next verdict on the books names exactly the account whose entry was
  altered, with its stored balance, its new sum and the difference.
\<close>

theorem tampering_is_named:
  assumes "undisturbed s" and "gs_migrated (se_server s)" and "lg_rights L = UNIV"
    and "alterable L args (gs_db (se_server s)) r" and "asked_delta args \<noteq> 0"
    and "books (gs_db (se_server s))" and "zero_sum (gs_db (se_server s))"
    and "in_int64 (entry_total (gs_db (se_server s)) (er_tenant r) (er_account r) + sint (asked_delta args))"
  shows "(gs_append_only (se_server s) \<longrightarrow>
       (\<exists>e s'. AttemptOutOfBandChange L ''alter_entry_protection_on'' args s = (Inl e, s') \<and>
          fail_sqlstate e = Some ''P0001'' \<and> se_server s' = se_server s)) \<and>
    (\<exists>s'. AttemptOutOfBandChange L ''alter_entry'' args s = (Inr (), s') \<and> gs_append_only (se_server s') \<and>
       (\<forall>w. quiet w \<and> w_committed w = gs_db (se_server s') \<longrightarrow>
          (\<exists>rep w'. VerifyBooks Unscoped w = (Inr rep, w') \<and> \<not> rep_Balanced rep \<and>
             set (rep_Drifted rep) = {alteration (gs_db (se_server s)) r (asked_delta args)} \<and>
             rep_TrialBalance rep = \<lparr>minorUnits = asked_delta args, currency = ledgerCurrency\<rparr>)))"
proof (intro conjI impI)
  assume "gs_append_only (se_server s)"
  with assms(1-4) show "\<exists>e s'. AttemptOutOfBandChange L ''alter_entry_protection_on'' args s = (Inl e, s') \<and>
      fail_sqlstate e = Some ''P0001'' \<and> se_server s' = se_server s" by (intro owner_refused)
next
  obtain s' where s': "AttemptOutOfBandChange L ''alter_entry'' args s = (Inr (), s')"
      "se_server s' = (se_server s)\<lparr>gs_db := altered r (asked_delta args) (gs_db (se_server s)), gs_append_only := True\<rparr>"
    using owner_alters [OF assms(1-4)] by blast
  then show "\<exists>s'. AttemptOutOfBandChange L ''alter_entry'' args s = (Inr (), s') \<and> gs_append_only (se_server s') \<and>
       (\<forall>w. quiet w \<and> w_committed w = gs_db (se_server s') \<longrightarrow>
          (\<exists>rep w'. VerifyBooks Unscoped w = (Inr rep, w') \<and> \<not> rep_Balanced rep \<and>
             set (rep_Drifted rep) = {alteration (gs_db (se_server s)) r (asked_delta args)} \<and>
             rep_TrialBalance rep = \<lparr>minorUnits = asked_delta args, currency = ledgerCurrency\<rparr>))"
    using alteration_named [OF _ _ assms(6,7,4,5,8)] by auto
qed

lemma sample_alterable:
  "alterable (sample_login UNIV) no_args sample_db (leg ''a'' ''t'' ''k'' ''w'' (- 500) ''USD'' 0 0)"
  by (simp add: alterable_def names_entry_def no_args_def ordered_entries_def sample_login_def asked_delta_def leg_def
      in_int64_def)

theorem tampering_is_named_witness:
  "\<exists>s'. AttemptOutOfBandChange (sample_login UNIV) ''alter_entry'' no_args sample_store = (Inr (), s')"
proof -
  have "in_int64 (entry_total sample_db ''a'' ''k'' + sint (asked_delta no_args))" "asked_delta no_args \<noteq> 0"
    by (simp_all add: entry_total_def asked_delta_def no_args_def leg_def in_int64_def)
  then show ?thesis
    using tampering_is_named [of sample_store "sample_login UNIV" no_args "leg ''a'' ''t'' ''k'' ''w'' (- 500) ''USD'' 0 0"]
      sample_alterable by (simp add: leg_def) blast
qed



end
