(* ===== verification/Race.thy ===== *)
theory Race
  imports Wire
begin

text \<open>
  \<open>scripts/race/main.go\<close>, which drives a running service over HTTP and judges what it sees. What
  the script talks to is a parameter: a transport that answers each exchange and changes as it
  does. Goroutines that talk to it at once are a list of turns, one exchange after another.
\<close>

section \<open>The transport and what a script does\<close>

text \<open>
  A request as it is sent. The transport says whether \<open>net/url\<close> parses a URL, and answers a
  request by an error's text, or by a status and the first JSON value of the body.
\<close>

record sent =
  snt_method :: string
  snt_url :: string
  snt_headers :: "(string \<times> string) list"
  snt_body :: "json option"

record 's transport =
  tr_parses :: "string \<Rightarrow> bool"
  tr_Do :: "sent \<Rightarrow> 's \<Rightarrow> (string + int \<times> json option) \<times> 's"

text \<open>Lines on standard output, and calls of \<open>Fprintf\<close> on standard error with their arguments.\<close>

datatype argument = AInt int | AString string | ABody "string \<rightharpoonup> json"

datatype said = Out string | Err string "argument list"

datatype stop = Exit int | Panic

record 's run =
  run_server :: 's
  run_said :: "said list"

type_synonym ('a, 's) script = "'s run \<Rightarrow> (stop + 'a) \<times> 's run"

definition giving :: "'a \<Rightarrow> ('a, 's) script" where
  "giving x r = (Inr x, r)"

definition stopping :: "stop \<Rightarrow> ('a, 's) script" where
  "stopping e r = (Inl e, r)"

definition proceed :: "('a, 's) script \<Rightarrow> ('a \<Rightarrow> ('b, 's) script) \<Rightarrow> ('b, 's) script" where
  "proceed m f r = (case m r of (Inl e, r') \<Rightarrow> (Inl e, r') | (Inr x, r') \<Rightarrow> f x r')"

definition say :: "said \<Rightarrow> (unit, 's) script" where
  "say l r = (Inr (), r\<lparr>run_said := run_said r @ [l]\<rparr>)"

section \<open>The client\<close>

record httpClient =
  hc_base :: string
  hc_key :: string
  hc_operatorKey :: string

definition envOr :: "(string \<Rightarrow> string) \<Rightarrow> string \<Rightarrow> string \<Rightarrow> string" where
  "envOr getenv name fallback = (if getenv name \<noteq> [] then getenv name else fallback)"

text \<open>\<open>Decode\<close> into a map that is nil: a later member of the same name replaces an earlier one.\<close>

definition decodeJSON :: "json option \<Rightarrow> (string \<rightharpoonup> json)" where
  "decodeJSON found = (case found of Some (JObj members) \<Rightarrow> map_of (rev members) | _ \<Rightarrow> Map.empty)"

definition header_set :: "string \<Rightarrow> string \<Rightarrow> (string \<times> string) list \<Rightarrow> (string \<times> string) list" where
  "header_set name v headers = filter (\<lambda>(k, _). k \<noteq> name) headers @ [(name, v)]"

text \<open>\<open>http.NewRequest\<close> fails on a URL that does not parse, and the script panics.\<close>

definition exchanging :: "'s transport \<Rightarrow> sent \<Rightarrow> (int \<times> (string \<rightharpoonup> json), 's) script" where
  "exchanging tr q r =
     (if \<not> tr_parses tr (snt_url q) then stopping Panic r
      else case tr_Do tr q (run_server r) of (reply, s) \<Rightarrow>
        giving (case reply of
            Inl e \<Rightarrow> (0, [''error'' \<mapsto> JStr e])
          | Inr (status, found) \<Rightarrow> (status, decodeJSON found)) (r\<lparr>run_server := s\<rparr>))"

text \<open>\<open>json.Marshal\<close> sorts the members of a map.\<close>

definition postJSON :: "'s transport \<Rightarrow> httpClient \<Rightarrow> string \<Rightarrow> (string \<times> json) list \<Rightarrow>
    (string \<times> string) list \<Rightarrow> (int \<times> (string \<rightharpoonup> json), 's) script" where
  "postJSON tr c path members headers = exchanging tr
     \<lparr>snt_method = ''POST'', snt_url = hc_base c @ path,
      snt_headers = fold (\<lambda>(k, v). header_set k v) headers
        (header_set ''Authorization'' (''Bearer '' @ hc_key c)
          (header_set ''Content-Type'' ''application/json'' [])),
      snt_body = Some (JObj members)\<rparr>"

definition client_get :: "'s transport \<Rightarrow> httpClient \<Rightarrow> string \<Rightarrow> (int \<times> (string \<rightharpoonup> json), 's) script" where
  "client_get tr c path = exchanging tr
     \<lparr>snt_method = ''GET'', snt_url = hc_base c @ path,
      snt_headers = header_set ''Authorization'' (''Bearer '' @ hc_key c) [], snt_body = None\<rparr>"

definition createAccount :: "'s transport \<Rightarrow> httpClient \<Rightarrow> string \<Rightarrow> string \<Rightarrow> (unit, 's) script" where
  "createAccount tr c aid kind =
     proceed (postJSON tr c ''/accounts'' [(''account_id'', JStr aid), (''type'', JStr kind)] [])
       (\<lambda>(status, body).
         if status \<noteq> 201 \<and> status \<noteq> 409
         then proceed (say (Err ''unexpected status %d creating account %q: %v'' [AInt status, AString aid, ABody body]))
                (\<lambda>_. stopping (Exit 1))
         else giving ())"

definition transfer :: "'s transport \<Rightarrow> httpClient \<Rightarrow> string \<Rightarrow> string \<Rightarrow> string \<Rightarrow> string \<Rightarrow>
    (int \<times> (string \<rightharpoonup> json), 's) script" where
  "transfer tr c from to amount key = postJSON tr c ''/transfers''
     [(''amount'', JStr amount), (''from'', JStr from), (''to'', JStr to)] [(''Idempotency-Key'', key)]"

section \<open>KPI-2\<close>

definition balanceIsNegative :: "json option \<Rightarrow> bool" where
  "balanceIsNegative balance = (case balance of
     Some (JStr (c # rest)) \<Rightarrow> c = CHR ''-''
   | _ \<Rightarrow> False)"

text \<open>The contention: who gets the next turn, the poller or the i-th spender.\<close>

datatype race_turn = Polls | Spends nat

definition spend_key :: "nat \<Rightarrow> string" where
  "spend_key i = ''kpi2-spend-'' @ fmt_int (int i)"

definition spendAmount :: string where
  "spendAmount = ''1.00''"

definition iterations :: nat where
  "iterations = 1000"

fun contending :: "'s transport \<Rightarrow> httpClient \<Rightarrow> race_turn list \<Rightarrow> int \<Rightarrow> (int, 's) script" where
  "contending tr c [] negativeBalanceObservations = giving negativeBalanceObservations"
| "contending tr c (Polls # turns) negativeBalanceObservations =
     proceed (client_get tr c ''/accounts/alice-kpi2'') (\<lambda>(status, body).
       contending tr c turns
         (if status = 200 \<and> balanceIsNegative (body ''balance'')
          then negativeBalanceObservations + 1 else negativeBalanceObservations))"
| "contending tr c (Spends i # turns) negativeBalanceObservations =
     proceed (transfer tr c ''alice-kpi2'' ''bob-kpi2'' spendAmount (spend_key i)) (\<lambda>_.
       contending tr c turns negativeBalanceObservations)"

text \<open>The turns of a run: every spender has one, the poller any number.\<close>

definition is_schedule :: "race_turn list \<Rightarrow> bool" where
  "is_schedule turns \<longleftrightarrow>
     distinct (filter (\<lambda>t. t \<noteq> Polls) turns) \<and>
     set (filter (\<lambda>t. t \<noteq> Polls) turns) = set (map Spends [0..<iterations])"

text \<open>The 500 of the funding, printed with two decimals.\<close>

definition funding :: "'s transport \<Rightarrow> httpClient \<Rightarrow> string \<Rightarrow> string \<Rightarrow> string \<Rightarrow> string \<Rightarrow> string \<Rightarrow>
    (unit, 's) script" where
  "funding tr c treasury alice amount key complaint =
     proceed (transfer tr c treasury alice amount key) (\<lambda>(status, body).
       if status \<noteq> 201
       then proceed (say (Err complaint [AInt status, ABody body])) (\<lambda>_. stopping (Exit 1))
       else giving ())"

definition verdict2 :: "int \<Rightarrow> (unit, 's) script" where
  "verdict2 negativeBalanceObservations =
     proceed (say (Out (''iterations='' @ fmt_int (int iterations)))) (\<lambda>_.
     proceed (say (Out (''negative_balance_observations='' @ fmt_int negativeBalanceObservations))) (\<lambda>_.
       if negativeBalanceObservations = 0
       then say (Out ''PASS: no wallet balance was ever observed below zero'')
       else proceed (say (Out ''FAIL: a wallet balance was observed below zero'')) (\<lambda>_. stopping (Exit 1))))"

definition setup2 :: "'s transport \<Rightarrow> httpClient \<Rightarrow> (unit, 's) script" where
  "setup2 tr c =
     proceed (say (Out ''== race-02: KPI-2, I4 holds under contention =='')) (\<lambda>_.
     proceed (createAccount tr c ''treasury-kpi2'' ''system'') (\<lambda>_.
     proceed (createAccount tr c ''alice-kpi2'' ''wallet'') (\<lambda>_.
     proceed (createAccount tr c ''bob-kpi2'' ''wallet'') (\<lambda>_.
       funding tr c ''treasury-kpi2'' ''alice-kpi2'' ''500.00'' ''kpi2-fund''
         ''funding alice-kpi2 failed: %d %v''))))"

definition runKPI2 :: "'s transport \<Rightarrow> httpClient \<Rightarrow> race_turn list \<Rightarrow> (unit, 's) script" where
  "runKPI2 tr c turns = proceed (setup2 tr c) (\<lambda>_. proceed (contending tr c turns 0) verdict2)"

section \<open>KPI-3\<close>

definition string_of :: "json option \<Rightarrow> string" where
  "string_of v = (case v of Some (JStr s) \<Rightarrow> s | _ \<Rightarrow> [])"

definition submissions :: nat where
  "submissions = 50"

text \<open>A Go map from ids to counts, its members in the order they came.\<close>

fun count_one :: "string \<Rightarrow> (string \<times> int) list \<Rightarrow> (string \<times> int) list" where
  "count_one k [] = [(k, 1)]"
| "count_one k ((k', n) # m) = (if k = k' then (k', n + 1) # m else (k', n) # count_one k m)"

fun submitting :: "'s transport \<Rightarrow> httpClient \<Rightarrow> nat \<Rightarrow> (string \<times> int) list \<Rightarrow> ((string \<times> int) list, 's) script" where
  "submitting tr c 0 transactionIDs = giving transactionIDs"
| "submitting tr c (Suc n) transactionIDs =
     proceed (transfer tr c ''alice-kpi3'' ''bob-kpi3'' ''50.00'' ''kpi3-race-key'') (\<lambda>(status, body).
       if status \<noteq> 201 \<and> status \<noteq> 200
       then proceed (say (Err ''unexpected status %d submitting under shared key: %v'' [AInt status, ABody body]))
              (\<lambda>_. submitting tr c n transactionIDs)
       else submitting tr c n (count_one (string_of (body ''transaction_id'')) transactionIDs))"

definition names_transaction :: "string \<Rightarrow> json \<Rightarrow> bool" where
  "names_transaction transactionID raw = (case raw of
     JObj members \<Rightarrow> string_of (map_of (rev members) ''transaction_id'') = transactionID
   | _ \<Rightarrow> False)"

definition countEntryPairs :: "'s transport \<Rightarrow> httpClient \<Rightarrow> string \<Rightarrow> string \<Rightarrow> (int, 's) script" where
  "countEntryPairs tr c accountID transactionID =
     proceed (client_get tr c (''/accounts/'' @ accountID @ ''/entries'')) (\<lambda>(status, body).
       giving (if status \<noteq> 200 then 0
         else case body ''entries'' of
             Some (JArr rows) \<Rightarrow> int (length (filter (names_transaction transactionID) rows))
           | _ \<Rightarrow> 0))"

definition verdict3 :: "nat \<Rightarrow> int \<Rightarrow> (unit, 's) script" where
  "verdict3 ids entryPairsStored =
     proceed (say (Out (''submissions='' @ fmt_int (int submissions)))) (\<lambda>_.
     proceed (say (Out (''distinct_transaction_ids='' @ fmt_int (int ids)))) (\<lambda>_.
     proceed (say (Out (''entry_pairs_stored='' @ fmt_int entryPairsStored))) (\<lambda>_.
       if ids = 1 \<and> entryPairsStored = 1
       then say (Out ''PASS: all submissions collapsed onto one transaction, one stored entry pair'')
       else proceed (say (Out ''FAIL: submissions did not collapse onto a single transaction/entry pair''))
              (\<lambda>_. stopping (Exit 1)))))"

definition setup3 :: "'s transport \<Rightarrow> httpClient \<Rightarrow> (unit, 's) script" where
  "setup3 tr c =
     proceed (say (Out ''== race-03: KPI-3, I7 holds under contention =='')) (\<lambda>_.
     proceed (createAccount tr c ''treasury-kpi3'' ''system'') (\<lambda>_.
     proceed (createAccount tr c ''alice-kpi3'' ''wallet'') (\<lambda>_.
     proceed (createAccount tr c ''bob-kpi3'' ''wallet'') (\<lambda>_.
       funding tr c ''treasury-kpi3'' ''alice-kpi3'' ''100.00'' ''kpi3-fund''
         ''funding alice-kpi3 failed: %d %v''))))"

text \<open>\<open>last_of\<close> is the member the iteration of the map ends with: Go leaves its order open.\<close>

definition runKPI3 :: "'s transport \<Rightarrow> httpClient \<Rightarrow> (string list \<Rightarrow> string) \<Rightarrow> (unit, 's) script" where
  "runKPI3 tr c last_of =
     proceed (setup3 tr c) (\<lambda>_.
     proceed (submitting tr c submissions []) (\<lambda>transactionIDs.
       let winningTxnID = (if transactionIDs = [] then [] else last_of (map fst transactionIDs)) in
       proceed (countEntryPairs tr c ''alice-kpi3'' winningTxnID) (\<lambda>of_alice.
       proceed (countEntryPairs tr c ''bob-kpi3'' winningTxnID) (\<lambda>of_bob.
         verdict3 (length transactionIDs) ((of_alice + of_bob) div 2)))))"

section \<open>The command\<close>

definition race_client :: "(string \<Rightarrow> string) \<Rightarrow> httpClient" where
  "race_client getenv =
     (let baseURL = envOr getenv ''RACE_APP_URL'' ''http://localhost:8080'';
          operatorKey = envOr getenv ''RACE_OPERATOR_KEY'' ''demo-operator-key'';
          tenantKey = envOr getenv ''RACE_TENANT_KEY''
            (envOr getenv ''LEDGEROPS_DEMO_TENANT_KEY'' ''demo-tenant-key'')
      in \<lparr>hc_base = baseURL, hc_key = tenantKey, hc_operatorKey = operatorKey\<rparr>)"

text \<open>\<open>main\<close>, once \<open>flag.Parse\<close> has read the scenario.\<close>

definition race_main :: "'s transport \<Rightarrow> (string \<Rightarrow> string) \<Rightarrow> string \<Rightarrow> race_turn list \<Rightarrow> (string list \<Rightarrow> string) \<Rightarrow>
    (unit, 's) script" where
  "race_main tr getenv scenario turns last_of =
     (let client = race_client getenv in
      if scenario = ''kpi2'' then runKPI2 tr client turns
      else if scenario = ''kpi3'' then runKPI3 tr client last_of
      else proceed (say (Err ''usage: race --scenario=kpi2|kpi3'' [])) (\<lambda>_. stopping (Exit 2)))"

text \<open>The status the process ends with: a panic of the Go runtime is a 2.\<close>

definition exit_status :: "(stop + unit) \<Rightarrow> int" where
  "exit_status r = (case r of Inl (Exit n) \<Rightarrow> n | Inl Panic \<Rightarrow> 2 | Inr _ \<Rightarrow> 0)"

end
