(* ===== verification/Solvency.thy ===== *)
theory Solvency
  imports Answering
begin

text \<open>
  What \<open>GET /accounts/{id}\<close> shows of a wallet: whatever is stored, no answer with success shows
  a wallet below zero. A row that is below zero is refused instead.
\<close>

section \<open>What a balance shows\<close>

lemma GetBalance_shows:
  assumes "well_behaved w" and "GetBalance t i w = (Inr a, w')"
  shows "\<exists>d row. extends (w_committed w) d \<and> db_account d t i = Some row \<and> scanAccount row t = Inr a"
proof -
  let ?Q = "\<lambda>a (_ :: world). \<exists>d row. extends (w_committed w) d \<and> db_account d t i = Some row \<and> scanAccount row t = Inr a"
  have "wp (GetBalance t i) ?Q (\<lambda>_ _. True) w"
    unfolding GetBalance_def
  proof (rule wp_withUnitOfWork)
    fix v assume v: "since w v" "clean v"
    have "extends (w_committed w) (w_committed u)" if "since v u" for u
      using history.since_kept [OF assms(1) since_trans [OF v(1) that]] .
    then show "wp (accounts_Get t i) (\<lambda>x u. (\<forall>w'. commits u w' \<longrightarrow> ?Q x w') \<and>
        (faulty u \<longrightarrow> (\<forall>w'. commits u w' \<or> since u w' \<longrightarrow> True))) (\<lambda>e u. \<forall>w'. since u w' \<longrightarrow> True) v"
      unfolding accounts_Get_def wp_bindE
      by (intro wp_query_clean [OF v(2)]) (auto simp: decide_def split: option.splits sum.splits)
  qed simp
  then show ?thesis using assms(2) by (simp add: wp_def)
qed

lemma formatMoney_nonneg:
  assumes "0 \<le> sint (minorUnits m)"
  shows "formatMoney m \<noteq> CHR ''-'' # rest"
proof -
  let ?n = "nat (sint (minorUnits m)) div 100"
  have "sint (minorUnits m) \<noteq> - (2 ^ 63)" using assms by auto
  from formatMoney_text [OF this] have written: "formatMoney m = dec_text ?n @ ''.'' @ two_digits (nat (sint (minorUnits m)) mod 100)"
    using assms by simp
  obtain c cs where c: "dec_text ?n = c # cs" by (cases "dec_text ?n") simp_all
  then have "c \<noteq> CHR ''-''" using dec_text_digits [of ?n] minus_not_digit [of c] by simp
  then show ?thesis using written c by simp
qed

definition shows_debt :: "json \<Rightarrow> bool" where
  "shows_debt v \<longleftrightarrow> (\<exists>rest. member_of v ''balance'' = Some (JStr (CHR ''-'' # rest)))"

definition wallet_shown :: "int \<Rightarrow> json \<Rightarrow> world \<Rightarrow> bool" where
  "wallet_shown s v w \<longleftrightarrow>
     (s = 200 \<longrightarrow> member_of v ''type'' = Some (JStr ''wallet'') \<longrightarrow> \<not> shows_debt v)"

definition no_debt_shown :: "int \<Rightarrow> json \<Rightarrow> world \<Rightarrow> bool" where
  "no_debt_shown s v w \<longleftrightarrow>
     (s = 200 \<longrightarrow> (\<exists>b. member_of v ''balance'' = Some (JStr b) \<and> (\<forall>rest. b \<noteq> CHR ''-'' # rest)))"

text \<open>The tenant a credential stands for, and a wallet of that tenant: both are for good.\<close>

definition wallet_of :: "string \<Rightarrow> http_request \<Rightarrow> string \<Rightarrow> string \<Rightarrow> world \<Rightarrow> bool" where
  "wallet_of demo r t i w \<longleftrightarrow> well_behaved w \<and> presented_tenant demo w r = Some t \<and>
     (\<exists>row. db_account (w_committed w) t i = Some row \<and> ar_kind row = Wallet)"

lemma extends_tenant_key: "extends d d' \<Longrightarrow> resolveTenantKey d h = Some t \<Longrightarrow> resolveTenantKey d' h = Some t"
  by (auto simp: extends_def prefix_def resolveTenantKey_def find_append)

lemma extends_account_kind:
  assumes "extends d d'" and "db_account d t i = Some row"
  shows "\<exists>row'. db_account d' t i = Some row' \<and> ar_kind row' = ar_kind row"
proof -
  let ?P = "\<lambda>(u, j, k, c). (u, j) = (t, i)"
  have "map_option account_identity (List.find (\<lambda>r. account_key r = (t, i)) rs) = List.find ?P (map account_identity rs)" for rs
    by (induction rs) (auto simp: account_identity_def account_key_def)
  then have found: "map_option account_identity (db_account d t i) = List.find ?P (map account_identity (accounts d))" for d
    by (simp add: db_account_def)
  obtain new where "map account_identity (accounts d') = map account_identity (accounts d) @ new"
    using assms(1) by (auto simp: extends_def prefix_def)
  moreover have "List.find ?P (map account_identity (accounts d)) = Some (account_identity row)"
    unfolding found [symmetric] assms(2) by simp
  ultimately have "map_option account_identity (db_account d' t i) = Some (account_identity row)"
    unfolding found by (simp only: find_append option.case)
  then show ?thesis by (auto simp: account_identity_def)
qed

lemma presented_tenant_kept:
  assumes "w_sha256hex w' = w_sha256hex w" and "extends (w_committed w) (w_committed w')"
    and "presented_tenant demo w r = Some t"
  shows "presented_tenant demo w' r = Some t"
  using assms extends_tenant_key by (auto simp: presented_tenant_def Let_def split: if_splits)

lemma resolver_presented:
  assumes "well_behaved w" and "presented_tenant demo w r = Some t"
    and "production_resolver demo (hashBearerToken (w_sha256hex w) (fst (bearerToken r))) w = (Inr (Some t'), w')"
  shows "t' = t"
proof (cases "demo \<noteq> [] \<and> w_sha256hex w (fst (bearerToken r)) = w_sha256hex w demo")
  case True
  then show ?thesis using assms(2,3)
    by (simp add: presented_tenant_def demoTenantResolver_def hash_defs ret_def)
next
  case False
  let ?h = "w_sha256hex w (fst (bearerToken r))"
  have h: "resolveTenantKey (w_committed w) ?h = Some t"
    using assms(2) False by (auto simp: presented_tenant_def Let_def split: if_splits)
  have e: "extends d (w_env w n d)" for n d
    using assms(1) history.start.steps [OF _ history.refl] by (simp add: well_behaved_def)
  have "NewTenantKeyResolver ?h w = (Inr (Some t'), w')"
    using assms(3) False by (auto simp: demoTenantResolver_def hash_defs split: if_splits)
  then have "resolveTenantKey (w_env w (w_turns w) (w_committed w)) ?h = Some t'"
    by (auto simp: NewTenantKeyResolver_def read_only_def bindE_def Begin_def query_def statement_def turn_def Let_def
        split: if_splits)
  then show ?thesis using extends_tenant_key [OF e h] by simp
qed

lemma wallet_of_moved:
  assumes "moves w w'" and "wallet_of demo r t i w"
  shows "wallet_of demo r t i w'"
proof -
  have x: "extends (w_committed w) (w_committed w')" using history.moved [OF assms(1)] .
  have s: "w_sha256hex w' = w_sha256hex w" using assms(1) by (simp add: moves_def same_run_def)
  show ?thesis
    using assms moves_well_behaved [OF assms(1)] presented_tenant_kept [OF s x] extends_account_kind [OF x]
    unfolding wallet_of_def by metis
qed

interpretation shown: answering well_behaved wallet_shown
  by unfold_locales (auto simp: wallet_shown_def intro: moves_well_behaved)

interpretation solvent: answering "wallet_of demo r t i" no_debt_shown for demo r t i
  by unfold_locales (fact wallet_of_moved, simp_all add: no_debt_shown_def wallet_of_def)

text \<open>What is shown is what the code has built of a row, and it builds no wallet in debt.\<close>

lemma scanned_wallet:
  "scanAccount row t = Inr a \<Longrightarrow> acct_kind a = Wallet \<Longrightarrow> formatMoney (acct_balance a) \<noteq> CHR ''-'' # rest"
  using formatMoney_nonneg [of "acct_balance a"] by (auto simp: scanAccount_Inr_iff)

lemma balance_shown:
  fixes key demo deps r
  assumes "well_behaved (world_of x)"
  defines "y \<equiv> NewRouter (production key demo deps) GetAccount r x"
  shows "\<exists>s v. ex_written y = [(s, v)] \<and> wallet_shown s v (world_of y)"
  unfolding y_def
proof (rule shown.answers_NewRouter [OF _ assms(1)])
  fix r' :: http_request
  have "answers well_behaved wallet_shown (getBalanceHandler q)" for q
  proof (rule shown.answers_getBalance)
    fix w :: world and a w'
    assume "well_behaved w" "GetBalance (caller_tenant q) (rq_urlParam q ''id'') w = (Inr a, w')"
    then obtain row where "scanAccount row (caller_tenant q) = Inr a" using GetBalance_shows by blast
    then show "wallet_shown 200 (JObj [(''account_id'', JStr (acct_id a)), (''type'', JStr (kind_text (acct_kind a))),
        (''balance'', JStr (formatMoney (acct_balance a)))]) w'"
      using scanned_wallet by (cases "acct_kind a") (auto simp: wallet_shown_def shows_debt_def member_of_def members_of_def)
  qed
  then show "answers well_behaved wallet_shown (route (production key demo deps) GetAccount r')"
    using reading_production [of key demo deps]
    by (auto simp: reading_resolver_def intro: shown.answers_requireTenantKey)
qed

lemma wallet_solvent:
  fixes key demo deps r
  assumes "wallet_of demo r t (rq_urlParam r ''id'') (world_of x)"
  defines "y \<equiv> NewRouter (production key demo deps) GetAccount r x"
  shows "\<exists>s v. ex_written y = [(s, v)] \<and> no_debt_shown s v (world_of y)"
  unfolding y_def
proof (rule solvent.answers_NewRouter [OF _ assms(1)])
  let ?i = "rq_urlParam r ''id''"
  let ?I = "wallet_of demo r t ?i"
  fix r' :: http_request assume r': "rq_authorization r' = rq_authorization r" "rq_urlParam r' = rq_urlParam r"
  have token: "bearerToken r' = bearerToken r" using r'(1) by (simp add: bearerToken_def)
  have "answers ?I no_debt_shown (getBalanceHandler (withTenantScope (ScopedToTenant t) r'))"
  proof (rule solvent.answers_getBalance)
    fix u a u'
    let ?q = "withTenantScope (ScopedToTenant t) r'"
    assume u: "?I u" and run: "GetBalance (caller_tenant ?q) (rq_urlParam ?q ''id'') u = (Inr a, u')"
    have q: "caller_tenant ?q = t" "rq_urlParam ?q ''id'' = ?i"
      using r'(2) by (simp_all add: caller_tenant_def TenantScopeFromContext_def withTenantScope_def)
    obtain d row where d: "extends (w_committed u) d" "db_account d t ?i = Some row" "scanAccount row t = Inr a"
      using GetBalance_shows [of u t ?i a u'] u run unfolding q wallet_of_def by blast
    then have "ar_kind row = Wallet" using u extends_account_kind [OF d(1)] by (fastforce simp: wallet_of_def)
    then have "acct_kind a = Wallet" using d(3) by (simp add: scanAccount_Inr_iff)
    then show "no_debt_shown 200 (JObj [(''account_id'', JStr (acct_id a)), (''type'', JStr (kind_text (acct_kind a))),
        (''balance'', JStr (formatMoney (acct_balance a)))]) u'"
      using scanned_wallet [OF d(3)] by (auto simp: no_debt_shown_def member_of_def members_of_def)
  qed
  then have "answers ?I no_debt_shown (getBalanceHandler (withTenantScope (ScopedToTenant t') r'))"
    if "?I w" "production_resolver demo (hashBearerToken (w_sha256hex w) (fst (bearerToken r'))) w = (Inr (Some t'), w')"
    for t' w w'
    using resolver_presented [of w demo r t t' w'] that token by (simp add: wallet_of_def)
  then show "answers ?I no_debt_shown (route (production key demo deps) GetAccount r')"
    using reading_production [of key demo deps]
    by (auto simp: reading_resolver_def intro: solvent.answers_requireTenantKey)
qed

end
