(* ===== verification/RaceProps.thy ===== *)
theory RaceProps
  imports Race Solvency
begin

text \<open>
  What the race script can find out about the service it drives. The interface between the two
  is stated as locales over the transport and discharged for the production router behind a
  network that loses requests and replies while others are served.
\<close>

section \<open>Running a script\<close>

lemma giving_run [simp]: "giving x r = (Inr x, r)"
  and stopping_run [simp]: "stopping e r = (Inl e, r)"
  and say_run [simp]: "say l r = (Inr (), r\<lparr>run_said := run_said r @ [l]\<rparr>)"
  by (simp_all add: giving_def stopping_def say_def)

lemma proceed_Inl [simp]: "m r = (Inl e, r') \<Longrightarrow> proceed m f r = (Inl e, r')"
  and proceed_Inr [simp]: "m r = (Inr x, r') \<Longrightarrow> proceed m f r = f x r'"
  by (simp_all add: proceed_def)

text \<open>A script that keeps a property of the server.\<close>

definition keeps_server :: "('s \<Rightarrow> bool) \<Rightarrow> ('a, 's) script \<Rightarrow> bool" where
  "keeps_server I m \<longleftrightarrow> (\<forall>r. I (run_server r) \<longrightarrow> I (run_server (snd (m r))))"

lemma keeps_serverD: "keeps_server I m \<Longrightarrow> m r = (x, r') \<Longrightarrow> I (run_server r) \<Longrightarrow> I (run_server r')"
  unfolding keeps_server_def by (metis snd_conv)

named_theorems server_intros

lemma keeps_giving [server_intros]: "keeps_server I (giving x)"
  and keeps_stopping [server_intros]: "keeps_server I (stopping e)"
  and keeps_say [server_intros]: "keeps_server I (say l)"
  by (simp_all add: keeps_server_def)

lemma keeps_proceed [server_intros]:
  "keeps_server I m \<Longrightarrow> (\<And>x. keeps_server I (f x)) \<Longrightarrow> keeps_server I (proceed m f)"
  by (auto simp: keeps_server_def proceed_def split: prod.split sum.split)

lemma keeps_server_if [server_intros]: "keeps_server I m \<Longrightarrow> keeps_server I n \<Longrightarrow> keeps_server I (if c then m else n)"
  by simp

lemma keeps_server_case_prod [server_intros]:
  "(\<And>x y. keeps_server I (f x y)) \<Longrightarrow> keeps_server I (case p of (x, y) \<Rightarrow> f x y)"
  by (cases p) auto

section \<open>The interface of a service\<close>

text \<open>A service with a state that every exchange keeps, at URLs that parse.\<close>

locale service =
  fixes tr :: "'s transport" and c :: httpClient and ok :: "'s \<Rightarrow> bool"
  assumes kept: "ok s \<Longrightarrow> ok (snd (tr_Do tr q s))"
    and parses: "tr_parses tr (hc_base c @ path)"
begin

lemma keeps_exchanging: "keeps_server ok (exchanging tr q)"
  using kept by (auto simp: keeps_server_def exchanging_def stopping_def giving_def split: prod.splits)
    (metis snd_conv)

lemma keeps_posting [server_intros]: "keeps_server ok (postJSON tr c path members headers)"
  and keeps_getting [server_intros]: "keeps_server ok (client_get tr c path)"
  unfolding postJSON_def client_get_def by (rule keeps_exchanging)+

lemma keeps_createAccount [server_intros]: "keeps_server ok (createAccount tr c i kind)"
  and keeps_transfer [server_intros]: "keeps_server ok (transfer tr c a b amount k)"
  and keeps_funding [server_intros]: "keeps_server ok (funding tr c a b amount k complaint)"
  unfolding createAccount_def transfer_def funding_def by (intro server_intros)+

lemma keeps_setups: "keeps_server ok (setup2 tr c)" "keeps_server ok (setup3 tr c)"
  unfolding setup2_def setup3_def by (intro server_intros)+

text \<open>Every exchange gets an answer, if only that there was none.\<close>

lemma exchanging_run:
  assumes "snt_url q = hc_base c @ path"
  shows "exchanging tr q r = (Inr (case fst (tr_Do tr q (run_server r)) of
      Inl e \<Rightarrow> (0, [''error'' \<mapsto> JStr e]) | Inr (status, found) \<Rightarrow> (status, decodeJSON found)),
    r\<lparr>run_server := snd (tr_Do tr q (run_server r))\<rparr>)"
  using parses assms by (simp add: exchanging_def split: prod.split)

lemma exchanging_returns:
  "snt_url q = hc_base c @ path \<Longrightarrow> \<exists>status body r'. exchanging tr q r = (Inr (status, body), r')"
  by (simp add: exchanging_run split: sum.split prod.split)

lemma returns:
  "\<exists>status body r'. postJSON tr c path members headers r = (Inr (status, body), r')"
  "\<exists>status body r'. client_get tr c path r = (Inr (status, body), r')"
  "\<exists>status body r'. transfer tr c a b amount k r = (Inr (status, body), r')"
  unfolding transfer_def postJSON_def client_get_def by (rule exchanging_returns, simp)+

end

text \<open>The request of a transfer under a key.\<close>

definition posts_under :: "httpClient \<Rightarrow> string \<Rightarrow> sent \<Rightarrow> bool" where
  "posts_under c k q \<longleftrightarrow> snt_method q = ''POST'' \<and> snt_url q = hc_base c @ ''/transfers'' \<and>
     map_of (snt_headers q) ''Idempotency-Key'' = Some k"

text \<open>A service that binds the key of a posting it accepts to one transaction, for good.\<close>

locale keyed_service = service tr c ok
  for tr :: "'s transport" and c :: httpClient and ok :: "'s \<Rightarrow> bool" +
  fixes bound :: "string \<Rightarrow> string \<Rightarrow> 's \<Rightarrow> bool"
  assumes bound_kept: "ok s \<Longrightarrow> bound k t s \<Longrightarrow> bound k t (snd (tr_Do tr q s))"
    and bound_once: "bound k t s \<Longrightarrow> bound k t' s \<Longrightarrow> t = t'"
    and accepted: "ok s \<Longrightarrow> posts_under c k q \<Longrightarrow> tr_Do tr q s = (Inr (status, found), s') \<Longrightarrow>
      status = 200 \<or> status = 201 \<Longrightarrow> bound k (string_of (decodeJSON found ''transaction_id'')) s'"
    and claimed: "ok s \<Longrightarrow> bound k t s \<Longrightarrow> posts_under c k q \<Longrightarrow> tr_Do tr q s = (Inr (status, found), s') \<Longrightarrow>
      status \<noteq> 201"

text \<open>A service that shows no debt of the account that is polled.\<close>

locale polled_service = service tr c ok
  for tr :: "'s transport" and c :: httpClient and ok :: "'s \<Rightarrow> bool" +
  assumes no_debt: "ok s \<Longrightarrow> snt_method q = ''GET'' \<Longrightarrow> snt_url q = hc_base c @ ''/accounts/alice-kpi2'' \<Longrightarrow>
      snt_headers q = [(''Authorization'', ''Bearer '' @ hc_key c)] \<Longrightarrow>
      tr_Do tr q s = (Inr (200, found), s') \<Longrightarrow> \<not> balanceIsNegative (decodeJSON found ''balance'')"

section \<open>KPI-3: one transaction\<close>

lemma transfer_exchanges:
  "transfer tr c a b amount k = exchanging tr
     \<lparr>snt_method = ''POST'', snt_url = hc_base c @ ''/transfers'',
      snt_headers = [(''Content-Type'', ''application/json''), (''Authorization'', ''Bearer '' @ hc_key c),
        (''Idempotency-Key'', k)],
      snt_body = Some (JObj [(''amount'', JStr amount), (''from'', JStr a), (''to'', JStr b)])\<rparr>"
  by (simp add: transfer_def postJSON_def header_set_def)

lemma transfer_posts:
  obtains q where "transfer tr c a b amount k = exchanging tr q" "posts_under c k q"
  by (rule that [OF transfer_exchanges]) (simp add: posts_under_def)

lemma posts_under_url: "posts_under c k q \<Longrightarrow> snt_url q = hc_base c @ ''/transfers''"
  by (simp add: posts_under_def)

lemma count_one_keys: "fst ` set (count_one k m) = insert k (fst ` set m)"
  by (induction k m rule: count_one.induct) auto

lemma count_one_distinct: "distinct (map fst m) \<Longrightarrow> distinct (map fst (count_one k m))"
proof (induction k m rule: count_one.induct)
  case (2 k k' n m)
  then show ?case using count_one_keys [of k m] by (auto simp flip: set_map)
qed simp

context keyed_service
begin

text \<open>What a script gets for a posting, if anything.\<close>

lemma transfer_bound:
  assumes "ok (run_server r)" and "transfer tr c a b amount k r = (Inr (status, body), r')"
    and "status = 200 \<or> status = 201"
  shows "bound k (string_of (body ''transaction_id'')) (run_server r')"
proof -
  obtain q where q: "transfer tr c a b amount k = exchanging tr q" "posts_under c k q" by (rule transfer_posts)
  obtain reply s where s: "tr_Do tr q (run_server r) = (reply, s)" by fastforce
  have run: "(status, body) = (case reply of Inl e \<Rightarrow> (0, [''error'' \<mapsto> JStr e])
      | Inr (status, found) \<Rightarrow> (status, decodeJSON found))" "run_server r' = s"
    using assms(2) exchanging_run [OF posts_under_url [OF q(2)], of r] q(1) s by auto
  then obtain found where "reply = Inr (status, found)" "body = decodeJSON found"
    using assms(3) by (auto split: sum.splits prod.splits)
  then show ?thesis using accepted [OF assms(1) q(2)] s assms(3) run(2) by simp
qed

lemma transfer_claimed:
  assumes "ok (run_server r)" and "bound k t (run_server r)"
    and "transfer tr c a b amount k r = (Inr (status, body), r')"
  shows "status \<noteq> 201"
proof -
  obtain q where q: "transfer tr c a b amount k = exchanging tr q" "posts_under c k q" by (rule transfer_posts)
  obtain reply s where s: "tr_Do tr q (run_server r) = (reply, s)" by fastforce
  have "(status, body) = (case reply of Inl e \<Rightarrow> (0, [''error'' \<mapsto> JStr e])
      | Inr (status, found) \<Rightarrow> (status, decodeJSON found))"
    using assms(3) exchanging_run [OF posts_under_url [OF q(2)], of r] q(1) s by auto
  then show ?thesis using claimed [OF assms(1,2) q(2)] s by (auto split: sum.splits prod.splits)
qed

end

text \<open>Once a key is bound, it is bound for the rest of the script.\<close>

sublocale keyed_service \<subseteq> held: service tr c "\<lambda>s. ok s \<and> bound k t s" for k t
  by unfold_locales (simp_all add: kept bound_kept parses)

context keyed_service
begin

lemma submitting_bound:
  assumes "submitting tr c n ids r = (Inr ids', r')" and "ok (run_server r)"
    and "distinct (map fst ids)" and "\<forall>t \<in> fst ` set ids. bound ''kpi3-race-key'' t (run_server r)"
  shows "distinct (map fst ids') \<and> (\<forall>t \<in> fst ` set ids'. bound ''kpi3-race-key'' t (run_server r'))"
  using assms
proof (induction n arbitrary: ids r)
  case (Suc n)
  let ?m = "transfer tr c ''alice-kpi3'' ''bob-kpi3'' ''50.00'' ''kpi3-race-key''"
  obtain status body v where v: "?m r = (Inr (status, body), v)" using returns(3) by blast
  have ok: "ok (run_server v)" using keeps_serverD [OF keeps_transfer v Suc.prems(2)] .
  have held: "\<forall>t \<in> fst ` set ids. bound ''kpi3-race-key'' t (run_server v)"
    using keeps_serverD [OF held.keeps_transfer v] Suc.prems(2,4) by blast
  show ?case
  proof (cases "status = 200 \<or> status = 201")
    case True
    let ?ids = "count_one (string_of (body ''transaction_id'')) ids"
    have go: "submitting tr c n ?ids v = (Inr ids', r')" using Suc.prems(1) v True by auto
    have "\<forall>t \<in> fst ` set ?ids. bound ''kpi3-race-key'' t (run_server v)"
      unfolding count_one_keys using transfer_bound [OF Suc.prems(2) v True] held by blast
    then show ?thesis by (rule Suc.IH [OF go ok count_one_distinct [OF Suc.prems(3)]])
  next
    case False
    then show ?thesis using Suc.IH [OF _ _ Suc.prems(3)] Suc.prems(1) v held ok by auto
  qed
qed simp

text \<open>The map of the transactions that were seen has one member at most.\<close>

lemma submitting_one:
  assumes "submitting tr c n [] r = (Inr ids, r')" and "ok (run_server r)"
  shows "length ids \<le> 1"
proof -
  have ids: "distinct (map fst ids)" "\<forall>t \<in> set (map fst ids). bound ''kpi3-race-key'' t (run_server r')"
    using submitting_bound [OF assms] by auto
  have "length ts \<le> 1" if "distinct ts" "\<forall>t \<in> set ts. bound ''kpi3-race-key'' t (run_server r')" for ts
    using that bound_once by (cases ts rule: remdups_adj.cases) auto
  from this [OF ids] show ?thesis by simp
qed

lemma submitting_returns: "\<exists>ids' r'. submitting tr c n ids r = (Inr ids', r')"
proof (induction n arbitrary: ids r)
  case (Suc n)
  obtain status body v where "transfer tr c ''alice-kpi3'' ''bob-kpi3'' ''50.00'' ''kpi3-race-key'' r =
      (Inr (status, body), v)" using returns(3) by blast
  then show ?case using Suc.IH by simp
qed simp

lemma counting_returns: "\<exists>n r'. countEntryPairs tr c i t r = (Inr n, r')"
proof -
  obtain status body v where "client_get tr c (''/accounts/'' @ i @ ''/entries'') r = (Inr (status, body), v)"
    using returns(2) by blast
  then show ?thesis by (simp add: countEntryPairs_def)
qed

text \<open>A run either stops with the set-up or ends in a verdict that counts one transaction at most.\<close>

lemma kpi3_counts_one:
  assumes "ok (run_server r)"
  shows "(\<exists>e r1. setup3 tr c r = (Inl e, r1) \<and> runKPI3 tr c last_of r = (Inl e, r1)) \<or>
    (\<exists>ids pairs r2. ids \<le> 1 \<and> runKPI3 tr c last_of r = verdict3 ids pairs r2)"
proof (cases "setup3 tr c r")
  case (Pair x r1)
  show ?thesis
  proof (cases x)
    case (Inl e)
    then show ?thesis using Pair by (simp add: runKPI3_def)
  next
    case (Inr u)
    then have s: "setup3 tr c r = (Inr u, r1)" using Pair by simp
    have r1: "ok (run_server r1)" using keeps_serverD [where I = ok, OF keeps_setups(2) s] assms by blast
    obtain ids r2 where ids: "submitting tr c submissions [] r1 = (Inr ids, r2)"
      using submitting_returns by blast
    let ?id = "if ids = [] then [] else last_of (map fst ids)"
    obtain m r3 where m: "countEntryPairs tr c ''alice-kpi3'' ?id r2 = (Inr m, r3)" using counting_returns by blast
    obtain n r4 where n: "countEntryPairs tr c ''bob-kpi3'' ?id r3 = (Inr n, r4)" using counting_returns by blast
    have "runKPI3 tr c last_of r = verdict3 (length ids) ((m + n) div 2) r4"
      unfolding runKPI3_def by (simp add: s ids m n Let_def del: if_split)
    then show ?thesis using submitting_one [OF ids r1] by blast
  qed
qed

text \<open>A script that has run before is refused: its funding is a replay.\<close>

lemma funding_again:
  assumes "ok (run_server r)" and "bound k t (run_server r)"
  shows "fst (funding tr c a b amount k complaint r) = Inl (Exit 1)"
proof -
  obtain status body v where v: "transfer tr c a b amount k r = (Inr (status, body), v)" using returns(3) by blast
  then show ?thesis using transfer_claimed [OF assms v] by (simp add: funding_def)
qed

lemma createAccount_returns:
  "fst (createAccount tr c i kind r) = Inl (Exit 1) \<or> fst (createAccount tr c i kind r) = Inr ()"
proof -
  obtain status body v where "postJSON tr c ''/accounts'' [(''account_id'', JStr i), (''type'', JStr kind)] [] r =
      (Inr (status, body), v)" using returns(1) by blast
  then show ?thesis by (simp add: createAccount_def)
qed

lemma setup2_again:
  assumes "ok (run_server r)" and "bound ''kpi2-fund'' t (run_server r)"
  shows "fst (setup2 tr c r) = Inl (Exit 1)"
proof -
  let ?I = "\<lambda>s. ok s \<and> bound ''kpi2-fund'' t s"
  have step: "fst (proceed (createAccount tr c i kind) (\<lambda>_. m) r) = Inl (Exit 1)"
    if "?I (run_server r)" "\<And>r'. ?I (run_server r') \<Longrightarrow> fst (m r') = Inl (Exit 1)" for i kind and m :: "(unit, 's) script" and r
  proof (cases "createAccount tr c i kind r")
    case (Pair x r')
    then have "?I (run_server r')" using keeps_serverD [where I = ?I, OF held.keeps_createAccount] that(1) by blast
    then show ?thesis using createAccount_returns [of i kind r] Pair that(2) by (auto simp: proceed_def)
  qed
  show ?thesis
    unfolding setup2_def proceed_Inr [OF say_run]
    by (intro step funding_again [where t = t]) (use assms in simp_all)
qed

lemma kpi2_again:
  assumes "ok (run_server r)" and "bound ''kpi2-fund'' t (run_server r)"
  shows "fst (runKPI2 tr c turns r) = Inl (Exit 1)"
  using setup2_again [OF assms] by (cases "setup2 tr c r") (simp add: runKPI2_def proceed_def)

end

section \<open>KPI-2: no debt is seen\<close>

lemma client_get_exchanges:
  "client_get tr c path = exchanging tr
     \<lparr>snt_method = ''GET'', snt_url = hc_base c @ path,
      snt_headers = [(''Authorization'', ''Bearer '' @ hc_key c)], snt_body = None\<rparr>"
  by (simp add: client_get_def header_set_def)

context polled_service
begin

lemma get_solvent:
  assumes "ok (run_server r)" and "client_get tr c ''/accounts/alice-kpi2'' r = (Inr (200, body), r')"
  shows "\<not> balanceIsNegative (body ''balance'')"
proof -
  let ?q = "\<lparr>snt_method = ''GET'', snt_url = hc_base c @ ''/accounts/alice-kpi2'',
      snt_headers = [(''Authorization'', ''Bearer '' @ hc_key c)], snt_body = None\<rparr>"
  obtain reply s where s: "tr_Do tr ?q (run_server r) = (reply, s)" by fastforce
  then have "(200, body) = (case reply of Inl e \<Rightarrow> (0, [''error'' \<mapsto> JStr e])
      | Inr (status, found) \<Rightarrow> (status, decodeJSON found))"
    using assms(2) exchanging_run [of ?q "''/accounts/alice-kpi2''" r] by (simp add: client_get_exchanges)
  then obtain found where "reply = Inr (200, found)" "body = decodeJSON found"
    by (auto split: sum.splits prod.splits)
  then show ?thesis using no_debt [OF assms(1), of ?q] s by simp
qed

lemma contending_none:
  "ok (run_server r) \<Longrightarrow> \<exists>r'. contending tr c turns n r = (Inr n, r')"
proof (induction turns arbitrary: r)
  case (Cons u us)
  show ?case
  proof (cases u)
    case Polls
    obtain status body v where v: "client_get tr c ''/accounts/alice-kpi2'' r = (Inr (status, body), v)"
      using returns(2) by blast
    have "ok (run_server v)" using keeps_serverD [OF keeps_getting v Cons.prems] .
    moreover have "\<not> (status = 200 \<and> balanceIsNegative (body ''balance''))"
      using get_solvent [OF Cons.prems] v by blast
    ultimately show ?thesis using Cons.IH [of v] v Polls by auto
  next
    case (Spends i)
    obtain status body v where v: "transfer tr c ''alice-kpi2'' ''bob-kpi2'' spendAmount (spend_key i) r =
        (Inr (status, body), v)" using returns(3) by blast
    have "ok (run_server v)" using keeps_serverD [OF keeps_transfer v Cons.prems] .
    then show ?thesis using Cons.IH [of v] v Spends by simp
  qed
qed simp

lemma kpi2_passes:
  assumes "ok (run_server r)"
  shows "(\<exists>e r1. setup2 tr c r = (Inl e, r1) \<and> runKPI2 tr c turns r = (Inl e, r1)) \<or>
    (\<exists>r2. runKPI2 tr c turns r = verdict2 0 r2)"
proof (cases "setup2 tr c r")
  case (Pair x r1)
  show ?thesis
  proof (cases x)
    case (Inl e)
    then show ?thesis using Pair by (simp add: runKPI2_def)
  next
    case (Inr u)
    then have s: "setup2 tr c r = (Inr u, r1)" using Pair by simp
    have "ok (run_server r1)" using keeps_serverD [where I = ok, OF keeps_setups(1) s] assms by blast
    from contending_none [OF this] obtain r2 where "contending tr c turns 0 r1 = (Inr 0, r2)" by blast
    then show ?thesis using s by (auto simp: runKPI2_def)
  qed
qed

end

end
