(* ===== verification/Racing.thy ===== *)
theory Racing
  imports RaceProps Api
begin

text \<open>
  The race script against the production router: what its two scenarios can find out about it.
\<close>

section \<open>The service as the script reaches it\<close>

text \<open>
  The script's literal requests as \<open>net/http\<close> and the router package deliver them: the two
  headers, the body, and for a path the pattern it matches with its one parameter.
\<close>

definition header_value :: "sent \<Rightarrow> string \<Rightarrow> string" where
  "header_value q name = (case map_of (snt_headers q) name of None \<Rightarrow> [] | Some v \<Rightarrow> v)"

definition path_of :: "httpClient \<Rightarrow> sent \<Rightarrow> string" where
  "path_of c q = drop (length (hc_base c)) (snt_url q)"

definition account_part :: "string \<Rightarrow> string" where
  "account_part path = takeWhile (\<lambda>a. a \<noteq> CHR ''/'') (drop (length ''/accounts/'') path)"

definition endpoint_of :: "string \<Rightarrow> string \<Rightarrow> endpoint" where
  "endpoint_of verb path =
     (if verb = ''POST'' \<and> path = ''/accounts'' then PostAccounts
      else if verb = ''POST'' \<and> path = ''/transfers'' then PostTransfers
      else if verb = ''GET'' \<and> path = ''/accounts/'' @ account_part path then GetAccount
      else if verb = ''GET'' \<and> path = ''/accounts/'' @ account_part path @ ''/entries'' then GetEntriesRoute
      else NoRoute)"

definition delivered :: "httpClient \<Rightarrow> string \<Rightarrow> sent \<Rightarrow> http_request" where
  "delivered c request_id q =
     \<lparr>rq_authorization = header_value q ''Authorization'',
      rq_idempotencyKey = header_value q ''Idempotency-Key'',
      rq_queryTenantID = [],
      rq_urlParam = (\<lambda>_. account_part (path_of c q)),
      rq_body = \<lparr>body_reads = True, body_first = snt_body q, body_whole = snt_body q\<rparr>,
      rq_scope = None, rq_requestID = request_id\<rparr>"

text \<open>An answer's value as the client parses it: an instant has become text.\<close>

fun over_the_wire :: "(time \<Rightarrow> string) \<Rightarrow> json \<Rightarrow> json" where
  "over_the_wire rfc3339 (JTime t) = JStr (rfc3339 t)"
| "over_the_wire rfc3339 (JArr vs) = JArr (map (over_the_wire rfc3339) vs)"
| "over_the_wire rfc3339 (JObj members) = JObj (map (\<lambda>(k, v). (k, over_the_wire rfc3339 v)) members)"
| "over_the_wire rfc3339 v = v"

text \<open>
  What is around the two: the n-th exchange may fail before the request arrives or once the reply
  is under way, and before it the process serves others, wakes goroutines or restarts.
\<close>

datatype network = Arrives | Unsent string | Unanswered string

record surroundings =
  su_network :: "nat \<Rightarrow> network"
  su_others :: "nat \<Rightarrow> event list"
  su_request_id :: "nat \<Rightarrow> string"
  su_rfc3339 :: "time \<Rightarrow> string"

definition answer_of :: "surroundings \<Rightarrow> exchange \<Rightarrow> int \<times> json option" where
  "answer_of su y = (case ex_written y of
     [] \<Rightarrow> (200, None) | (status, v) # _ \<Rightarrow> (status, Some (over_the_wire (su_rfc3339 su) v)))"

definition exchange_once :: "surroundings \<Rightarrow> Deps \<Rightarrow> httpClient \<Rightarrow> sent \<Rightarrow> nat \<times> exchange \<Rightarrow>
    (string + int \<times> json option) \<times> (nat \<times> exchange)" where
  "exchange_once su deps c q s =
     (case s of (n, x) \<Rightarrow>
        let x' = happen_all deps (su_others su n) x;
            y = NewRouter deps (endpoint_of (snt_method q) (path_of c q)) (delivered c (su_request_id su n) q) x'
        in case su_network su n of
             Arrives \<Rightarrow> (Inr (answer_of su y), (Suc n, y))
           | Unsent e \<Rightarrow> (Inl e, (Suc n, x'))
           | Unanswered e \<Rightarrow> (Inl e, (Suc n, y)))"

text \<open>A base URL that parses.\<close>

definition router_transport :: "surroundings \<Rightarrow> Deps \<Rightarrow> httpClient \<Rightarrow> (nat \<times> exchange) transport" where
  "router_transport su deps c = \<lparr>tr_parses = (\<lambda>_. True), tr_Do = exchange_once su deps c\<rparr>"

section \<open>The interface holds of the router\<close>

abbreviation served_world :: "nat \<times> exchange \<Rightarrow> world" where
  "served_world s \<equiv> world_of (snd s)"

lemma exchange_once_moves:
  assumes "well_behaved (served_world s)"
  shows "moves (served_world s) (served_world (snd (exchange_once su (production key demo deps) c q s)))"
proof (cases s)
  case (Pair n x)
  let ?deps = "production key demo deps" and ?x = "happen_all (production key demo deps) (su_others su n) x"
  have x: "moves (world_of x) (world_of ?x)"
    using happen_all_moves [OF reading_production] assms Pair by simp
  then have "well_behaved (world_of ?x)" using assms Pair moves_well_behaved by simp
  from NewRouter_serves(1) [OF reading_production this] show ?thesis
    using x moves_trans [OF x] by (simp add: exchange_once_def Pair Let_def split: network.split)
qed

lemma others_well_behaved:
  "well_behaved (world_of x) \<Longrightarrow> well_behaved (world_of (happen_all (production key demo deps) es x))"
  by (rule moves_well_behaved [OF happen_all_moves [OF reading_production]])

lemma exchange_once_answers:
  assumes "exchange_once su deps c q (n, x) = (Inr (status, found), s')"
  shows "let x' = happen_all deps (su_others su n) x;
             y = NewRouter deps (endpoint_of (snt_method q) (path_of c q)) (delivered c (su_request_id su n) q) x'
         in s' = (Suc n, y) \<and> (status, found) = answer_of su y"
  using assms by (simp add: exchange_once_def Let_def split: network.splits)

lemma delivered_posting:
  assumes "posts_under c k q"
  shows "endpoint_of (snt_method q) (path_of c q) = PostTransfers" "rq_idempotencyKey (delivered c i q) = k"
  using assms by (simp_all add: posts_under_def endpoint_of_def path_of_def delivered_def header_value_def)

lemma member_over_the_wire:
  "member_of (over_the_wire f v) k = map_option (over_the_wire f) (member_of v k)"
proof (cases v)
  case (JObj members)
  have "map_of (rev (map (\<lambda>(k, v). (k, over_the_wire f v)) ms)) k = map_option (over_the_wire f) (map_of (rev ms) k)"
    for ms unfolding rev_map map_of_map by simp
  then show ?thesis using JObj by (simp add: member_of_def members_of_def)
qed (simp_all add: member_of_def members_of_def)

lemma decodeJSON_member: "decodeJSON (Some v) = member_of v"
  by (cases v) (simp_all add: decodeJSON_def member_of_def members_of_def)

definition world_ok :: "nat \<times> exchange \<Rightarrow> bool" where
  "world_ok s \<longleftrightarrow> well_behaved (served_world s)"

definition key_bound :: "string \<Rightarrow> string \<Rightarrow> nat \<times> exchange \<Rightarrow> bool" where
  "key_bound k tid s \<longleftrightarrow> (\<exists>c. db_key (w_committed (served_world s)) k = Some c \<and> kr_transaction c = tid)"

lemma key_bound_moved: "moves (served_world s) (served_world s') \<Longrightarrow> key_bound k t s \<Longrightarrow> key_bound k t s'"
  using history.moved extends_db_key by (fastforce simp: key_bound_def)

lemma router_accepts:
  assumes "world_ok s" and "posts_under c k q"
    and "exchange_once su (production key demo deps) c q s = (Inr (status, found), s')"
    and "status = 200 \<or> status = 201"
  shows "key_bound k (string_of (decodeJSON found ''transaction_id'')) s'"
proof (cases s)
  case (Pair n x)
  let ?deps = "production key demo deps"
  let ?x = "happen_all ?deps (su_others su n) x" and ?r = "delivered c (su_request_id su n) q"
  let ?y = "NewRouter ?deps PostTransfers ?r ?x"
  have x: "well_behaved (world_of ?x)"
    using assms(1) others_well_behaved Pair by (simp add: world_ok_def)
  have y: "s' = (Suc n, ?y)" "(status, found) = answer_of su ?y"
    using exchange_once_answers [OF assms(3) [unfolded Pair]] delivered_posting(1) [OF assms(2)] by (simp_all add: Let_def)
  obtain st v where v: "ex_written ?y = [(st, v)]" "names_bound k st v (world_of ?y)"
    using posting_bound [OF x, where r = ?r] delivered_posting(2) [OF assms(2)] by metis
  then have "found = Some (over_the_wire (su_rfc3339 su) v)" "st = status" using y(2) by (simp_all add: answer_of_def)
  then show ?thesis
    using v(2) assms(4) y(1)
    by (auto simp: names_bound_def key_bound_def names_transaction_of_def decodeJSON_member member_over_the_wire string_of_def)
qed

lemma router_claimed:
  assumes "world_ok s" and "key_bound k t s" and "posts_under c k q"
    and "exchange_once su (production key demo deps) c q s = (Inr (status, found), s')"
  shows "status \<noteq> 201"
proof (cases s)
  case (Pair n x)
  let ?deps = "production key demo deps"
  let ?x = "happen_all ?deps (su_others su n) x" and ?r = "delivered c (su_request_id su n) q"
  let ?y = "NewRouter ?deps PostTransfers ?r ?x"
  obtain b where b: "db_key (w_committed (world_of x)) k = Some b" using assms(2) Pair by (auto simp: key_bound_def)
  have "key_claimed k b (world_of ?x)"
    using key_claimed_moved [OF happen_all_moves [OF reading_production]] assms(1) b Pair
    by (simp add: key_claimed_def world_ok_def)
  then obtain st v where v: "ex_written ?y = [(st, v)]" "names_claimed b st v (world_of ?y)"
    using posting_claimed [where r = ?r and x = ?x] delivered_posting(2) [OF assms(3)] by metis
  moreover have "(status, found) = answer_of su ?y"
    using exchange_once_answers [OF assms(4) [unfolded Pair]] delivered_posting(1) [OF assms(3)] by (simp add: Let_def)
  ultimately show ?thesis by (auto simp: answer_of_def names_claimed_def)
qed

interpretation raced: keyed_service "router_transport su (production key demo deps) c" c world_ok key_bound
  for su key demo deps c
proof unfold_locales
  fix s :: "nat \<times> exchange" and q :: sent and k t
  let ?s = "snd (exchange_once su (production key demo deps) c q s)"
  show "world_ok (snd (tr_Do (router_transport su (production key demo deps) c) q s))" if "world_ok s"
    using moves_well_behaved [OF exchange_once_moves] that by (simp add: router_transport_def world_ok_def)
  show "key_bound k t (snd (tr_Do (router_transport su (production key demo deps) c) q s))"
    if "world_ok s" "key_bound k t s"
    using key_bound_moved [OF exchange_once_moves] that by (simp add: router_transport_def world_ok_def)
qed (auto simp: router_transport_def key_bound_def intro: router_accepts [unfolded key_bound_def]
    dest: router_claimed [unfolded key_bound_def])








section \<open>What the scenarios can find out\<close>

abbreviation begun :: "nat \<times> exchange \<Rightarrow> (nat \<times> exchange) run" where
  "begun s \<equiv> \<lparr>run_server = s, run_said = []\<rparr>"

text \<open>
  C38: race-03 sees one transaction: against the production router, whatever the network loses,
  whoever else is served and whatever fails, the fifty submissions of one key name one
  transaction at most, and a run of the scenario either stops with its set-up or ends in a
  verdict that counts one distinct id at most.
\<close>

theorem kpi3_sees_one_transaction:
  fixes su key demo deps c
  defines "tr \<equiv> router_transport su (production key demo deps) c"
  assumes "well_behaved (world_of x)"
  shows "(\<exists>ids r'. submitting tr c submissions [] (begun (n, x)) = (Inr ids, r') \<and> length ids \<le> 1) \<and>
    ((\<exists>e r'. setup3 tr c (begun (n, x)) = (Inl e, r') \<and> runKPI3 tr c last_of (begun (n, x)) = (Inl e, r')) \<or>
     (\<exists>ids pairs r'. ids \<le> 1 \<and> runKPI3 tr c last_of (begun (n, x)) = verdict3 ids pairs r'))"
proof -
  have ok: "world_ok (run_server (begun (n, x)))" using assms(2) by (simp add: world_ok_def)
  have "\<exists>ids r'. submitting tr c submissions [] (begun (n, x)) = (Inr ids, r') \<and> length ids \<le> 1"
    unfolding tr_def using raced.submitting_returns raced.submitting_one [OF _ ok] by blast
  then show ?thesis unfolding tr_def using raced.kpi3_counts_one [OF ok] by blast
qed

definition calm_surroundings :: surroundings where
  "calm_surroundings = \<lparr>su_network = (\<lambda>_. Arrives), su_others = (\<lambda>_. []), su_request_id = (\<lambda>_. ''r''),
     su_rfc3339 = (\<lambda>_. [])\<rparr>"

definition sample_client :: httpClient where
  "sample_client = race_client (\<lambda>name. if name = ''RACE_TENANT_KEY'' then ''a'' else [])"

theorem kpi3_sees_one_transaction_witness:
  "\<exists>ids r'. submitting (router_transport calm_surroundings (production ''op'' [] sample_deps) sample_client)
      sample_client submissions [] (begun (0, started (quiet_world sample_db) (\<lambda>_. 0))) = (Inr ids, r') \<and>
    length ids \<le> 1"
  by (rule conjunct1 [OF kpi3_sees_one_transaction]) simp




text \<open>A second run against the same ledger stops: the funding is a replay, and a replay is no 201.\<close>

lemma kpi2_second_run:
  assumes "well_behaved (world_of x)" and "db_key (w_committed (world_of x)) ''kpi2-fund'' \<noteq> None"
  shows "exit_status (fst (runKPI2 (router_transport su (production key demo deps) c) c turns (begun (n, x)))) = 1"
proof -
  obtain b where b: "db_key (w_committed (world_of x)) ''kpi2-fund'' = Some b" using assms(2) by blast
  then show ?thesis
    using raced.kpi2_again [where t = "kr_transaction b"] assms(1)
    by (simp add: exit_status_def world_ok_def key_bound_def)
qed

end
