(* ===== verification/RaceQuiet.thy ===== *)
theory RaceQuiet
  imports Racing
begin

text \<open>
  Race-03 against a service that is left alone: on a ledger where nothing of the scenario exists
  yet, every step of the script gets the answer it asks for, and the run passes.
\<close>

section \<open>A request of one tenant in a quiet world\<close>

text \<open>The guard of the tenant's routes, passed.\<close>

definition through_guard :: "string \<Rightarrow> http_request \<Rightarrow> http_request" where
  "through_guard t r = withTenantScope (ScopedToTenant t) (r\<lparr>rq_scope := None\<rparr>)"


section \<open>Opening an account\<close>

definition opened :: "string \<Rightarrow> string \<Rightarrow> AccountKind \<Rightarrow> db \<Rightarrow> db" where
  "opened t i kind d = d\<lparr>accounts := accounts d @ [\<lparr>ar_tenant = t, ar_id = i, ar_kind = kind, ar_balance = 0,
     ar_currency = ledgerCurrency\<rparr>]\<rparr>"






section \<open>The steps of the script\<close>





lemma through_guard_sel [simp]:
  "rq_body (through_guard t r) = rq_body r" "rq_urlParam (through_guard t r) = rq_urlParam r"
  "rq_queryTenantID (through_guard t r) = rq_queryTenantID r" "caller_tenant (through_guard t r) = t"
  "TenantScopeFromContext (through_guard t r) = ScopedToTenant t"
  by (simp_all add: through_guard_def withTenantScope_def caller_tenant_def TenantScopeFromContext_def)





















section \<open>Counting entries\<close>








section \<open>The ledger of the scenario\<close>


lemma opened_sel [simp]:
  "tenant_exists (opened t i kind d) u = tenant_exists d u" "db_key (opened t i kind d) = db_key d"
  "transaction_exists (opened t i kind d) x = transaction_exists d x"
  by (simp_all add: opened_def tenant_exists_def db_tenant_def db_key_def transaction_exists_def fun_eq_iff)













section \<open>The run\<close>



section \<open>The property\<close>



end
