(* ===== verification/Spec2Isabelle.thy ===== *)
theory Spec2Isabelle
  imports Samples Api MigrateTheorems Guarding Racing RaceQuiet
begin

text \<open>
  A verification of ledgerops, a double-entry ledger service in Go over PostgreSQL: tenants hold
  accounts, \<open>POST /transfers\<close> moves money between two accounts of one tenant, and a saga of three
  postings moves it between tenants that have linked themselves. Each theory translates the files it
  names; the properties of the parts that span components stand in this theory, in \<open>Api\<close> (HTTP),
  \<open>MigrateTheorems\<close> (the command migrate), \<open>Guarding\<close> (what reaches past the ports, start-up) and
  \<open>Racing\<close> and \<open>RaceQuiet\<close> (the race script against the service).

  \<^bold>\<open>The program and its model.\<close>
  \<^item> \<open>internal/domain\<close>: pure rules. \<open>Money\<close> (amounts as 64-bit words that wrap as Go's, violations),
    \<open>Account\<close> (accounts, the wallet floor, tenants), \<open>Posting\<close> (\<open>Post\<close>, the decision on one
    movement), \<open>TenantLink\<close> (links of tenants, counterparty aliases).
  \<^item> \<open>internal/app/ports\<close>: \<open>Ports\<close>, the values that cross the ports; the repository interfaces
    themselves are the definitions of the adapter.
  \<^item> \<open>internal/adapters/postgres\<close>: \<open>Database\<close> (the tables of the migrations, keys and references, a
    unit of work), \<open>LedgerStore\<close> (\<open>accounts.go\<close>, \<open>transactions.go\<close>, \<open>idempotency.go\<close>), \<open>LinkStore\<close>
    (\<open>tenants.go\<close>, \<open>tenant_links.go\<close>, \<open>counterparty_aliases.go\<close>), \<open>TransferStore\<close>
    (\<open>transfer_state.go\<close>), \<open>OutOfBand\<close> (the probes of \<open>store.go\<close> under the rights of a role),
    \<open>Migration\<close> (\<open>migrate_plan.go\<close>), \<open>MigrateRun\<close> (\<open>migrate_exec.go\<close> and the migration part of
    \<open>store.go\<close>), \<open>Scram\<close> (\<open>scram.go\<close>), \<open>Redaction\<close> (\<open>support/secret.go\<close>, \<open>RedactDSN\<close>).
  \<^item> \<open>internal/app\<close>: \<open>Ledger\<close> (\<open>usecases.go\<close>, one unit of work per use case), \<open>Backoff\<close>, \<open>Coordinator\<close>
    and \<open>Saga\<close> (\<open>transfer_coordinator.go\<close> and its test faults).
  \<^item> \<open>internal/adapters/http\<close>: \<open>Wire\<close> (JSON, amounts, fingerprints), \<open>Handlers\<close> (\<open>handlers.go\<close>,
    \<open>status.go\<close>, \<open>logfields.go\<close>, \<open>metrics.go\<close>), \<open>Router\<close> (\<open>router.go\<close>, \<open>request_logging.go\<close>,
    \<open>console_static.go\<close>, \<open>testonly_faults.go\<close>).
  \<^item> \<open>cmd/api\<close>: \<open>Config\<close> (\<open>config.go\<close>), \<open>runMigrate\<close> of \<open>MigrateRun\<close> (\<open>migrate.go\<close>), \<open>Startup\<close> (\<open>main.go\<close>).
  \<^item> \<open>scripts/race\<close>: \<open>Race\<close> (\<open>main.go\<close>), a client that drives the service and judges what it sees, over
    a transport that answers; its goroutines are a list of turns.

  \<^bold>\<open>State and effects.\<close> A call of the ledger is a function of a \<open>world\<close> (theory \<open>Database\<close>): the
  committed tables, the view of the open unit of work, its row locks, the clock and the identifiers
  as streams, and an environment that is universally quantified in the properties: which statements
  fail (\<open>w_faults\<close>, a lost reply to a commit that took effect included) and what other sessions
  commit in between (\<open>w_env\<close>), under READ COMMITTED. An error is a left value of a sum. The
  coordinator's state is the world with its armed faults, its settings and the tasks of its
  goroutines; \<open>System\<close> drives it by any sequence of calls, wake-ups in any order, ticks and restarts.
  A handler is a step of an exchange that ends in an answer and a log line (\<open>Router\<close>). Calls outside
  a unit of work are functions of a \<open>session\<close> (theory \<open>Session\<close>), any of which may fail with or
  without effect and before any of which other sessions may change the server.

  \<^bold>\<open>How the properties are reached.\<close>
  \<^item> \<open>Logic\<close> is a calculus of weakest preconditions of units of work. \<open>Steps\<close> is the abstract
    specification: \<open>commit_step\<close>, what one commit may do. \<open>Refinement\<close>, \<open>PostRefinement\<close>,
    \<open>SagaUnits\<close> and \<open>SagaRefinement\<close> show that every operation moves the committed database by such
    steps and by nothing else; \<open>Settling\<close> shows what a posting and a claim leave on record, so that a
    transfer is settled only once it is paid. \<open>Books\<close> and \<open>Journal\<close> prove the invariants of the steps alone, so that they hold
    of every operation by the locale \<open>commit_invariant\<close>.
  \<^item> \<open>PostProps\<close>, \<open>Verdict\<close>, \<open>Trace\<close>: what the caller of a posting, of \<open>VerifyBooks\<close> and of
    \<open>GetEntries\<close> gets on every branch. \<open>Calm\<close>, \<open>CalmSaga\<close>, \<open>SendProps\<close>, \<open>SagaProps\<close>, \<open>EndToEnd\<close>
    evaluate the saga where nothing disturbs it: settlement, retries, refunds, and two runs the code
    does not mean. \<open>Stranded\<close>: who drives a transfer, and that after a restart nobody does.
  \<^item> \<open>Serving\<close>, \<open>WireProps\<close>, \<open>HttpProps\<close>, \<open>HttpPosting\<close>: what a route keeps, what goes over the wire,
    who is let in, and the retry of a posting. \<open>Answering\<close> and \<open>Solvency\<close>: what an answer with success
    says of the database it leaves (the transaction a key is bound to, the balance of a wallet),
    whatever fails. \<open>RaceProps\<close> proves the scenarios of the race script over the interface of a service
    (locales \<open>keyed_service\<close>, \<open>polled_service\<close>); \<open>Racing\<close> discharges it for the production router behind a
    network that may lose requests and replies. \<open>RaceQuiet\<close> runs race-03 to its end, from the opening of
    its accounts to PASS, where nothing disturbs it.
  \<^item> \<open>MigrateProps\<close>: what a run of migrate does to a server that others use too. \<open>OutOfBandProps\<close>: the
    rights of roles, the trigger, and the verdict on a record that was altered.
  \<^item> \<open>Samples\<close>: the concrete ledgers and worlds that the witnesses evaluate.

  \<^bold>\<open>Bounds.\<close> No function of the model takes fuel. \<open>PostTransfer\<close> calls itself when a claim is
  lost; it is a partial function, and \<open>posting_returns\<close> shows that it always answers: a claim is lost
  only to a committed key, and a committed key is never lost again. The retry budget of a leg is five,
  a lease is 15 seconds; \<open>float64\<close> is rounded as IEEE 754 rounds, in integers. \<open>replacing\<close> recurses on
  what a match leaves, which is shorter.

  \<^bold>\<open>Parameters.\<close> PostgreSQL's collation (\<open>w_collate\<close>), SHA-256 (\<open>w_sha256hex\<close>, \<open>primitives\<close>), NFKC and
  the check of prohibited characters, golang-migrate (\<open>migrator\<close>), what pgx reads in a DSN
  (\<open>login\<close>), the parsing of a JSON text, the matching of a path to a route, the file server and the
  exposition of metrics (\<open>Deps\<close>). Nothing is assumed of them except where a property says so.

  \<^bold>\<open>Not modelled.\<close> Sockets, goroutine scheduling below a call (a task runs between calls), the text of
  most infrastructure errors, and created_at, which nothing reads. \<open>LoadServeConfig\<close>,
  \<open>refuseIfMigrateDSNPresent\<close> and \<open>internal/release\<close> are stubs that panic. \<open>singleStatementDSN\<close> rewrites a
  DSN for golang-migrate, which is a parameter. \<open>prefeature\<close> is frozen SQL for tests. \<open>scripts/smoke\<close> and
  \<open>scripts/releaseplan\<close> are release tooling, and tests/ is test code. Of the race script the requests of
  its goroutines follow one another: a request that overlaps another meets it as another session.
\<close>

section \<open>Whatever happens\<close>

abbreviation after :: "operation list \<Rightarrow> (nat \<Rightarrow> int) \<Rightarrow> world \<Rightarrow> db" where
  "after ops draws w \<equiv> w_committed (co_world (operate_all ops (NewTransferCoordinator w draws)))"

text \<open>
  C1: the books stay in order over any sequence of operations: the schema's keys and
  references, every transaction sums to zero (I1), every stored balance is what its entries
  sum to (I3), no wallet is negative (I4), one currency. Any statement may fail, any commit
  may lose its reply, other ledgers may commit in between.
\<close>

theorem books_always:
  assumes "well_behaved w" and "books (w_committed w)"
  shows "books (after ops draws w)"
  using books.commit_invariant_axioms assms by (rule operate_all_keeps)

theorem books_always_witness:
  "books (after [DoSendTransfer ''a'' ''m'' (usd 200) ''K'' ''f'', DoWake 0, DoTick] (\<lambda>_. 0)
     (quiet_world sample_db))"
  by (rule books_always) simp_all

text \<open>
  C2: the program refines its specification: over any sequence of operations, under any
  faults and interference, the committed database moves by commits the specification
  allows and by nothing else.
\<close>

theorem program_refines:
  assumes "well_behaved w"
  shows "commit_steps (w_committed w) (after ops draws w)"
  using operate_all_moves [of "NewTransferCoordinator w draws" ops] assms by (simp add: moves_def)

theorem program_refines_witness:
  "commit_steps sample_db (after [DoTick, DoRestart, DoVerifyBooks Unscoped] (\<lambda>_. 0) (quiet_world sample_db))"
  using program_refines [OF well_behaved_quiet_world, of sample_db] by (simp only: quiet_world_sel)

text \<open>
  History is only appended to (D7): entries, transactions, claims, tenants and aliases
  are prefixes of what follows; accounts and transfers keep their identity; a revoked link
  stays revoked.
\<close>

theorem history_append_only:
  assumes "well_behaved w"
  shows "extends (w_committed w) (after ops draws w)"
proof -
  have "moves w (co_world (operate_all ops (NewTransferCoordinator w draws)))"
    using operate_all_moves [of "NewTransferCoordinator w draws" ops] assms by simp
  then show ?thesis by (rule history.moved)
qed

theorem history_append_only_witness:
  "extends sample_db (after [DoRevokeTenantLink ''l'', DoTick] (\<lambda>_. 0) (quiet_world sample_db))"
  using history_append_only [OF well_behaved_quiet_world, of sample_db] by (simp only: quiet_world_sel)

text \<open>
  C3: the journal is double entry and append only: every transaction is exactly one debit and one
  credit of the same positive amount between two accounts of the transaction's own tenant (I1,
  I8), bound by exactly one idempotency claim (I7), and what is recorded stays a prefix of what
  follows (D7).
\<close>

theorem journal_always:
  assumes "well_behaved w" and "journal (w_committed w)"
  shows "journal (after ops draws w) \<and> extends (w_committed w) (after ops draws w)"
proof -
  have "moves w (co_world (operate_all ops (NewTransferCoordinator w draws)))"
    using operate_all_moves [of "NewTransferCoordinator w draws" ops] assms(1) by simp
  then show ?thesis using journal.moved history.moved assms(2) by blast
qed

theorem journal_always_witness:
  "journal (after [DoSendTransfer ''a'' ''m'' (usd 200) ''K'' ''f'', DoWake 0] (\<lambda>_. 0) (quiet_world sample_db)) \<and>
   extends sample_db (after [DoSendTransfer ''a'' ''m'' (usd 200) ''K'' ''f'', DoWake 0] (\<lambda>_. 0) (quiet_world sample_db))"
  using journal_always [OF well_behaved_quiet_world, of sample_db] by (simp only: quiet_world_sel sample_journal)

text \<open>
  C4: money never crosses a tenant: starting from the migrated database, the balances of
  each tenant's accounts always sum to zero, cross-tenant transfers included.
\<close>

theorem tenants_net_zero:
  assumes "well_behaved w" and "w_committed w = migrated_db"
  shows "tenant_total (after ops draws w) t = 0"
proof (rule tenant_total_zero)
  show "books (after ops draws w)"
    using books.commit_invariant_axioms assms(1) by (rule operate_all_keeps) (simp add: assms(2) books_migrated)
  show "zero_sum (after ops draws w)"
    using zero.commit_invariant_axioms assms(1)
    by (rule operate_all_keeps) (simp add: assms(2) zero_sum_def migrated_db_def)
qed

theorem tenants_net_zero_witness:
  "tenant_total (after [DoProvisionTenant ''n'', DoTick] (\<lambda>_. 0) (quiet_world migrated_db)) ''tnt_platform'' = 0"
  by (rule tenants_net_zero) simp_all

text \<open>
  C6: the rows of the directory and of the saga stay well-formed, over any sequence of
  operations: links are canonical pairs of which at most one is active (D16); a transfer is
  recorded once per tenant and key, has one of the five statuses with the reason that goes with
  its end, and its leg columns still hold what its creation wrote.
\<close>

theorem rows_stay_typed:
  assumes "well_behaved w" and "links_canonical (w_committed w)" and "transfers_unique (w_committed w)"
    and "transfers_typed (w_committed w)"
  shows "links_canonical (after ops draws w) \<and> transfers_unique (after ops draws w) \<and>
     transfers_typed (after ops draws w)"
  using operate_all_keeps [OF canonical.commit_invariant_axioms assms(1,2)]
    operate_all_keeps [OF once.commit_invariant_axioms assms(1,3)]
    operate_all_keeps [OF typed.commit_invariant_axioms assms(1,4)] by blast

theorem rows_stay_typed_witness:
  "transfers_typed (after [DoAuthorizeTenantPair ''b'' ''a'', DoSendTransfer ''a'' ''m'' (usd 200) ''K'' ''F'', DoWake 0]
     (\<lambda>_. 0) (quiet_world sample_db))"
  by (rule rows_stay_typed [THEN conjunct2, THEN conjunct2]) (simp_all add: transfers_typed_def)

section \<open>Posting\<close>

text \<open>
  C7: the outcome of a posting, whatever fails and whoever else commits: a fresh answer is
  one atomic commit of the whole movement; a replayed answer wrote nothing; after an error
  nothing of it is in the database, unless a statement of the run is faulty, and then it is
  the whole movement or nothing.
\<close>

theorem posting_outcome:
  "outcome cmd w (fst (PostTransfer cmd w)) (snd (PostTransfer cmd w))"
  by (rule PostTransfer_outcome) simp



text \<open>
  C9: an allowed movement under a free key is carried out: the answer is the fresh posting
  and the committed database gains exactly its transaction, its two entries, its claim and
  the two balance changes.
\<close>

theorem posting_succeeds:
  assumes "quiet w" and "books (w_committed w)"
    and "movable (req_TenantID cmd) (req_From cmd) (req_To cmd) (req_Amount cmd) (w_committed w)"
    and "req_From cmd \<noteq> req_To cmd" and "db_key (w_committed w) (req_IdempotencyKey cmd) = None"
    and "\<And>n. w_minted w \<le> n \<Longrightarrow> \<not> transaction_exists (w_committed w) (w_ids w n)"
  shows "\<exists>tid now w'. PostTransfer cmd w = (Inr \<lparr>res_Posting = posting_of cmd tid now, res_Replayed = False\<rparr>, w') \<and>
      w_committed w' = posted (req_TenantID cmd) (req_From cmd) (req_To cmd) (req_Amount cmd) tid
        (timestamptz now) (req_IdempotencyKey cmd) (req_Fingerprint cmd) (w_committed w)"
  using PostTransfer_succeeds [OF assms(1-5)] assms(6) by blast

theorem posting_succeeds_witness:
  "\<exists>tid now w'. PostTransfer (sample_request ''w'' ''k'' 200 ''j'' ''g'') (quiet_world sample_db) =
       (Inr \<lparr>res_Posting = posting_of (sample_request ''w'' ''k'' 200 ''j'' ''g'') tid now, res_Replayed = False\<rparr>, w') \<and>
     w_committed w' = posted ''a'' ''w'' ''k'' (usd 200) tid (timestamptz now) ''j'' ''g'' sample_db"
  using posting_succeeds [of "quiet_world sample_db" "sample_request ''w'' ''k'' 200 ''j'' ''g''"] sample_movable
  by (simp add: sample_request_def db_key_def transaction_exists_def)

text \<open>
  C10: a wallet cannot be overdrawn: a movement that its payer, a wallet, cannot afford is
  refused as insufficient funds, naming the account, what it holds and what was asked, and
  nothing is written.
\<close>

theorem overdraft_refused:
  assumes "quiet w" and "books (w_committed w)" and "db_key (w_committed w) (req_IdempotencyKey cmd) = None"
    and "db_account (w_committed w) (req_TenantID cmd) (req_From cmd) = Some f" and "ar_kind f = Wallet"
    and "account_exists (w_committed w) (req_TenantID cmd) (req_To cmd)"
    and "currency (req_Amount cmd) = ar_currency f"
    and "sint (ar_balance f) < sint (minorUnits (req_Amount cmd))"
  shows "\<exists>w'. PostTransfer cmd w = (Inl (ErrViolation (NewInsufficientFunds (req_From cmd)
      \<lparr>minorUnits = ar_balance f, currency = ar_currency f\<rparr> (req_Amount cmd))), w') \<and>
      w_committed w' = w_committed w"
  using assms(1-3)
proof (rule PostTransfer_refused)
  have f: "0 \<le> sint (ar_balance f)"
    using assms(2,4,5) db_account_key by (fastforce simp: books_def floored_def)
  have pos: "0 < sint (minorUnits (req_Amount cmd))" using f assms(8) by linarith
  have "sint (ar_balance f - minorUnits (req_Amount cmd)) =
      sint (ar_balance f) - sint (minorUnits (req_Amount cmd))"
    using sint_add_exact [of "ar_balance f" "- minorUnits (req_Amount cmd)"] sint_minus_pos [OF pos] f pos
      sint_in_int64 [of "minorUnits (req_Amount cmd)"] sint_in_int64 [of "ar_balance f"]
    by (simp add: in_int64_def)
  then have "sint (ar_balance f - minorUnits (req_Amount cmd)) < 0" using assms(8) by linarith
  moreover obtain g where "db_account (w_committed w) (req_TenantID cmd) (req_To cmd) = Some g"
    using assms(6) by (auto simp: account_exists_def)
  ultimately show "decision cmd (w_committed w) now tid = Inl (NewInsufficientFunds (req_From cmd)
      \<lparr>minorUnits = ar_balance f, currency = ar_currency f\<rparr> (req_Amount cmd))" for now tid
    using assms(4,5,7) pos unfolding decision_def Post_eq TransferCommand.simps decision_accounts
    by (simp add: found_account_def Account_Apply_def Money_Add_def)
qed

theorem overdraft_refused_witness:
  "\<exists>w'. PostTransfer (sample_request ''w'' ''k'' 900 ''j'' ''g'') (quiet_world sample_db) =
     (Inl (ErrViolation (NewInsufficientFunds ''w'' \<lparr>minorUnits = 500, currency = ''USD''\<rparr> (usd 900))), w') \<and>
     w_committed w' = sample_db"
  using overdraft_refused [of "quiet_world sample_db" "sample_request ''w'' ''k'' 900 ''j'' ''g''"
      "\<lparr>ar_tenant = ''a'', ar_id = ''w'', ar_kind = Wallet, ar_balance = 500, ar_currency = ''USD''\<rparr>"]
  by (simp add: sample_request_def sample_accounts db_key_def account_exists_def usd_def)

text \<open>
  C11: a claimed key answers for good, however long ago it was claimed and whoever else commits:
  whatever fails, an answer under it is a replay of the transaction that claimed it, given only to
  a request with the claim's fingerprint. Where nothing fails such a request returns the posting
  that was recorded, and one with another fingerprint is a conflict, which discloses nothing. None
  of them commits anything (I7).
\<close>

theorem claimed_key_answers:
  assumes "well_behaved w" and "db_key (w_committed w) (req_IdempotencyKey cmd) = Some c"
  shows "(\<forall>res w'. PostTransfer cmd w = (Inr res, w') \<longrightarrow>
      res_Replayed res \<and> kr_fingerprint c = req_Fingerprint cmd \<and>
      txn_id (p_Transaction (res_Posting res)) = kr_transaction c \<and> since w w') \<and>
    (\<not> faulty w \<and> books (w_committed w) \<and> kr_fingerprint c = req_Fingerprint cmd \<and>
      stored_transaction (w_committed w) (req_TenantID cmd) (kr_transaction c) = Some r \<longrightarrow>
      (\<exists>w'. PostTransfer cmd w =
        (Inr \<lparr>res_Posting = stored_posting (w_committed w) (req_TenantID cmd) r, res_Replayed = True\<rparr>, w') \<and>
        since w w')) \<and>
    (\<not> faulty w \<and> kr_fingerprint c \<noteq> req_Fingerprint cmd \<longrightarrow>
      (\<exists>w'. PostTransfer cmd w = (Inl ErrIdempotencyKeyConflict, w') \<and> since w w'))"
  using claimed_key_replayed [OF assms] PostTransfer_replays [OF assms(1) _ _ assms(2)]
    PostTransfer_conflict [OF assms(1) _ assms(2)] by blast

theorem claimed_key_answers_witness:
  "(\<exists>w'. PostTransfer (sample_request ''k'' ''w'' 500 ''q'' ''f'') (quiet_world sample_db) =
      (Inr \<lparr>res_Posting = stored_posting sample_db ''a''
         \<lparr>tr_tenant = ''a'', tr_id = ''t'', tr_recorded_at = 0\<rparr>, res_Replayed = True\<rparr>, w') \<and>
      since (quiet_world sample_db) w') \<and>
   (\<exists>w'. PostTransfer (sample_request ''w'' ''k'' 1 ''q'' ''g'') (quiet_world sample_db) =
      (Inl ErrIdempotencyKeyConflict, w') \<and> since (quiet_world sample_db) w')"
  using claimed_key_answers [of "quiet_world sample_db" "sample_request ''k'' ''w'' 500 ''q'' ''f''"]
    claimed_key_answers [of "quiet_world sample_db" "sample_request ''w'' ''k'' 1 ''q'' ''g''"]
  by (simp add: sample_request_def db_key_def stored_transaction_def)

text \<open>
  C12: the rulebook decides a movement from its snapshots: an answer is a pair of legs that
  sum to zero in the one currency of both accounts, both accounts belong to the caller's
  tenant, the amount is positive, and a wallet that pays or receives ends at or above zero.
\<close>

theorem rulebook_sound:
  assumes "Post cmd snapshots now tid = Inr p"
  shows "EntriesSumToZero (p_Entries p) \<and> length (p_Entries p) = 2 \<and>
    0 < sint (minorUnits (cmd_Amount cmd)) \<and>
    (\<exists>f g. findAccount snapshots (cmd_From cmd) = Some f \<and> findAccount snapshots (cmd_To cmd) = Some g \<and>
       acct_tenantID f = cmd_TenantID cmd \<and> acct_tenantID g = cmd_TenantID cmd \<and>
       currency (acct_balance f) = currency (cmd_Amount cmd) \<and>
       currency (acct_balance g) = currency (cmd_Amount cmd) \<and>
       (acct_kind f = Wallet \<longrightarrow> 0 \<le> sint (minorUnits (acct_balance f) - minorUnits (cmd_Amount cmd))) \<and>
       (acct_kind g = Wallet \<longrightarrow> 0 \<le> sint (minorUnits (acct_balance g) + minorUnits (cmd_Amount cmd))))"
  using assms
  by (auto simp: Post_eq Account_Apply_Inr_iff Post_legs_balanced
      split: if_splits option.splits sum.splits)

theorem rulebook_sound_witness:
  "EntriesSumToZero (p_Entries (projr (Post \<lparr>cmd_From = ''w'', cmd_To = ''k'', cmd_Amount = usd 200, cmd_TenantID = ''a''\<rparr>
     [\<lparr>acct_id = ''k'', acct_kind = System, acct_balance = usd (- 500), acct_tenantID = ''a''\<rparr>,
      \<lparr>acct_id = ''w'', acct_kind = Wallet, acct_balance = usd 500, acct_tenantID = ''a''\<rparr>] 0 ''t'')))"
proof -
  let ?r = "Post \<lparr>cmd_From = ''w'', cmd_To = ''k'', cmd_Amount = usd 200, cmd_TenantID = ''a''\<rparr>
     [\<lparr>acct_id = ''k'', acct_kind = System, acct_balance = usd (- 500), acct_tenantID = ''a''\<rparr>,
      \<lparr>acct_id = ''w'', acct_kind = Wallet, acct_balance = usd 500, acct_tenantID = ''a''\<rparr>] 0 ''t''"
  have "?r = Inr (projr ?r)" by (simp add: Post_eq Account_Apply_def Money_Add_def usd_def)
  from rulebook_sound [OF this] show ?thesis by blast
qed

section \<open>Reading the books\<close>



text \<open>
  C14: reading an account's entries answers its trace and writes nothing: the entries in scope
  in recording order, each with the running balance of its tenant's account. The trace a tenant
  reads ends at the balance that the account row holds. Tenants that share an account id are never
  mixed: one tenant's rows of a wider trace are that tenant's own trace.
\<close>

theorem entries_traced:
  assumes "quiet w" and "books (w_committed w)" and "known_to scope i (w_committed w)"
  shows "\<exists>es w'. GetEntries scope i w = (Inr es, w') \<and> es = trace_on (w_collate w) scope i (w_committed w) \<and>
     w_committed w' = w_committed w \<and>
     (\<forall>t r. scope = ScopedToTenant t \<and> db_account (w_committed w) t i = Some r \<and> es \<noteq> [] \<longrightarrow>
        trace_RunningBalance (last es) = \<lparr>minorUnits = ar_balance r, currency = ar_currency r\<rparr>) \<and>
     (\<forall>t. inj (w_collate w) \<and> in_scope scope t \<longrightarrow>
        filter (\<lambda>x. trace_TenantID x = t) es = trace_on (w_collate w) (ScopedToTenant t) i (w_committed w))"
proof -
  have "single_currency (w_committed w)" using assms(2) by (simp add: books_def)
  note own = trace_on_restrict [OF this]
  obtain w' where w': "GetEntries scope i w = (Inr (trace_on (w_collate w) scope i (w_committed w)), w')"
      "w_committed w' = w_committed w"
    using GetEntries_trace [OF assms] by blast
  then show ?thesis
    using own trace_ends_at_balance [OF assms(2)]
    by (intro exI [of _ "trace_on (w_collate w) scope i (w_committed w)"] exI [of _ w'] conjI) auto
qed

theorem entries_traced_witness:
  "\<exists>es w'. GetEntries (ScopedToTenant ''a'') ''w'' (quiet_world sample_db) = (Inr es, w') \<and>
     w_committed w' = sample_db \<and> trace_RunningBalance (last es) = usd 500"
proof -
  have "trace_on (\<lambda>s. s) (ScopedToTenant ''a'') ''w'' sample_db \<noteq> []"
    by (simp add: trace_on_def account_history_def row_tenant_entry_def runningBalances_def
        running_loop.simps zeroMoney_def NewMoney_eq Money_Add_def)
  moreover have "w_collate (quiet_world sample_db) = (\<lambda>s. s)" by (simp add: fun_eq_iff)
  ultimately show ?thesis
    using entries_traced [of "quiet_world sample_db" "ScopedToTenant ''a''" "''w''"] sample_accounts(1)
    by (fastforce simp: known_to_def account_exists_def usd_def)
qed

section \<open>Links and stored transfers\<close>

text \<open>
  C15: the transfer row reads back as it was written, up to the microsecond that
  \<open>timestamptz\<close> keeps, empty texts stored as NULL included.
\<close>

theorem transfer_row_roundtrip:
  assumes "known_currency (currency (ts_Amount s))" and "currency (ts_Amount s) \<noteq> []"
  shows "scanTransferState (transfer_to_row s) =
           Inr (s\<lparr>ts_NextAttemptAt := timestamptz (ts_NextAttemptAt s)\<rparr>)"
  using assms by (rule scanTransferState_transfer_to_row)

theorem transfer_row_roundtrip_witness:
  "scanTransferState (transfer_to_row (newTransferState ''x'' ''a'' ''K'' 1500 (''b'', ''w'') (usd 200))) =
     Inr (newTransferState ''x'' ''a'' ''K'' 1000 (''b'', ''w'') (usd 200))"
  using transfer_row_roundtrip [of "newTransferState ''x'' ''a'' ''K'' 1500 (''b'', ''w'') (usd 200)"]
  by (simp add: newTransferState_def usd_def timestamptz_def)



section \<open>Cross-tenant transfers\<close>

text \<open>
  C17: a transfer goes through: from a ledger in order in which the alias resolves and the
  sender can pay, a request and one wake-up of the goroutine it starts settle the transfer:
  the sender's wallet is debited and the counterparty's target account credited by exactly
  the amount, over the accounts the request opened on the way.
\<close>

theorem transfer_settles:
  assumes "steady w" and "w_committed w = d" and "\<And>n. db_transfer d (''xfr_'' @ w_ids w n) = None"
    and "transferable (w_collate w) t al u ct target m k d"
    and "db_account d t u = Some f" and "db_account d ct target = Some g"
  shows "\<exists>d' x r. after [DoSendTransfer t al m k fp, DoWake 0] draws w = d' \<and>
    db_transfer d' x = Some r \<and> xr_tenant r = t \<and> xr_key r = k \<and> xr_status r = statusSettled \<and>
    db_account d' t u = Some (f\<lparr>ar_balance := ar_balance f - minorUnits m\<rparr>) \<and>
    db_account d' ct target = Some (g\<lparr>ar_balance := ar_balance g + minorUnits m\<rparr>)"
  using assms by (rule transfer_completes)

theorem transfer_settles_witness:
  "\<exists>d' x r. after [DoSendTransfer ''a'' ''m'' (usd 200) ''K'' ''f'', DoWake 0] (\<lambda>_. 0) (quiet_world sample_db) = d' \<and>
    db_transfer d' x = Some r \<and> xr_tenant r = ''a'' \<and> xr_key r = ''K'' \<and> xr_status r = statusSettled \<and>
    db_account d' ''a'' ''w'' = Some \<lparr>ar_tenant = ''a'', ar_id = ''w'', ar_kind = Wallet, ar_balance = 300, ar_currency = ''USD''\<rparr> \<and>
    db_account d' ''b'' ''w'' = Some \<lparr>ar_tenant = ''b'', ar_id = ''w'', ar_kind = Wallet, ar_balance = 200, ar_currency = ''USD''\<rparr>"
  using transfer_settles [of "quiet_world sample_db" sample_db "''a''" "''m''" "''w''" "''b''" "''w''" "usd 200" "''K''"
      "\<lparr>ar_tenant = ''a'', ar_id = ''w'', ar_kind = Wallet, ar_balance = 500, ar_currency = ''USD''\<rparr>"
      "\<lparr>ar_tenant = ''b'', ar_id = ''w'', ar_kind = Wallet, ar_balance = 0, ar_currency = ''USD''\<rparr>" "''f''" "\<lambda>_. 0"]
    sample_transferable sample_accounts
  by (simp add: db_transfer_def usd_def del: operate_all.simps)



text \<open>
  A request under a key the tenant has used is answered from the record, whatever else it
  asks for: the transfer it names, not created, and nothing is written.
\<close>

theorem send_answers_from_record:
  assumes "quiet w" and "List.find (\<lambda>r. xr_tenant r = t \<and> xr_key r = k) (transfer_states (w_committed w)) = Some r"
    and "scanTransferState r = Inr s"
  shows "\<exists>w'. SendTransfer t al m k fp w = (Inr (leg1_view (ts_TransferID s) (ts_Status s), False), w') \<and>
    w_committed w' = w_committed w"
  using assms by (rule SendTransfer_again)

theorem send_answers_from_record_witness:
  "\<exists>w'. SendTransfer ''a'' ''z'' (usd 999) ''K'' ''other'' (quiet_world transfer_db) =
     (Inr (leg1_view ''x'' legPending, False), w') \<and> w_committed w' = transfer_db"
proof -
  have "transfer_states transfer_db = [sample_row]"
    by (simp add: transfer_db_def recorded_def posted_def provisioned_def sample_row_def)
  moreover have "xr_tenant sample_row = ''a''" "xr_key sample_row = ''K''"
    "ts_TransferID sample_state = ''x''" "ts_Status sample_state = legPending"
    by (simp_all add: sample_row_def transfer_to_row_def newTransferState_def)
  ultimately show ?thesis
    using send_answers_from_record [of "quiet_world transfer_db" "''a''" "''K''" sample_row sample_state
        "''z''" "usd 999" "''other''"]
    by simp
qed

text \<open>
  C18: claims are exclusive: a claim is granted exactly when the transfer is pending or
  retrying and its next attempt is due; it then takes a lease of 15 seconds, and until the
  lease is over no claim is granted. A transfer in a final state is never claimed.
\<close>

theorem claims_exclusive:
  assumes "steady w" and "db_transfer (w_committed w) x = Some r" and "scanTransferState r = Inr s"
  shows "(claimable r (w_clock w (w_reads w)) \<longrightarrow> (\<exists>w' n. claimTransfer x w = (Inr (Some (s\<lparr>ts_NextAttemptAt := n\<rparr>)), w') \<and>
      n = w_clock w (Suc (w_reads w)) + claimLeaseDuration \<and>
      w_committed w' = set_transfer x (\<lambda>r. r\<lparr>xr_next := timestamptz n\<rparr>) (w_committed w) \<and>
      (\<forall>v. steady v \<and> w_committed v = w_committed w' \<and> w_clock v (w_reads v) < timestamptz n \<longrightarrow>
         (\<exists>v'. claimTransfer x v = (Inr None, v') \<and> w_committed v' = w_committed v)))) \<and>
    (\<not> claimable r (w_clock w (w_reads w)) \<longrightarrow>
      (\<exists>w'. claimTransfer x w = (Inr None, w') \<and> w_committed w' = w_committed w)) \<and>
    (xr_status r \<in> {statusSettled, statusReversed, statusReversalFailed} \<longrightarrow> \<not> claimable r now)"
proof (intro conjI impI)
  assume "claimable r (w_clock w (w_reads w))"
  from claim_granted [OF assms this] obtain w' n where
    c: "claimTransfer x w = (Inr (Some (s\<lparr>ts_NextAttemptAt := n\<rparr>)), w')"
      "n = w_clock w (Suc (w_reads w)) + claimLeaseDuration"
      "w_committed w' = set_transfer x (\<lambda>r. r\<lparr>xr_next := timestamptz n\<rparr>) (w_committed w)" by blast
  let ?r = "r\<lparr>xr_next := timestamptz n\<rparr>"
  have row: "db_transfer (w_committed w') x = Some ?r" unfolding c(3) by (rule set_transfer_row [OF assms(2)]) simp
  have scan: "scanTransferState ?r = Inr (s\<lparr>ts_NextAttemptAt := timestamptz n\<rparr>)"
    using assms(3) by (auto simp: scanTransferState_def Let_def split: option.splits sum.splits)
  have "\<exists>v'. claimTransfer x v = (Inr None, v') \<and> w_committed v' = w_committed v"
    if "steady v" "w_committed v = w_committed w'" "w_clock v (w_reads v) < timestamptz n" for v
    using claim_denied [OF that(1), of x] that(2,3) row scan by (auto simp: claimable_def)
  with c show "\<exists>w' n. claimTransfer x w = (Inr (Some (s\<lparr>ts_NextAttemptAt := n\<rparr>)), w') \<and>
      n = w_clock w (Suc (w_reads w)) + claimLeaseDuration \<and>
      w_committed w' = set_transfer x (\<lambda>r. r\<lparr>xr_next := timestamptz n\<rparr>) (w_committed w) \<and>
      (\<forall>v. steady v \<and> w_committed v = w_committed w' \<and> w_clock v (w_reads v) < timestamptz n \<longrightarrow>
         (\<exists>v'. claimTransfer x v = (Inr None, v') \<and> w_committed v' = w_committed v))" by blast
next
  assume "\<not> claimable r (w_clock w (w_reads w))"
  then show "\<exists>w'. claimTransfer x w = (Inr None, w') \<and> w_committed w' = w_committed w"
    using claim_denied [OF assms(1), of x] assms(2,3) by simp
next
  assume "xr_status r \<in> {statusSettled, statusReversed, statusReversalFailed}"
  then show "\<not> claimable r now"
    by (auto simp: claimable_def statusSettled_def statusReversed_def statusReversalFailed_def)
qed

theorem claims_exclusive_witness:
  "\<exists>w' n. claimTransfer ''x'' (quiet_world transfer_db) = (Inr (Some (sample_state\<lparr>ts_NextAttemptAt := n\<rparr>)), w')"
proof -
  have "db_transfer (w_committed (quiet_world transfer_db)) ''x'' = Some sample_row"
    and "claimable sample_row (w_clock (quiet_world transfer_db) (w_reads (quiet_world transfer_db)))" by simp_all
  then show ?thesis using claims_exclusive [OF steady_samples(2) _ sample_scan, of "''x''" 0] by blast
qed






text \<open>
  C22: a lost claim is taken for a posted leg: \<open>attemptForwardLegsFrom\<close> reads the nil of an
  attempt whose claim was not granted as success. A goroutine that looks at leg 2 an instant
  before it is due goes on to post leg 3: the counterparty is paid and the transfer settled
  while leg 2 has not been posted and never will be.
\<close>

theorem lost_claim_skips_leg2:
  assumes "steady (co_world c)" and "db_transfer (w_committed (co_world c)) x = Some r"
    and "scanTransferState r = Inr s" and "xr_status r = ''pending'' \<or> xr_status r = ''retrying''"
    and "w_clock (co_world c) (w_reads (co_world c)) < xr_next r"
    and "xr_next r \<le> w_clock (co_world c) (Suc (w_reads (co_world c)))"
    and "uninjected x c" and "payable s 2 (w_committed (co_world c))" and "payable s 3 (w_committed (co_world c))"
  shows "\<exists>c' t tid now r'. attemptForwardLegsFrom x 2 c = (Inr (), c') \<and>
    w_committed (co_world c') = advanced x statusSettled t [] (leg_posted s 3 tid now (w_committed (co_world c))) \<and>
    db_key (w_committed (co_world c')) (ts_IdempotencyKey s @ '':leg2'') = None \<and>
    db_transfer (w_committed (co_world c')) x = Some r' \<and> xr_status r' = statusSettled"
proof -
  obtain w t tid now where w: "attemptForwardLegsFrom x 2 c = (Inr (), c\<lparr>co_world := w\<rparr>)"
    "w_committed w = advanced x statusSettled t [] (leg_posted s 3 tid now (w_committed (co_world c)))"
    using lost_claim_settles [OF assms(1-7,9)] by (auto simp: reached_def)
  have "db_key (w_committed w) (ts_IdempotencyKey s @ '':leg2'') = None"
    using assms(8) by (simp add: w(2) leg_posted_def legMovement_def posted_key payable_def)
  moreover obtain r' where "db_transfer (w_committed w) x = Some r'" "xr_status r' = statusSettled"
    using advanced_transfer [OF _ assms(3), of "leg_posted s 3 tid now (w_committed (co_world c))" x
        statusSettled t "[]"] assms(2) w(2) by auto
  ultimately show ?thesis using w by (intro exI [of _ "c\<lparr>co_world := w\<rparr>"]) auto
qed

theorem lost_claim_skips_leg2_witness:
  "\<exists>c' r'. attemptForwardLegsFrom ''x'' 2 (NewTransferCoordinator (early_world transfer_db) (\<lambda>_. 0)) = (Inr (), c') \<and>
    db_key (w_committed (co_world c')) ''K:leg2'' = None \<and>
    db_transfer (w_committed (co_world c')) ''x'' = Some r' \<and> xr_status r' = statusSettled"
proof -
  let ?c = "NewTransferCoordinator (early_world transfer_db) (\<lambda>_. 0)"
  have c: "co_world ?c = early_world transfer_db" "uninjected ''x'' ?c"
    by (simp_all add: NewTransferCoordinator_def uninjected_def read_count_def read_flag_def)
  have r: "xr_status sample_row = ''pending''" "xr_next sample_row = 0" "ts_IdempotencyKey sample_state = ''K''"
    by (simp_all add: sample_row_def transfer_to_row_def newTransferState_def legPending_def timestamptz_def)
  show ?thesis
    using lost_claim_skips_leg2 [of ?c "''x''" sample_row sample_state] transfer_payable c r by auto
qed

text \<open>
  C23: a transfer can be both refunded and paid: leg 2 has failed for the last time and its
  refund fails once and is scheduled again, while no status says that the transfer is being
  reversed. When the lease of the claim is over before the refund runs, the ticker posts
  legs 2 and 3 and settles the transfer; the scheduled refund then posts as well and marks
  it reversed. The sender has its money back and the counterparty keeps the amount.
\<close>

theorem refunded_and_paid:
  assumes "steady (co_world c)" and "db_transfer (w_committed (co_world c)) x = Some r"
    and "scanTransferState r = Inr s" and "claimable r (w_clock (co_world c) (w_reads (co_world c)))"
    and "\<not> read_flag (co_skipForwardCrash c) x"
    and "read_count (co_counts c) (transferLegKey x 2) = retryBudget - 1"
    and "co_legFaults c = [transferLegKey x 2 \<mapsto> 1, transferReversalLegKey x 1 \<mapsto> 1]"
    and "backoffForAttempt (read_count (co_counts c) (transferReversalLegKey x 1) + 1)
      (co_draws c (Suc (co_drawn c))) = (delay, True)"
    and "sender_wallet (w_collate (co_world c)) (ts_TenantID s) (w_committed (co_world c)) = Inr u"
    and "refundable s u (w_committed (co_world c))"
    and "w_clock (co_world c) (Suc (w_reads (co_world c))) + claimLeaseDuration
      \<le> w_clock (co_world c) (Suc (Suc (w_reads (co_world c))))"
    and "db_key (w_committed (co_world c)) (legReverseKey (xr_key r) 2) = None"
    and "payable s 2 (w_committed (co_world c))" and "payable s 3 (w_committed (co_world c))"
    and "sender_apart s"
  shows "\<exists>c1 c2 c3 s' t tid1 now1 tid2 now2 tid3 now3.
    attemptLeg x 2 True c = (Inl ErrSimulatedTransientFault, c1) \<and>
    co_spawned c1 = co_spawned c @ [(delay, RetryLeg1Reversal x s')] \<and>
    attemptDueLegs x c1 = (Inr (), c2) \<and>
    run_task (RetryLeg1Reversal x s') c2 = (Inr (), c3) \<and>
    w_committed (co_world c3) = advanced x statusReversed t reasonRetryBudgetExhausted
      (refunded s u tid1 now1 (leg_posted s 3 tid3 now3 (leg_posted s 2 tid2 now2 (w_committed (co_world c)))))"
  using assms by (rule reversal_race)

theorem refunded_and_paid_witness:
  "\<exists>c1 c2 c3 s' t tid1 now1 tid2 now2 tid3 now3.
    attemptLeg ''x'' 2 True (failing (slow_world transfer_db) 4
      [transferLegKey ''x'' 2 \<mapsto> 1, transferReversalLegKey ''x'' 1 \<mapsto> 1]) = (Inl ErrSimulatedTransientFault, c1) \<and>
    attemptDueLegs ''x'' c1 = (Inr (), c2) \<and> run_task (RetryLeg1Reversal ''x'' s') c2 = (Inr (), c3) \<and>
    w_committed (co_world c3) = advanced ''x'' statusReversed t reasonRetryBudgetExhausted
      (refunded sample_state ''w'' tid1 now1 (leg_posted sample_state 3 tid3 now3
        (leg_posted sample_state 2 tid2 now2 transfer_db)))"
proof -
  let ?c = "failing (slow_world transfer_db) 4 [transferLegKey ''x'' 2 \<mapsto> 1, transferReversalLegKey ''x'' 1 \<mapsto> 1]"
  have "sender_wallet (\<lambda>s. s) (ts_TenantID sample_state) transfer_db = Inr ''w''"
    using transfer_wallet by (simp add: newTransferState_def)
  moreover have "xr_key sample_row = ''K''"
    by (simp add: sample_row_def transfer_to_row_def newTransferState_def)
  moreover have "20 * second + claimLeaseDuration \<le> 2 * (20 * second)"
    by (simp add: claimLeaseDuration_def second_def)
  ultimately show ?thesis
    using refunded_and_paid [of ?c "''x''" sample_row sample_state "fst (backoffForAttempt 1 0)" "''w''"]
      transfer_payable first_backoff
    by (simp add: retryBudget_def legReverseKey_def del: prod.collapse run_task.simps) blast
qed

end
